(* ===== verification/Fill_Deleter.thy ===== *)
theory Fill_Deleter
  imports Prelude "HOL-Library.Word"
begin

text \<open>
  The device cleaner of local-pv-provisioner (\<open>controllers/deleter.go\<close>, with the \<open>file\<close> interface
  of \<open>controllers/fs.go\<close>). \<open>FillDeleter.Delete\<close> opens a block device, reads its size by
  seeking to the end and overwrites with zeros \<open>FillCount\<close> blocks of \<open>FillBlockSize\<close> bytes at each
  of the five offsets where BlueStore keeps a label.

  A device is its contents and the file offset; \<open>dev_env\<close> says which calls on it fail and how many bytes a failing
  write has stored. The lemmas describe the bytes the cleaner changes, on success and on every error path; all
  offsets are 64-bit signed and wrap around as in Go.
\<close>

section \<open>The device and the file interface\<close>

record dev_file =
  content :: "8 word list"
  offset :: int

record dev_env =
  open_err :: bool
  seek_end_err :: bool
  seek_err :: "int \<Rightarrow> bool"
  write_err :: "int \<Rightarrow> nat option"
  sync_err :: bool

datatype del_err =
    OpenErr
  | SizeErr
  | SeekErr int
  | WriteErr int
  | SyncErr
  | PanicMakeSlice
  | PanicSliceBounds

definition file_size :: "dev_file \<Rightarrow> int" where
  "file_size f = int (length (content f))"

text \<open>\<open>Seek(0, io.SeekEnd)\<close> returns the size and leaves the offset at the end.\<close>

definition file_seek_end :: "dev_env \<Rightarrow> dev_file \<Rightarrow> (del_err, int) result \<times> dev_file" where
  "file_seek_end env f =
     (if seek_end_err env then (Inl SizeErr, f)
      else (Inr (file_size f), f\<lparr>offset := file_size f\<rparr>))"

text \<open>\<open>Seek(position, io.SeekStart)\<close>.\<close>

definition file_seek :: "dev_env \<Rightarrow> int \<Rightarrow> dev_file \<Rightarrow> (del_err, unit) result \<times> dev_file" where
  "file_seek env p f =
     (if seek_err env p then (Inl (SeekErr p), f) else (Inr (), f\<lparr>offset := p\<rparr>))"

text \<open>\<open>Write(b)\<close> at the current offset. A write that fails has stored a number of bytes first, as \<open>write_err\<close> says; one
  past the end of the device stores what fits, since a block device does not grow, and fails.\<close>

definition file_write :: "dev_env \<Rightarrow> 8 word list \<Rightarrow> dev_file \<Rightarrow> (del_err, unit) result \<times> dev_file" where
  "file_write env b f =
     (if offset f < 0 then (Inl (WriteErr (offset f)), f)
      else let room = nat (file_size f - offset f);
               stored = take room (case write_err env (offset f) of None \<Rightarrow> b | Some n \<Rightarrow> take n b);
               f' = f\<lparr>content := take (nat (offset f)) (content f) @ stored
                                 @ drop (nat (offset f) + length stored) (content f),
                      offset := offset f + int (length stored)\<rparr>
           in if write_err env (offset f) = None \<and> length b \<le> room then (Inr (), f')
              else (Inl (WriteErr (offset f)), f'))"

definition file_sync :: "dev_env \<Rightarrow> dev_file \<Rightarrow> (del_err, unit) result \<times> dev_file" where
  "file_sync env f = (if sync_err env then (Inl SyncErr, f) else (Inr (), f))"

section \<open>The cleaner\<close>

record fill_deleter =
  FillBlockSize :: nat
  FillCount :: nat

definition bdevLabelPositions :: "int list" where
  "bdevLabelPositions =
     [0, 1 * 1024 * 1024 * 1024, 10 * 1024 * 1024 * 1024, 100 * 1024 * 1024 * 1024,
      1000 * 1024 * 1024 * 1024]"

text \<open>The inner loop: \<open>n\<close> blocks are left, \<open>i\<close> is the next one, \<open>len\<close> the length of the zero block.\<close>

fun fill_blocks ::
  "dev_env \<Rightarrow> int \<Rightarrow> int \<Rightarrow> nat \<Rightarrow> nat \<Rightarrow> nat \<Rightarrow> dev_file \<Rightarrow> (del_err, unit) result \<times> dev_file" where
  "fill_blocks env fileSize position len i 0 f = (Inr (), f)"
| "fill_blocks env fileSize position len i (Suc n) f =
     (let from = wrap64 (position + wrap64 (wrap64 (int i) * int len));
          to = wrap64 (position + wrap64 (wrap64 (int i + 1) * int len))
      in if fileSize \<le> from then (Inr (), f)
         else let l = (if fileSize \<le> to then wrap64 (fileSize - from) else int len)
              in if l < 0 \<or> int len < l then (Inl PanicSliceBounds, f)
                 else (case file_write env (take (nat l) (replicate len 0)) f of
                         (Inl e, f') \<Rightarrow> (Inl e, f')
                       | (Inr _, f') \<Rightarrow> fill_blocks env fileSize position len (Suc i) n f'))"

text \<open>The outer loop over the label positions.\<close>

fun fill_positions ::
  "fill_deleter \<Rightarrow> dev_env \<Rightarrow> int \<Rightarrow> int list \<Rightarrow> dev_file \<Rightarrow> (del_err, unit) result \<times> dev_file" where
  "fill_positions d env fileSize [] f = (Inr (), f)"
| "fill_positions d env fileSize (p # ps) f =
     (if fileSize \<le> p then (Inr (), f)
      else (case file_seek env p f of
              (Inl e, f1) \<Rightarrow> (Inl e, f1)
            | (Inr _, f1) \<Rightarrow>
                (case fill_blocks env fileSize p (FillBlockSize d) 0 (FillCount d) f1 of
                   (Inl e, f2) \<Rightarrow> (Inl e, f2)
                 | (Inr _, f2) \<Rightarrow> fill_positions d env fileSize ps f2)))"

definition delete_file :: "fill_deleter \<Rightarrow> dev_env \<Rightarrow> dev_file \<Rightarrow> (del_err, unit) result \<times> dev_file" where
  "delete_file d env f =
     (if open_err env then (Inl OpenErr, f)
      else (case file_seek_end env (f\<lparr>offset := 0\<rparr>) of
              (Inl e, f1) \<Rightarrow> (Inl e, f1)
            | (Inr fileSize, f1) \<Rightarrow>
                (if 2 ^ 63 \<le> int (FillBlockSize d) then (Inl PanicMakeSlice, f1)
                 else (case fill_positions d env fileSize bdevLabelPositions f1 of
                         (Inl e, f2) \<Rightarrow> (Inl e, f2)
                       | (Inr _, f2) \<Rightarrow> file_sync env f2))))"

text \<open>The devices of a node by path; opening a path that is not there fails.\<close>

type_synonym devices = "string \<rightharpoonup> dev_file"

definition Delete ::
  "fill_deleter \<Rightarrow> (string \<Rightarrow> dev_env) \<Rightarrow> string \<Rightarrow> devices \<Rightarrow> (del_err, unit) result \<times> devices" where
  "Delete d env path devs =
     (case devs path of
        None \<Rightarrow> (Inl OpenErr, devs)
      | Some f \<Rightarrow> (case delete_file d (env path) f of (r, f') \<Rightarrow> (r, devs(path \<mapsto> f'))))"

section \<open>The interface\<close>

text \<open>
  The Go interface \<open>Deleter\<close>: cleaning a path touches the device of that path only, and a
  successful call leaves it clean. The callers are proved against these laws.
\<close>

locale Deleter =
  fixes del :: "string \<Rightarrow> devices \<Rightarrow> (del_err, unit) result \<times> devices"
    and clean :: "dev_file \<Rightarrow> bool"
    and ok_dev :: "dev_file \<Rightarrow> bool"
  assumes frame: "q \<noteq> path \<Longrightarrow> snd (del path devs) q = devs q"
    and keeps_dom: "dom (snd (del path devs)) = dom devs"
    and keeps_ok: "\<forall>f \<in> ran devs. ok_dev f \<Longrightarrow> \<forall>f \<in> ran (snd (del path devs)). ok_dev f"
    and keeps_clean: "\<forall>f \<in> ran devs. ok_dev f \<Longrightarrow> devs q = Some f \<Longrightarrow> clean f \<Longrightarrow>
      \<exists>f'. snd (del path devs) q = Some f' \<and> clean f'"
    and cleans: "\<forall>f \<in> ran devs. ok_dev f \<Longrightarrow> fst (del path devs) = Inr u \<Longrightarrow>
      \<exists>f'. snd (del path devs) path = Some f' \<and> clean f'"

section \<open>What a run changes\<close>

text \<open>The bytes the cleaner is meant to clear.\<close>

definition in_block :: "int \<Rightarrow> int \<Rightarrow> nat \<Rightarrow> bool" where
  "in_block from to k \<longleftrightarrow> from \<le> int k \<and> int k < to"

definition label_byte :: "fill_deleter \<Rightarrow> nat \<Rightarrow> bool" where
  "label_byte d k \<longleftrightarrow>
     (\<exists>p \<in> set bdevLabelPositions. in_block p (p + int (FillCount d) * int (FillBlockSize d)) k)"

text \<open>\<open>cleared R xs ys\<close>: exactly the bytes of \<open>R\<close> became zero. \<open>touched R xs ys\<close>: no byte outside
  \<open>R\<close> changed and every changed byte is zero (the run may have stopped early).\<close>

definition cleared :: "(nat \<Rightarrow> bool) \<Rightarrow> 8 word list \<Rightarrow> 8 word list \<Rightarrow> bool" where
  "cleared R xs ys \<longleftrightarrow>
     length ys = length xs \<and> (\<forall>k < length xs. ys ! k = (if R k then 0 else xs ! k))"

definition touched :: "(nat \<Rightarrow> bool) \<Rightarrow> 8 word list \<Rightarrow> 8 word list \<Rightarrow> bool" where
  "touched R xs ys \<longleftrightarrow>
     length ys = length xs \<and> (\<forall>k < length xs. ys ! k = xs ! k \<or> R k \<and> ys ! k = 0)"

text \<open>No call on the device fails.\<close>

definition no_faults :: "dev_env \<Rightarrow> bool" where
  "no_faults env \<longleftrightarrow> \<not> open_err env \<and> \<not> seek_end_err env \<and> (\<forall>p. \<not> seek_err env p)
     \<and> (\<forall>p. write_err env p = None) \<and> \<not> sync_err env"

lemma touched_refl [simp]: "touched R xs xs"
  by (simp add: touched_def)

lemma cleared_touched: "cleared R xs ys \<Longrightarrow> touched R xs ys"
  by (auto simp: cleared_def touched_def)

lemma cleared_none: "(\<And>k. k < length xs \<Longrightarrow> \<not> R k) \<Longrightarrow> cleared R xs xs"
  by (auto simp: cleared_def)

lemma cleared_trans:
  "cleared R xs ys \<Longrightarrow> cleared S ys zs \<Longrightarrow> cleared (\<lambda>k. R k \<or> S k) xs zs"
  by (auto simp: cleared_def)

lemma touched_trans:
  "touched R xs ys \<Longrightarrow> touched S ys zs \<Longrightarrow> touched (\<lambda>k. R k \<or> S k) xs zs"
  by (auto simp: touched_def) (metis, metis)

lemma touched_mono: "touched R xs ys \<Longrightarrow> (\<And>k. R k \<Longrightarrow> S k) \<Longrightarrow> touched S xs ys"
  by (auto simp: touched_def)

lemma cleared_cong:
  "cleared R xs ys \<Longrightarrow> (\<And>k. k < length xs \<Longrightarrow> R k = S k) \<Longrightarrow> cleared S xs ys"
  by (auto simp: cleared_def)

lemma cleared_size: "cleared R xs ys \<Longrightarrow> length ys = length xs"
  by (simp add: cleared_def)

lemma touched_size: "touched R xs ys \<Longrightarrow> length ys = length xs"
  by (simp add: touched_def)

text \<open>One write inside the device.\<close>

lemma write_zeros:
  assumes "m + n \<le> length xs" and "ys = take m xs @ replicate n 0 @ drop (m + n) xs"
  shows "cleared (in_block (int m) (int m + int n)) xs ys"
  using assms by (auto simp: cleared_def nth_append in_block_def)

lemma file_write_zero:
  assumes "0 \<le> offset f" and "offset f + int n \<le> file_size f"
    and "file_write env (replicate n 0) f = (r, f')"
  shows "(r = Inr () \<and> offset f' = offset f + int n
            \<and> cleared (in_block (offset f) (offset f + int n)) (content f) (content f'))
       \<or> (\<exists>e. r = Inl e \<and> write_err env (offset f) \<noteq> None
            \<and> touched (in_block (offset f) (offset f + int n)) (content f) (content f'))"
proof -
  obtain m where m: "offset f = int m" using assms(1) nonneg_int_cases by blast
  define k where "k = (case write_err env (offset f) of None \<Rightarrow> n | Some i \<Rightarrow> min i n)"
  have k: "k \<le> n" "m + k \<le> length (content f)" "m + n \<le> length (content f)"
    using assms(2) m by (auto simp: k_def file_size_def split: option.split)
  have stored: "take (nat (file_size f - offset f)) (case write_err env (offset f) of None \<Rightarrow> replicate n 0 | Some i \<Rightarrow> take i (replicate n 0))
      = replicate k 0"
    using k m by (auto simp: k_def file_size_def min_def split: option.split)
  have f': "content f' = take m (content f) @ replicate k 0 @ drop (m + k) (content f)" "offset f' = offset f + int k"
      "r = (if write_err env (offset f) = None then Inr () else Inl (WriteErr (offset f)))"
    using assms(3) m k(3) unfolding file_write_def stored Let_def by (auto simp: file_size_def split: if_splits)
  have c: "cleared (in_block (offset f) (offset f + int k)) (content f) (content f')"
    using write_zeros [OF k(2) f'(1)] m by simp
  then have t: "touched (in_block (offset f) (offset f + int n)) (content f) (content f')"
    using k(1) by (intro touched_mono [OF cleared_touched [OF c]]) (simp add: in_block_def)
  show ?thesis using f' c t by (cases "write_err env (offset f)") (simp_all add: k_def)
qed

text \<open>The start of block \<open>i\<close>; the 64-bit computation of the source gives it while it is in range.\<close>

definition block_at :: "int \<Rightarrow> nat \<Rightarrow> nat \<Rightarrow> int" where
  "block_at p len i = p + int i * int len"

lemma block_at_0 [simp]: "block_at p len 0 = p"
  by (simp add: block_at_def)

lemma block_at_Suc [simp]: "block_at p len (Suc i) = block_at p len i + int len"
  by (simp add: block_at_def algebra_simps)

lemma block_at_add: "block_at p len i \<le> block_at p len (i + n)"
  by (simp add: block_at_def mult_right_mono)

lemma block_at_wrap:
  assumes "0 \<le> p" and "block_at p len i < 2 ^ 63"
  shows "wrap64 (p + wrap64 (wrap64 (int i) * int len)) = block_at p len i"
proof (cases "len = 0")
  case True
  with assms show ?thesis by (simp add: wrap64_def block_at_def)
next
  case False
  then have "int i * 1 \<le> int i * int len" by (intro mult_left_mono) auto
  with assms show ?thesis by (simp add: wrap64_id int64_range_def block_at_def)
qed

text \<open>One iteration that writes: \<open>m\<close> bytes are left of the block or of the device.\<close>

lemma fill_blocks_step:
  assumes "0 \<le> p" and "S + int len < 2 ^ 63" and "block_at p len i < S"
    and "m = nat (min (S - block_at p len i) (int len))"
  shows "fill_blocks env S p len i (Suc n) f =
     (case file_write env (replicate m 0) f of
        (Inl e, f') \<Rightarrow> (Inl e, f')
      | (Inr _, f') \<Rightarrow> fill_blocks env S p len (Suc i) n f')"
proof -
  let ?from = "block_at p len i"
  have from_eq: "wrap64 (p + wrap64 (wrap64 (int i) * int len)) = ?from"
    using assms by (intro block_at_wrap) auto
  have to_eq: "wrap64 (p + wrap64 (wrap64 (int i + 1) * int len)) = ?from + int len"
    using block_at_wrap [of p len "Suc i"] assms by (simp add: add.commute)
  have from0: "0 \<le> ?from" using assms(1) by (simp add: block_at_def)
  have l: "(if S \<le> ?from + int len then wrap64 (S - ?from) else int len) = int m"
    using from0 assms by (auto simp: wrap64_id int64_range_def)
  have m: "m \<le> len" using assms(4) by simp
  show ?thesis
    using assms(3) m by (simp add: Let_def from_eq to_eq l min_absorb1)
qed

lemma fill_blocks_write:
  assumes "file_write env (replicate m 0) f = (r1, f1)" and "S = file_size f" and "0 \<le> p"
    and "block_at p len i < S" and "m = nat (min (S - block_at p len i) (int len))"
    and "offset f = block_at p len i"
  shows "(r1 = Inr () \<and> file_size f1 = S
            \<and> (S \<le> block_at p len (Suc i) \<or> offset f1 = block_at p len (Suc i))
            \<and> cleared (in_block (block_at p len i) (block_at p len (Suc i))) (content f) (content f1))
       \<or> (\<exists>e. r1 = Inl e \<and> (\<exists>q. write_err env q \<noteq> None)
            \<and> touched (in_block (block_at p len i) (block_at p len (Suc i))) (content f) (content f1))"
proof -
  have m: "int m = min (S - block_at p len i) (int len)" using assms by simp
  have "0 \<le> block_at p len i" using assms(3) by (simp add: block_at_def)
  then have w: "(r1 = Inr () \<and> offset f1 = offset f + int m
            \<and> cleared (in_block (offset f) (offset f + int m)) (content f) (content f1))
       \<or> (\<exists>e. r1 = Inl e \<and> write_err env (offset f) \<noteq> None
            \<and> touched (in_block (offset f) (offset f + int m)) (content f) (content f1))"
    using assms m by (intro file_write_zero) auto
  show ?thesis
  proof (cases r1)
    case (Inl e)
    have "in_block (offset f) (offset f + int m) k \<Longrightarrow> in_block (block_at p len i) (block_at p len (Suc i)) k" for k
      using assms(6) m by (auto simp: in_block_def)
    with w Inl show ?thesis by (auto elim!: touched_mono)
  next
    case (Inr u)
    with w have c: "offset f1 = offset f + int m"
      "cleared (in_block (offset f) (offset f + int m)) (content f) (content f1)" by auto
    have "cleared (in_block (offset f) (block_at p len (Suc i))) (content f) (content f1)"
      by (rule cleared_cong [OF c(2)]) (use assms m in \<open>auto simp: in_block_def file_size_def\<close>)
    with Inr c assms m show ?thesis
      by (auto simp: file_size_def cleared_size)
  qed
qed

text \<open>
  The inner loop, when the sums of offsets stay in range: the offset follows the block index, so
  success clears the rest of the region and an error leaves only cleared bytes behind.
\<close>

lemma fill_blocks_effect:
  assumes "fill_blocks env S p len i n f = (r, f')"
    and "S = file_size f" and "0 \<le> p" and "S + int len < 2 ^ 63"
    and "block_at p len i < S + int len" and "S \<le> block_at p len i \<or> offset f = block_at p len i"
  shows "case r of
      Inr _ \<Rightarrow> cleared (in_block (block_at p len i) (block_at p len (i + n))) (content f) (content f')
    | Inl _ \<Rightarrow> touched (in_block (block_at p len i) (block_at p len (i + n))) (content f) (content f')
               \<and> (\<exists>q. write_err env q \<noteq> None)"
  using assms
proof (induction n arbitrary: i f)
  case 0
  then show ?case by (auto simp: cleared_def in_block_def)
next
  case (Suc n)
  show ?case
  proof (cases "S \<le> block_at p len i")
    case True
    then have "r = Inr ()" "f' = f"
      using Suc.prems block_at_wrap [of p len i] by (auto simp: Let_def)
    with True Suc.prems(2) show ?thesis
      by (auto simp: file_size_def in_block_def intro!: cleared_none)
  next
    case False
    define m where "m = nat (min (S - block_at p len i) (int len))"
    obtain r1 f1 where w: "file_write env (replicate m 0) f = (r1, f1)" by fastforce
    have run: "(case r1 of Inl e \<Rightarrow> (Inl e, f1) | Inr _ \<Rightarrow> fill_blocks env S p len (Suc i) n f1) = (r, f')"
      using Suc.prems(1) fill_blocks_step [OF Suc.prems(3,4) _ m_def] False w
      by (simp split: sum.splits)
    show ?thesis
    proof (cases r1)
      case (Inl e)
      then have "touched (in_block (block_at p len i) (block_at p len (Suc i))) (content f) (content f1)"
          "\<exists>q. write_err env q \<noteq> None" "f' = f1" "r = Inl e"
        using run fill_blocks_write [OF w Suc.prems(2,3) _ m_def] False Suc.prems(6) by auto
      moreover have "in_block (block_at p len i) (block_at p len (Suc i)) k \<Longrightarrow> in_block (block_at p len i) (block_at p len (i + Suc n)) k" for k
        using block_at_add [of p len "Suc i" n] by (simp add: in_block_def)
      ultimately show ?thesis by (auto elim!: touched_mono)
    next
      case (Inr u)
      then have c: "file_size f1 = S" "S \<le> block_at p len (Suc i) \<or> offset f1 = block_at p len (Suc i)"
          "cleared (in_block (block_at p len i) (block_at p len (Suc i))) (content f) (content f1)"
        using fill_blocks_write [OF w Suc.prems(2,3) _ m_def] False Suc.prems(6) by auto
      have ih: "case r of
          Inr _ \<Rightarrow> cleared (in_block (block_at p len (Suc i)) (block_at p len (Suc i + n))) (content f1) (content f')
        | Inl _ \<Rightarrow> touched (in_block (block_at p len (Suc i)) (block_at p len (Suc i + n))) (content f1) (content f')
               \<and> (\<exists>q. write_err env q \<noteq> None)"
        by (rule Suc.IH) (use run Inr c Suc.prems False in auto)
      have union: "(\<lambda>k. in_block (block_at p len i) (block_at p len (Suc i)) k
            \<or> in_block (block_at p len (Suc i)) (block_at p len (Suc i + n)) k)
          = in_block (block_at p len i) (block_at p len (i + Suc n))"
        using block_at_add [of p len "Suc i" n] by (auto simp: in_block_def fun_eq_iff)
      show ?thesis
        using ih touched_trans [OF cleared_touched [OF c(3)]] cleared_trans [OF c(3)]
        unfolding union [symmetric] by (cases r) simp_all
    qed
  qed
qed

text \<open>The outer loop; the positions are ascending, so the early exit skips no byte of the device.\<close>

definition region :: "fill_deleter \<Rightarrow> int list \<Rightarrow> nat \<Rightarrow> bool" where
  "region d ps k \<longleftrightarrow> (\<exists>p \<in> set ps. in_block p (block_at p (FillBlockSize d) (FillCount d)) k)"

lemma region_Cons:
  "region d (p # ps) = (\<lambda>k. in_block p (block_at p (FillBlockSize d) (FillCount d)) k \<or> region d ps k)"
  by (auto simp: region_def fun_eq_iff)

lemma fill_positions_effect:
  assumes "fill_positions d env S ps f = (r, f')"
    and "S = file_size f" and "S + int (FillBlockSize d) < 2 ^ 63"
    and "sorted ps" and "\<forall>p \<in> set ps. 0 \<le> p"
  shows "case r of
      Inr _ \<Rightarrow> cleared (region d ps) (content f) (content f')
    | Inl _ \<Rightarrow> touched (region d ps) (content f) (content f') \<and> \<not> no_faults env"
  using assms
proof (induction ps arbitrary: f)
  case Nil
  then show ?case by (auto simp: cleared_def region_def)
next
  case (Cons p ps)
  show ?case
  proof (cases "S \<le> p")
    case True
    with Cons.prems have "r = Inr ()" "f' = f" by auto
    moreover have "\<not> region d (p # ps) k" if "k < length (content f)" for k
      using that True Cons.prems by (fastforce simp: region_def in_block_def file_size_def)
    ultimately show ?thesis by (auto intro: cleared_none)
  next
    case False
    show ?thesis
    proof (cases "seek_err env p")
      case True
      with False Cons.prems show ?thesis by (auto simp: file_seek_def no_faults_def)
    next
      case seek: False
      obtain r1 f1 where b: "fill_blocks env S p (FillBlockSize d) 0 (FillCount d) (f\<lparr>offset := p\<rparr>) = (r1, f1)"
        by fastforce
      have run: "(case r1 of Inl e \<Rightarrow> (Inl e, f1) | Inr _ \<Rightarrow> fill_positions d env S ps f1) = (r, f')"
        using Cons.prems(1) False seek b by (simp add: file_seek_def split: sum.splits)
      have eff: "case r1 of
          Inr _ \<Rightarrow> cleared (in_block p (block_at p (FillBlockSize d) (FillCount d))) (content f) (content f1)
        | Inl _ \<Rightarrow> touched (in_block p (block_at p (FillBlockSize d) (FillCount d))) (content f) (content f1)
               \<and> (\<exists>q. write_err env q \<noteq> None)"
        using fill_blocks_effect [OF b] Cons.prems False by (cases r1) (simp_all add: file_size_def)
      show ?thesis
      proof (cases r1)
        case (Inl e)
        with run eff show ?thesis by (auto simp: no_faults_def region_Cons elim!: touched_mono)
      next
        case (Inr u)
        with eff have c: "cleared (in_block p (block_at p (FillBlockSize d) (FillCount d))) (content f) (content f1)"
          by simp
        then have "S = file_size f1" using Cons.prems(2) by (simp add: file_size_def cleared_size)
        then have "case r of
            Inr _ \<Rightarrow> cleared (region d ps) (content f1) (content f')
          | Inl _ \<Rightarrow> touched (region d ps) (content f1) (content f') \<and> \<not> no_faults env"
          using Cons.IH [of f1] run Inr Cons.prems by simp
        then show ?thesis
          using touched_trans [OF cleared_touched [OF c]] cleared_trans [OF c]
          unfolding region_Cons by (cases r) simp_all
      qed
    qed
  qed
qed

lemma positions_ascending: "sorted bdevLabelPositions" "\<forall>p \<in> set bdevLabelPositions. 0 \<le> p"
  by (simp_all add: bdevLabelPositions_def)

lemma region_positions: "region d bdevLabelPositions = label_byte d"
  by (simp add: fun_eq_iff region_def label_byte_def block_at_def)

text \<open>The whole of \<open>Delete\<close> on an open device.\<close>

lemma delete_file_effect:
  assumes "delete_file d env f = (r, f')"
    and "file_size f + int (FillBlockSize d) < 2 ^ 63"
  shows "touched (label_byte d) (content f) (content f')"
    and "r = Inr () \<Longrightarrow> cleared (label_byte d) (content f) (content f')"
    and "no_faults env \<Longrightarrow> r = Inr ()"
proof -
  let ?f1 = "f\<lparr>offset := file_size f\<rparr>"
  obtain r2 f2 where p: "fill_positions d env (file_size f) bdevLabelPositions ?f1 = (r2, f2)"
    by fastforce
  have eff: "case r2 of
      Inr _ \<Rightarrow> cleared (label_byte d) (content f) (content f2)
    | Inl _ \<Rightarrow> touched (label_byte d) (content f) (content f2) \<and> \<not> no_faults env"
    using fill_positions_effect [OF p] assms(2) positions_ascending
    by (cases r2) (simp_all add: region_positions file_size_def)
  have bs: "\<not> 2 ^ 63 \<le> int (FillBlockSize d)" using assms(2) by (simp add: file_size_def)
  have run: "(open_err env \<or> seek_end_err env) \<and> (\<exists>e. r = Inl e) \<and> content f' = content f
    \<or> (case r2 of Inl e \<Rightarrow> (Inl e, f2) | Inr _ \<Rightarrow> file_sync env f2) = (r, f')"
    using assms(1) p bs
    by (auto simp: delete_file_def file_seek_end_def file_size_def split: if_splits sum.splits)
  show "touched (label_byte d) (content f) (content f')"
    using run eff by (cases r2) (auto simp: file_sync_def cleared_touched split: if_splits)
  show "r = Inr () \<Longrightarrow> cleared (label_byte d) (content f) (content f')"
    using run eff by (cases r2) (auto simp: file_sync_def split: if_splits)
  show "no_faults env \<Longrightarrow> r = Inr ()"
    using run eff by (cases r2) (auto simp: file_sync_def no_faults_def split: if_splits)
qed

section \<open>The cleaner provides the interface\<close>

text \<open>A device the sums of offsets of the cleaner cannot overflow on.\<close>

definition small_dev :: "fill_deleter \<Rightarrow> dev_file \<Rightarrow> bool" where
  "small_dev d f \<longleftrightarrow> file_size f + int (FillBlockSize d) < 2 ^ 63"

definition labels_zero :: "fill_deleter \<Rightarrow> dev_file \<Rightarrow> bool" where
  "labels_zero d f \<longleftrightarrow> (\<forall>k < length (content f). label_byte d k \<longrightarrow> content f ! k = 0)"

lemma Delete_other: "q \<noteq> path \<Longrightarrow> snd (Delete d env path devs) q = devs q"
  by (simp add: Delete_def split: option.splits prod.splits)

lemma Delete_dom: "dom (snd (Delete d env path devs)) = dom devs"
  by (auto simp: Delete_def split: option.splits prod.splits if_splits)

lemma Delete_same:
  assumes "devs path = Some f" and "delete_file d (env path) f = (r, f')"
  shows "fst (Delete d env path devs) = r" and "snd (Delete d env path devs) path = Some f'"
  using assms by (simp_all add: Delete_def)

lemma delete_file_small:
  "delete_file d env f = (r, f') \<Longrightarrow> small_dev d f \<Longrightarrow> small_dev d f'"
  using delete_file_effect(1) [of d env f r f'] touched_size
  by (fastforce simp: small_dev_def file_size_def)

lemma delete_file_zero:
  "delete_file d env f = (Inr u, f') \<Longrightarrow> small_dev d f \<Longrightarrow> labels_zero d f'"
  using delete_file_effect(2) [of d env f "Inr u" f']
  by (auto simp: small_dev_def labels_zero_def cleared_def)

lemma delete_file_keeps_zero:
  assumes "delete_file d env f = (r, f')" and "small_dev d f" and "labels_zero d f"
  shows "labels_zero d f'"
proof -
  have t: "touched (label_byte d) (content f) (content f')"
    using delete_file_effect(1) [OF assms(1)] assms(2) by (simp add: small_dev_def)
  show ?thesis
    unfolding labels_zero_def
  proof (intro allI impI)
    fix k assume "k < length (content f')" and "label_byte d k"
    with t assms(3) show "content f' ! k = 0" by (auto simp: touched_def labels_zero_def)
  qed
qed

interpretation fill: Deleter "Delete d env" "labels_zero d" "small_dev d"
proof (standard, goal_cases)
  case (1 q path devs)
  then show ?case by (rule Delete_other)
next
  case (2 path devs)
  show ?case by (rule Delete_dom)
next
  case (3 devs path)
  then show ?case
    by (fastforce simp: Delete_def ran_def dest: delete_file_small split: option.splits prod.splits if_splits)
next
  case (4 devs q f path)
  then have "small_dev d f" by (auto simp: ran_def)
  with 4 show ?case
    by (cases "q = path")
      (auto simp: Delete_def Delete_other split: option.splits prod.splits dest: delete_file_keeps_zero)
next
  case (5 devs path u)
  then show ?case
    by (auto simp: Delete_def ran_def intro: delete_file_zero split: option.splits prod.splits)
qed

section \<open>Properties\<close>

text \<open>
  C1. A successful \<open>Delete\<close> sets to zero exactly the bytes of the device that lie in one of the
  \<open>FillCount\<close> blocks behind a BlueStore label position: every other byte and the size of the
  device stay as they were, and the other devices are not touched. The assumption excludes only devices
  so large that the 64-bit offset of a block would wrap around.
\<close>

theorem Delete_clears:
  assumes "devs path = Some f" and "file_size f + int (FillBlockSize d) < 2 ^ 63"
    and "Delete d env path devs = (Inr (), devs')"
  shows "\<exists>f'. devs' path = Some f' \<and> length (content f') = length (content f)
      \<and> (\<forall>k < length (content f). content f' ! k = (if label_byte d k then 0 else content f ! k))
      \<and> (\<forall>q. q \<noteq> path \<longrightarrow> devs' q = devs q)"
proof -
  obtain r f' where f': "delete_file d (env path) f = (r, f')" by fastforce
  from Delete_same [of devs path f d env, OF assms(1) f'] assms(3) have "r = Inr ()" "devs' path = Some f'" by auto
  moreover have "devs' q = devs q" if "q \<noteq> path" for q
    using Delete_other [OF that, of d env devs] assms(3) by simp
  ultimately show ?thesis
    using delete_file_effect(2) [OF f' assms(2)] by (auto simp: cleared_def)
qed

definition quiet_env :: dev_env where
  "quiet_env = \<lparr>open_err = False, seek_end_err = False, seek_err = (\<lambda>_. False),
     write_err = (\<lambda>_. None), sync_err = False\<rparr>"

definition small_example :: dev_file where
  "small_example = \<lparr>content = [7, 7, 7, 7, 7], offset = 0\<rparr>"

lemma small_example_file:
  "delete_file \<lparr>FillBlockSize = 2, FillCount = Suc 0\<rparr> quiet_env small_example
     = (Inr (), \<lparr>content = [0, 0, 7, 7, 7], offset = 2\<rparr>)"
  by code_simp

lemma small_example_run:
  "Delete \<lparr>FillBlockSize = 2, FillCount = Suc 0\<rparr> (\<lambda>_. quiet_env) ''/dev/sda'' [''/dev/sda'' \<mapsto> small_example]
     = (Inr (), [''/dev/sda'' \<mapsto> \<lparr>content = [0, 0, 7, 7, 7], offset = 2\<rparr>])"
  by (simp add: Delete_def small_example_file)

theorem Delete_clears_witness:
  "\<exists>devs' f'. Delete \<lparr>FillBlockSize = 2, FillCount = Suc 0\<rparr> (\<lambda>_. quiet_env) ''/dev/sda''
       [''/dev/sda'' \<mapsto> small_example] = (Inr (), devs') \<and> devs' ''/dev/sda'' = Some f'
     \<and> content f' ! 1 = (if label_byte \<lparr>FillBlockSize = 2, FillCount = Suc 0\<rparr> 1 then 0 else 7)
     \<and> content f' ! 4 = (if label_byte \<lparr>FillBlockSize = 2, FillCount = Suc 0\<rparr> 4 then 0 else 7)"
proof -
  let ?d = "\<lparr>FillBlockSize = 2, FillCount = Suc 0\<rparr>"
  have "\<exists>f'. [''/dev/sda'' \<mapsto> \<lparr>content = [0, 0, 7, 7, 7], offset = 2\<rparr>] ''/dev/sda'' = Some f'
      \<and> (\<forall>k < 5. content f' ! k = (if label_byte ?d k then 0 else content small_example ! k))"
    using Delete_clears [OF _ _ small_example_run, of small_example]
    by (auto simp: small_example_def file_size_def)
  then show ?thesis using small_example_run by (fastforce simp: small_example_def)
qed

text \<open>
  C2. Whatever call on the device fails, even a write that has stored a part of its bytes, \<open>Delete\<close> never changes a byte outside the label blocks and
  never writes anything but zero, keeps the size, and leaves the other devices alone; and when no
  call fails it succeeds.
\<close>

theorem Delete_confined:
  assumes "devs path = Some f" and "file_size f + int (FillBlockSize d) < 2 ^ 63"
    and "Delete d env path devs = (r, devs')"
  shows "(\<exists>f'. devs' path = Some f' \<and> length (content f') = length (content f)
      \<and> (\<forall>k < length (content f). content f' ! k = content f ! k \<or> label_byte d k \<and> content f' ! k = 0))
      \<and> (\<forall>q. q \<noteq> path \<longrightarrow> devs' q = devs q) \<and> (no_faults (env path) \<longrightarrow> r = Inr ())"
proof -
  obtain r' f' where f': "delete_file d (env path) f = (r', f')" by fastforce
  from Delete_same [of devs path f d env, OF assms(1) f'] assms(3) have r: "r' = r" "devs' path = Some f'" by auto
  moreover have "devs' q = devs q" if "q \<noteq> path" for q
    using Delete_other [OF that, of d env devs] assms(3) by simp
  ultimately show ?thesis
    using delete_file_effect(1,3) [OF f' assms(2)] by (auto simp: touched_def)
qed

theorem Delete_confined_witness:
  "\<exists>devs'. Delete \<lparr>FillBlockSize = 2, FillCount = 9\<rparr> (\<lambda>_. quiet_env\<lparr>write_err := \<lambda>p. if p = 2 then Some 1 else None\<rparr>) ''/dev/sda''
       [''/dev/sda'' \<mapsto> small_example] = (Inl (WriteErr 2), devs')
     \<and> (\<exists>f'. devs' ''/dev/sda'' = Some f' \<and> length (content f') = 5)"
proof -
  let ?d = "\<lparr>FillBlockSize = 2, FillCount = 9\<rparr>" and ?env = "\<lambda>_. quiet_env\<lparr>write_err := \<lambda>p. if p = 2 then Some 1 else None\<rparr>"
  have "delete_file ?d (quiet_env\<lparr>write_err := \<lambda>p. if p = 2 then Some 1 else None\<rparr>) small_example
      = (Inl (WriteErr 2), \<lparr>content = [0, 0, 0, 7, 7], offset = 3\<rparr>)"
    by code_simp
  then have run: "Delete ?d ?env ''/dev/sda'' [''/dev/sda'' \<mapsto> small_example]
      = (Inl (WriteErr 2), [''/dev/sda'' \<mapsto> \<lparr>content = [0, 0, 0, 7, 7], offset = 3\<rparr>])"
    by (simp add: Delete_def)
  show ?thesis
    using run Delete_confined [OF _ _ run, of small_example] by (auto simp: small_example_def file_size_def)
qed

end
