(* ===== verification/Local_PV.thy ===== *)
theory Local_PV
  imports Fill_Deleter
begin

text \<open>
  The controllers of local-pv-provisioner: the device detector
  (\<open>controllers/device_detector.go\<close>, \<open>controllers/local_device.go\<close>) that makes one
  PersistentVolume per local device, and the reconciler and watcher of released volumes
  (\<open>controllers/persistent_volume.go\<close>).

  The Kubernetes client and controller-runtime's \<open>CreateOrUpdate\<close> and \<open>SetControllerReference\<close> are
  not part of the repository: they are the fields of \<open>k8s\<close>, functions on an abstract cluster state.
  The file system calls other than the device accesses of \<open>Fill_Deleter\<close>, and the regular expression
  engine, are the fields of \<open>os_env\<close>.
\<close>

section \<open>Data\<close>

record pvSpec =
  storageClassName :: string
  volumeMode :: string
  fsType :: string
  deviceDir :: string
  deviceNameFilter :: string

record Device =
  Path :: string
  CapacityBytes :: int

datatype pv_mode = Block | Filesystem

record pv =
  pv_name :: string
  pv_uid :: string
  pv_labels :: "string \<rightharpoonup> string"
  pv_annotations :: "string \<rightharpoonup> string"
  pv_access_modes :: "string list"
  pv_capacity :: int
  pv_node_affinity :: "string list"
  pv_reclaim_policy :: string
  pv_local_path :: "string option"
  pv_local_fs_type :: "string option"
  pv_storage_class :: string
  pv_volume_mode :: "pv_mode option"
  pv_phase :: string

record node =
  node_name :: string
  node_annotations :: "string \<rightharpoonup> string"

datatype api_err = NotFound | ApiErr nat | NilPanic

datatype walk_entry = WalkErr | WalkDir | WalkFile

record 're os_env =
  stat_is_dir :: "string \<Rightarrow> bool option"
  walk :: "string \<Rightarrow> (string \<times> walk_entry) list"
  re_compile :: "string \<Rightarrow> 're option"
  re_match :: "'re \<Rightarrow> string \<Rightarrow> bool"

record 'w k8s =
  get_node :: "'w \<Rightarrow> string \<Rightarrow> (api_err, node) result"
  get_configmap :: "'w \<Rightarrow> string \<Rightarrow> string \<Rightarrow> (api_err, string \<rightharpoonup> string) result"
  list_pvs :: "'w \<Rightarrow> string \<Rightarrow> string \<Rightarrow> (api_err, pv list) result"
  get_pv :: "'w \<Rightarrow> string \<Rightarrow> (api_err, pv) result"
  create_or_update ::
    "'w \<Rightarrow> string \<Rightarrow> (pv \<Rightarrow> (api_err, pv) result) \<Rightarrow> (api_err, unit) result \<times> 'w"
  delete_pv :: "'w \<Rightarrow> pv \<Rightarrow> (api_err, unit) result \<times> 'w"
  set_controller_reference :: "node \<Rightarrow> pv \<Rightarrow> (api_err, pv) result"

section \<open>Keys\<close>

definition lppLegacyLabelKey :: string where
  "lppLegacyLabelKey = ''local-pv-provisioner.cybozu.com/node''"

definition lppDomain :: string where
  "lppDomain = ''local-pv-provisioner.cybozu.io/''"

definition lppAnnotNode :: string where
  "lppAnnotNode = lppDomain @ ''node''"

definition lppAnnotPVSpecConfigMap :: string where
  "lppAnnotPVSpecConfigMap = lppDomain @ ''pv-spec-configmap''"

definition lppAnnotStorageClassName :: string where
  "lppAnnotStorageClassName = lppDomain @ ''storageClassName''"

definition lppAnnotVolumeMode :: string where
  "lppAnnotVolumeMode = lppDomain @ ''volumeMode''"

definition lppAnnotFSType :: string where
  "lppAnnotFSType = lppDomain @ ''fsType''"

definition lppAnnotDeviceDir :: string where
  "lppAnnotDeviceDir = lppDomain @ ''deviceDir''"

definition lppAnnotDeviceNameFilter :: string where
  "lppAnnotDeviceNameFilter = lppDomain @ ''deviceNameFilter''"

lemmas lpp_keys = lppLegacyLabelKey_def lppDomain_def lppAnnotNode_def lppAnnotPVSpecConfigMap_def
  lppAnnotStorageClassName_def lppAnnotVolumeMode_def lppAnnotFSType_def lppAnnotDeviceDir_def
  lppAnnotDeviceNameFilter_def

definition supportedFsTypes :: "string list" where
  "supportedFsTypes = [''ext4'', ''xfs'', ''btrfs'']"

definition isFilesystem :: "string \<Rightarrow> bool" where
  "isFilesystem m \<longleftrightarrow> m = ''Filesystem''"

section \<open>The volume specification\<close>

datatype spec_err =
    RequiredValueMissing
  | BadVolumeMode
  | BadFsType
  | DeviceDirNotAbsolute
  | DeviceDirStat
  | DeviceDirNotDirectory
  | BadDeviceNameFilter

definition isAbs :: "string \<Rightarrow> bool" where
  "isAbs p \<longleftrightarrow> has_prefix p ''/''"

definition parsePVSpecConfigMap ::
  "('re, 'm) os_env_scheme \<Rightarrow> (string \<rightharpoonup> string) \<Rightarrow> (spec_err, pvSpec \<times> 're) result" where
  "parsePVSpecConfigMap env data =
     (let sc = data ''storageClassName''; vm = data ''volumeMode''; fs = data ''fsType'';
          dir = data ''deviceDir''; flt = data ''deviceNameFilter'';
          vmv = get_str data ''volumeMode''; fsv = get_str data ''fsType'';
          dirv = get_str data ''deviceDir''; fltv = get_str data ''deviceNameFilter''
      in if sc = None \<or> vm = None \<or> (isFilesystem vmv \<and> fs = None) \<or> dir = None \<or> flt = None
         then Inl RequiredValueMissing
         else if \<not> isFilesystem vmv \<and> vmv \<noteq> ''Block'' then Inl BadVolumeMode
         else if isFilesystem vmv \<and> fsv \<notin> set supportedFsTypes then Inl BadFsType
         else if \<not> isAbs dirv then Inl DeviceDirNotAbsolute
         else (case stat_is_dir env dirv of
                 None \<Rightarrow> Inl DeviceDirStat
               | Some is_dir \<Rightarrow>
                   if \<not> is_dir then Inl DeviceDirNotDirectory
                   else (case re_compile env fltv of
                           None \<Rightarrow> Inl BadDeviceNameFilter
                         | Some re \<Rightarrow>
                             Inr (\<lparr>storageClassName = get_str data ''storageClassName'',
                                   volumeMode = vmv, fsType = fsv, deviceDir = dirv,
                                   deviceNameFilter = fltv\<rparr>, re))))"

definition conflicts :: "pvSpec \<Rightarrow> pv \<Rightarrow> bool" where
  "conflicts spec p =
     (let annot = pv_annotations p; vm = get_str annot lppAnnotVolumeMode
      in annot lppAnnotStorageClassName = None \<or> annot lppAnnotVolumeMode = None
         \<or> (isFilesystem vm \<and> annot lppAnnotFSType = None)
         \<or> annot lppAnnotDeviceDir = None \<or> annot lppAnnotDeviceNameFilter = None
         \<or> get_str annot lppAnnotStorageClassName \<noteq> storageClassName spec
         \<or> vm \<noteq> volumeMode spec
         \<or> (isFilesystem vm \<and> get_str annot lppAnnotFSType \<noteq> fsType spec)
         \<or> get_str annot lppAnnotDeviceDir \<noteq> deviceDir spec
         \<or> get_str annot lppAnnotDeviceNameFilter \<noteq> deviceNameFilter spec)"

fun hasAnnotsSetByAnotherConfiguration :: "pvSpec \<Rightarrow> pv list \<Rightarrow> bool" where
  "hasAnnotsSetByAnotherConfiguration spec [] = False"
| "hasAnnotsSetByAnotherConfiguration spec (p # ps) =
     (if conflicts spec p then True else hasAnnotsSetByAnotherConfiguration spec ps)"

section \<open>Names\<close>

text \<open>\<open>filepath.Base\<close>.\<close>

definition base :: "string \<Rightarrow> string" where
  "base p =
     (if p = [] then ''.''
      else let q = rev (dropWhile (\<lambda>c. c = CHR ''/'') (rev p))
           in if q = [] then ''/'' else rev (takeWhile (\<lambda>c. c \<noteq> CHR ''/'') (rev q)))"

text \<open>The characters the pattern \<open>vpNameRegexp\<close> does not match, and the replacement of every
  maximal run of the others by a hyphen.\<close>

definition name_char :: "char \<Rightarrow> bool" where
  "name_char c \<longleftrightarrow> c = CHR ''.'' \<or> is_digit c \<or> is_upper c \<or> is_lower c"

function squash :: "string \<Rightarrow> string" where
  "squash [] = []"
| "squash (c # cs) =
     (if name_char c then c # squash cs
      else CHR ''-'' # squash (dropWhile (\<lambda>x. \<not> name_char x) cs))"
  by pat_completeness auto
termination
  by (relation "measure length") (auto simp: less_Suc_eq_le length_dropWhile_le)

record detector =
  nodeName :: string
  defaultPVSpecConfigMap :: string
  workingNamespace :: string

definition pvName :: "('d) detector_scheme \<Rightarrow> string \<Rightarrow> string" where
  "pvName dd devPath = to_lower (squash (join ''-'' [''local'', nodeName dd, base devPath]))"

section \<open>Listing the devices\<close>

definition getCapacityBytes :: "(string \<Rightarrow> dev_env) \<Rightarrow> devices \<Rightarrow> string \<Rightarrow> (del_err, int) result" where
  "getCapacityBytes denv devs path =
     (case devs path of
        None \<Rightarrow> Inl OpenErr
      | Some f \<Rightarrow> if open_err (denv path) then Inl OpenErr
                  else fst (file_seek_end (denv path) f))"

fun walk_devices ::
  "(string \<Rightarrow> bool) \<Rightarrow> (string \<Rightarrow> (del_err, int) result) \<Rightarrow> (string \<times> walk_entry) list
     \<Rightarrow> Device list \<Rightarrow> Device list \<Rightarrow> (Device list \<times> Device list) option" where
  "walk_devices matches capacity [] devs errDevs = Some (devs, errDevs)"
| "walk_devices matches capacity ((path, WalkErr) # es) devs errDevs = None"
| "walk_devices matches capacity ((path, WalkDir) # es) devs errDevs =
     walk_devices matches capacity es devs errDevs"
| "walk_devices matches capacity ((path, WalkFile) # es) devs errDevs =
     (if matches (base path) then
        (case capacity path of
           Inl _ \<Rightarrow> walk_devices matches capacity es devs (errDevs @ [\<lparr>Path = path, CapacityBytes = 0\<rparr>])
         | Inr n \<Rightarrow> walk_devices matches capacity es (devs @ [\<lparr>Path = path, CapacityBytes = n\<rparr>]) errDevs)
      else walk_devices matches capacity es devs errDevs)"

definition listLocalDevices ::
  "('re, 'm) os_env_scheme \<Rightarrow> (string \<Rightarrow> dev_env) \<Rightarrow> devices \<Rightarrow> string \<Rightarrow> 're
     \<Rightarrow> (Device list \<times> Device list) option" where
  "listLocalDevices env denv devs dir flt =
     walk_devices (re_match env flt) (getCapacityBytes denv devs) (walk env dir) [] []"

section \<open>Making a volume\<close>

definition mutate_pv ::
  "('w, 'm) k8s_scheme \<Rightarrow> 'd detector_scheme \<Rightarrow> Device \<Rightarrow> node \<Rightarrow> pvSpec \<Rightarrow> pv \<Rightarrow> (api_err, pv) result" where
  "mutate_pv k dd dev n spec p =
     (let labels = (pv_labels p)(lppLegacyLabelKey \<mapsto> node_name n, lppAnnotNode \<mapsto> node_name n);
          a1 = (pv_annotations p)(lppAnnotStorageClassName \<mapsto> storageClassName spec,
                                  lppAnnotVolumeMode \<mapsto> volumeMode spec);
          a2 = (if isFilesystem (volumeMode spec) then a1(lppAnnotFSType \<mapsto> fsType spec) else a1);
          a3 = a2(lppAnnotDeviceDir \<mapsto> deviceDir spec, lppAnnotDeviceNameFilter \<mapsto> deviceNameFilter spec)
      in set_controller_reference k n
           (p\<lparr>pv_labels := labels, pv_annotations := a3,
              pv_access_modes := [''ReadWriteOnce''],
              pv_capacity := CapacityBytes dev,
              pv_node_affinity := [nodeName dd],
              pv_reclaim_policy := ''Retain'',
              pv_local_path := Some (Path dev),
              pv_local_fs_type := (if isFilesystem (volumeMode spec) then Some (fsType spec) else None),
              pv_storage_class := storageClassName spec,
              pv_volume_mode := Some (if isFilesystem (volumeMode spec) then Filesystem else Block)\<rparr>))"

definition createPV ::
  "('w, 'm) k8s_scheme \<Rightarrow> 'd detector_scheme \<Rightarrow> Device \<Rightarrow> node \<Rightarrow> pvSpec \<Rightarrow> 'w
     \<Rightarrow> (api_err, unit) result \<times> 'w" where
  "createPV k dd dev n spec w =
     create_or_update k w (pvName dd (Path dev)) (mutate_pv k dd dev n spec)"

section \<open>One pass of the detector\<close>

record 'w lpp_state =
  cluster :: 'w
  devs :: devices
  availableDevices :: nat
  errorDevices :: nat

type_synonym deleter = "string \<Rightarrow> devices \<Rightarrow> (del_err, unit) result \<times> devices"

text \<open>The loop body for one device: the cleaned-up state and the two lists of devices.\<close>

definition process_device ::
  "('w, 'm) k8s_scheme \<Rightarrow> deleter \<Rightarrow> 'd detector_scheme \<Rightarrow> node \<Rightarrow> pvSpec \<Rightarrow> Device
     \<Rightarrow> 'w \<times> devices \<times> Device list \<times> Device list \<Rightarrow> 'w \<times> devices \<times> Device list \<times> Device list" where
  "process_device k del dd n spec dev = (\<lambda>(w, ds, avail, errs).
     let create = (\<lambda>ds'. (case createPV k dd dev n spec w of
           (Inl _, w') \<Rightarrow> (w', ds', avail @ [dev], errs @ [dev])
         | (Inr _, w') \<Rightarrow> (w', ds', avail @ [dev], errs)))
     in if get_pv k w (pvName dd (Path dev)) = Inl NotFound
        then (case del (Path dev) ds of
                (Inl _, ds') \<Rightarrow> (w, ds', avail, errs @ [dev])
              | (Inr _, ds') \<Rightarrow> create ds')
        else create ds)"

fun process_devices ::
  "('w, 'm) k8s_scheme \<Rightarrow> deleter \<Rightarrow> 'd detector_scheme \<Rightarrow> node \<Rightarrow> pvSpec \<Rightarrow> Device list
     \<Rightarrow> 'w \<times> devices \<times> Device list \<times> Device list \<Rightarrow> 'w \<times> devices \<times> Device list \<times> Device list" where
  "process_devices k del dd n spec [] st = st"
| "process_devices k del dd n spec (d # ds) st =
     process_devices k del dd n spec ds (process_device k del dd n spec d st)"

definition dd_do ::
  "('re, 'm) os_env_scheme \<Rightarrow> ('w, 'n) k8s_scheme \<Rightarrow> deleter \<Rightarrow> (string \<Rightarrow> dev_env) \<Rightarrow> 'd detector_scheme
     \<Rightarrow> 'w lpp_state \<Rightarrow> 'w lpp_state" where
  "dd_do env k del denv dd st =
     (case get_node k (cluster st) (nodeName dd) of
        Inl _ \<Rightarrow> st
      | Inr n \<Rightarrow>
          (let annot = node_annotations n lppAnnotPVSpecConfigMap
           in if annot = None \<and> defaultPVSpecConfigMap dd = '''' then st
              else let cm = (case annot of None \<Rightarrow> defaultPVSpecConfigMap dd | Some c \<Rightarrow> c)
              in (case get_configmap k (cluster st) (workingNamespace dd) cm of
                    Inl _ \<Rightarrow> st
                  | Inr data \<Rightarrow>
                      (case parsePVSpecConfigMap env data of
                         Inl _ \<Rightarrow> st
                       | Inr (spec, flt) \<Rightarrow>
                           (case list_pvs k (cluster st) lppLegacyLabelKey (node_name n) of
                              Inl _ \<Rightarrow> st
                            | Inr pvs \<Rightarrow>
                                if hasAnnotsSetByAnotherConfiguration spec pvs then st
                                else (case listLocalDevices env denv (devs st) (deviceDir spec) flt of
                                        None \<Rightarrow> st
                                      | Some (found, errs) \<Rightarrow>
                                          (case process_devices k del dd n spec found
                                                  (cluster st, devs st, [], errs) of
                                             (w, ds, avail, errs') \<Rightarrow>
                                               st\<lparr>cluster := w, devs := ds,
                                                  availableDevices := length avail,
                                                  errorDevices := length errs'\<rparr>)))))))"

section \<open>Released volumes\<close>

record reconciler =
  NodeName :: string

text \<open>\<open>client.IgnoreNotFound\<close>.\<close>

definition ignoreNotFound :: "api_err \<Rightarrow> (api_err, unit) result" where
  "ignoreNotFound e = (if e = NotFound then Inr () else Inl e)"

definition Reconcile ::
  "('w, 'm) k8s_scheme \<Rightarrow> deleter \<Rightarrow> reconciler \<Rightarrow> string \<Rightarrow> 'w \<times> devices
     \<Rightarrow> (api_err, unit) result \<times> 'w \<times> devices" where
  "Reconcile k del r req = (\<lambda>(w, ds).
     (case get_pv k w req of
        Inl e \<Rightarrow> (ignoreNotFound e, w, ds)
      | Inr p \<Rightarrow>
          if pv_labels p lppLegacyLabelKey \<noteq> Some (NodeName r) then (Inr (), w, ds)
          else if pv_phase p \<noteq> ''Released'' then (Inr (), w, ds)
          else (case pv_local_path p of
                  None \<Rightarrow> (Inl NilPanic, w, ds)
                | Some path \<Rightarrow>
                    (case del path ds of
                       (_, ds') \<Rightarrow>
                         (case delete_pv k w p of
                            (Inl e, w') \<Rightarrow> (Inl e, w', ds')
                          | (Inr _, w') \<Rightarrow> (Inr (), w', ds'))))))"

text \<open>\<open>persistentVolumeWatcher.fireEvent\<close>: the volumes it sends to the reconciler's channel.\<close>

definition fireEvent :: "('w, 'm) k8s_scheme \<Rightarrow> string \<Rightarrow> 'w \<Rightarrow> (api_err, pv list) result" where
  "fireEvent k nodename w =
     (case list_pvs k w lppLegacyLabelKey nodename of
        Inl e \<Rightarrow> Inl e
      | Inr pvs \<Rightarrow> Inr (filter (\<lambda>p. pv_phase p = ''Released'') pvs))"

section \<open>Documented behaviour of the client\<close>

text \<open>Creating or updating a volume never makes another read of a volume answer NotFound, and
  concerns only the volume of the given name.\<close>

definition create_keeps :: "('w, 'm) k8s_scheme \<Rightarrow> bool" where
  "create_keeps k \<longleftrightarrow> (\<forall>w n f m. get_pv k w m \<noteq> Inl NotFound \<longrightarrow>
     get_pv k (snd (create_or_update k w n f)) m \<noteq> Inl NotFound)"

definition create_frame :: "('w, 'm) k8s_scheme \<Rightarrow> bool" where
  "create_frame k \<longleftrightarrow> (\<forall>w n f m. m \<noteq> n \<longrightarrow>
     get_pv k (snd (create_or_update k w n f)) m = get_pv k w m)"

text \<open>\<open>SetControllerReference\<close> writes owner references, not annotations.\<close>

definition owner_keeps_annotations :: "('w, 'm) k8s_scheme \<Rightarrow> bool" where
  "owner_keeps_annotations k \<longleftrightarrow> (\<forall>n p p'. set_controller_reference k n p = Inr p' \<longrightarrow>
     pv_annotations p' = pv_annotations p)"

section \<open>Which devices a pass cleans\<close>

lemma process_device_cases:
  assumes "process_device k del dd n spec dev (w, ds, avail, errs) = (w', ds', avail', errs')"
  obtains
    (unclean) e where "get_pv k w (pvName dd (Path dev)) = Inl NotFound"
      "fst (del (Path dev) ds) = Inl e" "ds' = snd (del (Path dev) ds)" "w' = w"
      "avail' = avail" "errs' = errs @ [dev]"
  | (fresh) u where "get_pv k w (pvName dd (Path dev)) = Inl NotFound"
      "fst (del (Path dev) ds) = Inr u" "ds' = snd (del (Path dev) ds)"
      "w' = snd (createPV k dd dev n spec w)" "avail' = avail @ [dev]"
      "errs' = (case fst (createPV k dd dev n spec w) of Inl _ \<Rightarrow> errs @ [dev] | Inr _ \<Rightarrow> errs)"
  | (known) "get_pv k w (pvName dd (Path dev)) \<noteq> Inl NotFound" "ds' = ds"
      "w' = snd (createPV k dd dev n spec w)" "avail' = avail @ [dev]"
      "errs' = (case fst (createPV k dd dev n spec w) of Inl _ \<Rightarrow> errs @ [dev] | Inr _ \<Rightarrow> errs)"
proof -
  obtain rd dd' where d: "del (Path dev) ds = (rd, dd')" by fastforce
  obtain rc wc where c: "createPV k dd dev n spec w = (rc, wc)" by fastforce
  show thesis
  proof (cases "get_pv k w (pvName dd (Path dev)) = Inl NotFound")
    case False
    with assms c show thesis by (cases rc) (auto simp: process_device_def intro!: known)
  next
    case True
    show thesis
    proof (cases rd)
      case (Inl e)
      with True assms d show thesis by (auto simp: process_device_def intro!: unclean)
    next
      case (Inr u)
      with True assms d c show thesis by (cases rc) (auto simp: process_device_def intro!: fresh)
    qed
  qed
qed

lemma process_devices_avail:
  "process_devices k del dd n spec found (w, ds, avail, errs) = (w', ds', avail', errs')
     \<Longrightarrow> set avail' \<subseteq> set avail \<union> set found"
proof (induction found arbitrary: w ds avail errs)
  case Nil
  then show ?case by simp
next
  case (Cons d found)
  obtain w1 ds1 a1 e1 where s: "process_device k del dd n spec d (w, ds, avail, errs) = (w1, ds1, a1, e1)"
    using prod_cases4 by blast
  then have "set a1 \<subseteq> insert d (set avail)" by (cases rule: process_device_cases) auto
  with Cons s show ?case by fastforce
qed

context Deleter
begin

lemma process_device_keeps:
  assumes "process_device k del dd n spec dev (w, ds, avail, errs) = (w', ds', avail', errs')"
    and "create_keeps k" and "get_pv k w (pvName dd q) \<noteq> Inl NotFound"
  shows "ds' q = ds q \<and> get_pv k w' (pvName dd q) \<noteq> Inl NotFound"
  using assms(1)
proof (cases rule: process_device_cases)
  case unclean
  then have "q \<noteq> Path dev" using assms(3) by metis
  then show ?thesis using unclean frame assms(3) by simp
next
  case fresh
  then have "q \<noteq> Path dev" using assms(3) by metis
  then show ?thesis using fresh frame assms(2,3) by (simp add: createPV_def create_keeps_def)
next
  case known
  then show ?thesis using assms(2,3) by (simp add: createPV_def create_keeps_def)
qed

lemma process_devices_keeps:
  assumes "process_devices k del dd n spec found (w, ds, avail, errs) = (w', ds', avail', errs')"
    and "create_keeps k" and "get_pv k w (pvName dd q) \<noteq> Inl NotFound"
  shows "ds' q = ds q"
  using assms
proof (induction found arbitrary: w ds avail errs)
  case Nil
  then show ?case by simp
next
  case (Cons dev found)
  obtain w1 ds1 a1 e1 where s: "process_device k del dd n spec dev (w, ds, avail, errs) = (w1, ds1, a1, e1)"
    using prod_cases4 by blast
  with process_device_keeps [OF s Cons.prems(2,3)] Cons show ?case by simp
qed

lemma process_device_ok:
  assumes "process_device k del dd n spec dev (w, ds, avail, errs) = (w', ds', avail', errs')"
    and "\<forall>f \<in> ran ds. ok_dev f"
  shows "\<forall>f \<in> ran ds'. ok_dev f"
    and "ds q = Some f \<Longrightarrow> clean f \<Longrightarrow> \<exists>f'. ds' q = Some f' \<and> clean f'"
  using assms(1) by (cases rule: process_device_cases; use assms(2) keeps_ok keeps_clean in simp)+

lemma process_devices_clean:
  assumes "process_devices k del dd n spec found (w, ds, avail, errs) = (w', ds', avail', errs')"
    and "\<forall>f \<in> ran ds. ok_dev f" and "ds q = Some f" and "clean f"
  shows "\<exists>f'. ds' q = Some f' \<and> clean f'"
  using assms
proof (induction found arbitrary: w ds avail errs f)
  case Nil
  then show ?case by simp
next
  case (Cons dev found)
  obtain w1 ds1 a1 e1 where s: "process_device k del dd n spec dev (w, ds, avail, errs) = (w1, ds1, a1, e1)"
    using prod_cases4 by blast
  obtain f' where "ds1 q = Some f'" "clean f'"
    using process_device_ok(2) [OF s Cons.prems(2,3,4)] by blast
  then show ?case
    using Cons.IH [of w1 ds1 a1 e1 f'] process_device_ok(1) [OF s Cons.prems(2)] s Cons.prems(1) by simp
qed

text \<open>A device that had no volume before the pass and is reported available is clean after it.\<close>

lemma process_devices_fresh_clean:
  assumes "process_devices k del dd n spec found (w, ds, avail, errs) = (w', ds', avail', errs')"
    and "create_frame k" and "\<forall>f \<in> ran ds. ok_dev f"
    and "distinct (map (\<lambda>d. pvName dd (Path d)) found)"
    and "dev \<in> set found" and "dev \<in> set avail'" and "dev \<notin> set avail"
    and "get_pv k w (pvName dd (Path dev)) = Inl NotFound"
  shows "\<exists>f. ds' (Path dev) = Some f \<and> clean f"
  using assms
proof (induction found arbitrary: w ds avail errs)
  case Nil
  then show ?case by simp
next
  case (Cons d found)
  obtain w1 ds1 a1 e1 where s: "process_device k del dd n spec d (w, ds, avail, errs) = (w1, ds1, a1, e1)"
    using prod_cases4 by blast
  then have run: "process_devices k del dd n spec found (w1, ds1, a1, e1) = (w', ds', avail', errs')"
    using Cons.prems(1) by simp
  have ok1: "\<forall>f \<in> ran ds1. ok_dev f" using process_device_ok(1) [OF s] Cons.prems(3) by blast
  show ?case
  proof (cases "dev = d")
    case False
    then have "dev \<in> set found" using Cons.prems(5) by simp
    then have "pvName dd (Path dev) \<noteq> pvName dd (Path d)"
      using Cons.prems(4) by (metis (mono_tags, lifting) distinct.simps(2) image_eqI list.set_map list.simps(9))
    with s have "get_pv k w1 (pvName dd (Path dev)) = Inl NotFound \<and> dev \<notin> set a1"
      by (cases rule: process_device_cases)
        (use Cons.prems(2,7,8) False in \<open>simp_all add: createPV_def create_frame_def\<close>)
    then show ?thesis
      using Cons.IH [OF run Cons.prems(2) ok1] Cons.prems \<open>dev \<in> set found\<close> by auto
  next
    case True
    from s show ?thesis
    proof (cases rule: process_device_cases)
      case unclean
      have "dev \<notin> set found" using Cons.prems(4) True by auto
      moreover have "set avail' \<subseteq> set a1 \<union> set found"
        using process_devices_avail [OF run] .
      ultimately show ?thesis using unclean Cons.prems(6,7) by auto
    next
      case (fresh u)
      then obtain f where "ds1 (Path d) = Some f" "clean f" using cleans Cons.prems(3) by metis
      then show ?thesis using process_devices_clean [OF run ok1] True by metis
    next
      case known
      then show ?thesis using Cons.prems(8) True by simp
    qed
  qed
qed

end

section \<open>Facts about names and annotations\<close>

lemma squash_chars: "c \<in> set (squash s) \<Longrightarrow> name_char c \<or> c = CHR ''-''"
  by (induction s rule: squash.induct) (auto split: if_splits)

lemma lower_name_char:
  "name_char c \<or> c = CHR ''-'' \<Longrightarrow>
     is_lower (lower_char c) \<or> is_digit (lower_char c) \<or> lower_char c \<in> {CHR ''.'', CHR ''-''}"
  by (auto simp: name_char_def lower_char_def is_upper_def is_lower_def is_digit_def)

lemma hasAnnots_iff: "hasAnnotsSetByAnotherConfiguration spec ps \<longleftrightarrow> (\<exists>p \<in> set ps. conflicts spec p)"
  by (induction ps) auto

definition differs :: "pvSpec \<Rightarrow> pvSpec \<Rightarrow> bool" where
  "differs a b \<longleftrightarrow> storageClassName a \<noteq> storageClassName b \<or> volumeMode a \<noteq> volumeMode b
     \<or> (isFilesystem (volumeMode b) \<and> fsType a \<noteq> fsType b)
     \<or> deviceDir a \<noteq> deviceDir b \<or> deviceNameFilter a \<noteq> deviceNameFilter b"

lemma mutate_annotations:
  assumes "owner_keeps_annotations k" and "mutate_pv k dd dev n spec p = Inr p'"
  shows "pv_annotations p' lppAnnotStorageClassName = Some (storageClassName spec)"
    and "pv_annotations p' lppAnnotVolumeMode = Some (volumeMode spec)"
    and "isFilesystem (volumeMode spec) \<Longrightarrow> pv_annotations p' lppAnnotFSType = Some (fsType spec)"
    and "pv_annotations p' lppAnnotDeviceDir = Some (deviceDir spec)"
    and "pv_annotations p' lppAnnotDeviceNameFilter = Some (deviceNameFilter spec)"
  using assms by (auto simp: mutate_pv_def owner_keeps_annotations_def Let_def lpp_keys split: if_splits)

lemma conflicts_mutate:
  assumes "owner_keeps_annotations k" and "mutate_pv k dd dev n spec p = Inr p'"
  shows "conflicts spec' p' \<longleftrightarrow> differs spec' spec"
  using mutate_annotations [OF assms]
  by (auto simp: conflicts_def differs_def get_str_def Let_def)

section \<open>A reference client\<close>

text \<open>A client over a list of volumes with the documented behaviour, for concrete runs.\<close>

definition blank_pv :: "string \<Rightarrow> pv" where
  "blank_pv name = \<lparr>pv_name = name, pv_uid = [], pv_labels = Map.empty, pv_annotations = Map.empty,
     pv_access_modes = [], pv_capacity = 0, pv_node_affinity = [], pv_reclaim_policy = [],
     pv_local_path = None, pv_local_fs_type = None, pv_storage_class = [], pv_volume_mode = None,
     pv_phase = []\<rparr>"

definition find_pv :: "pv list \<Rightarrow> string \<Rightarrow> pv option" where
  "find_pv w name = find (\<lambda>p. pv_name p = name) w"

definition list_client :: "node \<Rightarrow> (string \<rightharpoonup> string) \<Rightarrow> pv list k8s" where
  "list_client n cm =
     \<lparr>get_node = (\<lambda>w name. if name = node_name n then Inr n else Inl NotFound),
      get_configmap = (\<lambda>w ns name. Inr cm),
      list_pvs = (\<lambda>w key v. Inr (filter (\<lambda>p. pv_labels p key = Some v) w)),
      get_pv = (\<lambda>w name. case find_pv w name of None \<Rightarrow> Inl NotFound | Some p \<Rightarrow> Inr p),
      create_or_update = (\<lambda>w name f.
        case f (case find_pv w name of None \<Rightarrow> blank_pv name | Some p \<Rightarrow> p) of
          Inl e \<Rightarrow> (Inl e, w)
        | Inr p \<Rightarrow> (Inr (), p\<lparr>pv_name := name\<rparr> # filter (\<lambda>q. pv_name q \<noteq> name) w)),
      delete_pv = (\<lambda>w p. (Inr (), filter (\<lambda>q. pv_name q \<noteq> pv_name p) w)),
      set_controller_reference = (\<lambda>n p. Inr p)\<rparr>"

lemma find_pv_put:
  "find_pv (p\<lparr>pv_name := name\<rparr> # filter (\<lambda>q. pv_name q \<noteq> name) w) m
     = (if m = name then Some (p\<lparr>pv_name := name\<rparr>) else find_pv w m)"
  by (induction w) (auto simp: find_pv_def)

lemma list_client_frame: "create_frame (list_client n cm)"
  by (auto simp: create_frame_def list_client_def find_pv_put split: sum.splits)

lemma list_client_keeps: "create_keeps (list_client n cm)"
  by (auto simp: create_keeps_def list_client_def find_pv_put split: sum.splits option.splits)

lemma list_client_owner: "owner_keeps_annotations (list_client n cm)"
  by (simp add: owner_keeps_annotations_def list_client_def)

section \<open>Properties\<close>

text \<open>
  A pass of the device detector never writes to a device whose PersistentVolume exists (or cannot be
  ruled out: the read of the volume failed with an error other than NotFound), however the other devices
  are cleaned up and whatever volumes the pass creates.
\<close>

theorem dd_do_keeps_claimed:
  assumes "create_keeps k" and "get_pv k (cluster st) (pvName dd path) \<noteq> Inl NotFound"
  shows "devs (dd_do env k (Delete d denv) denv dd st) path = devs st path"
  using fill.process_devices_keeps [OF _ assms]
  by (auto simp: dd_do_def Let_def split: sum.splits option.splits prod.splits)

definition node1 :: node where
  "node1 = \<lparr>node_name = ''node1'', node_annotations = Map.empty\<rparr>"

definition detector1 :: detector where
  "detector1 = \<lparr>nodeName = ''node1'', defaultPVSpecConfigMap = ''cm'', workingNamespace = ''default''\<rparr>"

definition block_spec :: "string \<rightharpoonup> string" where
  "block_spec = [''storageClassName'' \<mapsto> ''sc'', ''volumeMode'' \<mapsto> ''Block'', ''deviceDir'' \<mapsto> ''/dev'',
     ''deviceNameFilter'' \<mapsto> ''.*'']"

definition os1 :: "unit os_env" where
  "os1 = \<lparr>stat_is_dir = (\<lambda>_. Some True), walk = (\<lambda>_. [(''/dev/sda'', WalkFile)]),
     re_compile = (\<lambda>_. Some ()), re_match = (\<lambda>_ _. True)\<rparr>"

theorem dd_do_keeps_claimed_witness:
  "devs (dd_do os1 (list_client node1 block_spec) (Delete \<lparr>FillBlockSize = 2, FillCount = 3\<rparr> (\<lambda>_. quiet_env))
      (\<lambda>_. quiet_env) detector1
      \<lparr>cluster = [blank_pv ''local-node1-sda''], devs = [''/dev/sda'' \<mapsto> small_example],
       availableDevices = 0, errorDevices = 0\<rparr>) ''/dev/sda'' = Some small_example"
proof -
  have "pvName detector1 ''/dev/sda'' = ''local-node1-sda''" by code_simp
  then show ?thesis
    by (subst dd_do_keeps_claimed [OF list_client_keeps])
      (simp_all add: list_client_def find_pv_def blank_pv_def)
qed

text \<open>
  A device that had no PersistentVolume when the pass started and that the pass counts as available has
  been cleaned: all its label blocks are zero when the pass ends. The volume names of the found devices must
  differ: two devices with one name share a volume, and the second one is taken as claimed.
\<close>

theorem dd_fresh_device_clean:
  assumes "create_frame k" and "distinct (map (\<lambda>d. pvName dd (Path d)) found)"
    and "\<forall>f \<in> ran ds. small_dev d f"
    and "process_devices k (Delete d denv) dd n spec found (w, ds, [], errs) = (w', ds', avail, errs')"
    and "dev \<in> set found" and "dev \<in> set avail"
    and "get_pv k w (pvName dd (Path dev)) = Inl NotFound"
  shows "\<exists>f. ds' (Path dev) = Some f \<and> labels_zero d f"
  using fill.process_devices_fresh_clean [OF assms(4,1,3,2,5,6) _ assms(7)] by simp

definition sda :: Device where
  "sda = \<lparr>Path = ''/dev/sda'', CapacityBytes = 5\<rparr>"

definition spec1 :: pvSpec where
  "spec1 = \<lparr>storageClassName = ''sc'', volumeMode = ''Block'', fsType = [], deviceDir = ''/dev'',
     deviceNameFilter = ''.*''\<rparr>"

lemma sda_name: "pvName detector1 (Path sda) = ''local-node1-sda''"
  by code_simp

theorem dd_fresh_device_clean_witness:
  "\<exists>w' ds' avail errs'. process_devices (list_client node1 block_spec)
       (Delete \<lparr>FillBlockSize = 2, FillCount = Suc 0\<rparr> (\<lambda>_. quiet_env)) detector1 node1 spec1 [sda]
       ([], [''/dev/sda'' \<mapsto> small_example], [], []) = (w', ds', avail, errs')
     \<and> (\<exists>f. ds' ''/dev/sda'' = Some f \<and> labels_zero \<lparr>FillBlockSize = 2, FillCount = Suc 0\<rparr> f)"
proof -
  let ?d = "\<lparr>FillBlockSize = 2, FillCount = Suc 0\<rparr>"
  let ?run = "process_devices (list_client node1 block_spec) (Delete ?d (\<lambda>_. quiet_env)) detector1 node1 spec1
      [sda] ([], [''/dev/sda'' \<mapsto> small_example], [], [])"
  obtain w' ds' avail errs' where run: "?run = (w', ds', avail, errs')" using prod_cases4 by blast
  have nf: "get_pv (list_client node1 block_spec) [] (pvName detector1 (Path sda)) = Inl NotFound"
    by (simp add: list_client_def find_pv_def)
  have "avail = [sda]"
    using run nf small_example_run
    by (auto simp: process_device_def sda_def split: sum.splits prod.splits)
  then show ?thesis
    using run dd_fresh_device_clean [OF list_client_frame _ _ run _ _ nf]
    by (auto simp: sda_def small_dev_def small_example_def file_size_def)
qed

text \<open>
  What happens to one device of a pass, on every branch: a device that cannot be cleaned is an error
  device and no volume is made for it; otherwise its volume is created or updated and the device is counted
  as available, and when that fails the same device is counted both as available and as an error device.
\<close>

theorem process_device_branches:
  "process_device k del dd n spec dev (w, ds, avail, errs) =
     (if get_pv k w (pvName dd (Path dev)) = Inl NotFound \<and> (\<exists>e. fst (del (Path dev) ds) = Inl e)
      then (w, snd (del (Path dev) ds), avail, errs @ [dev])
      else (snd (createPV k dd dev n spec w),
            (if get_pv k w (pvName dd (Path dev)) = Inl NotFound then snd (del (Path dev) ds) else ds),
            avail @ [dev],
            (if \<exists>e. fst (createPV k dd dev n spec w) = Inl e then errs @ [dev] else errs)))"
  by (auto simp: process_device_def split: sum.splits prod.splits)

text \<open>
  C7. The check for volumes made with other settings is exact for volumes the provisioner made itself:
  among volumes written for one specification it reports a conflict with a second specification if and only
  if the two differ in a setting that the volume records. In particular a repeated pass with an
  unchanged ConfigMap is never refused.
\<close>

theorem conflict_check_exact:
  assumes "owner_keeps_annotations k" and "ps \<noteq> []"
    and "\<forall>p \<in> set ps. \<exists>dev n p0. mutate_pv k dd dev n spec p0 = Inr p"
  shows "hasAnnotsSetByAnotherConfiguration spec' ps \<longleftrightarrow> differs spec' spec"
proof -
  have "conflicts spec' p \<longleftrightarrow> differs spec' spec" if "p \<in> set ps" for p
    using assms(3) that conflicts_mutate [OF assms(1)] by blast
  then show ?thesis using assms(2) by (cases ps) (auto simp: hasAnnots_iff)
qed

theorem conflict_check_exact_witness:
  "\<exists>p. mutate_pv (list_client node1 block_spec) detector1 sda node1 spec1 (blank_pv []) = Inr p
     \<and> (hasAnnotsSetByAnotherConfiguration (spec1\<lparr>deviceDir := ''/mnt''\<rparr>) [p] \<longleftrightarrow> True)
     \<and> (hasAnnotsSetByAnotherConfiguration spec1 [p] \<longleftrightarrow> False)"
proof -
  obtain p where p: "mutate_pv (list_client node1 block_spec) detector1 sda node1 spec1 (blank_pv []) = Inr p"
    by (auto simp: mutate_pv_def list_client_def Let_def)
  then have "\<forall>q \<in> set [p]. \<exists>dev n p0. mutate_pv (list_client node1 block_spec) detector1 dev n spec1 p0 = Inr q"
    by auto
  from conflict_check_exact [OF list_client_owner _ this] p show ?thesis
    by (auto simp: differs_def spec1_def)
qed

text \<open>
  C8. The name of a volume starts with \<open>local-\<close> and consists of lower-case letters, digits, dots and hyphens,
  whatever the node and the device are called.
\<close>

theorem pvName_wellformed:
  "has_prefix (pvName dd path) ''local-''
   \<and> (\<forall>c \<in> set (pvName dd path). is_lower c \<or> is_digit c \<or> c = CHR ''.'' \<or> c = CHR ''-'')"
proof -
  have "squash (''local'' @ CHR ''-'' # s) = ''local-'' @ squash (dropWhile (\<lambda>x. \<not> name_char x) s)" for s
    by (simp add: name_char_def is_lower_def is_upper_def is_digit_def)
  moreover have "map lower_char ''local-'' = ''local-''"
    by (simp add: lower_char_def is_upper_def)
  ultimately have "has_prefix (pvName dd path) ''local-''"
    by (simp add: pvName_def to_lower_def has_prefix_def)
  moreover have "is_lower c \<or> is_digit c \<or> c = CHR ''.'' \<or> c = CHR ''-''" if "c \<in> set (pvName dd path)" for c
  proof -
    from that obtain b where b: "b \<in> set (squash (join ''-'' [''local'', nodeName dd, base path]))"
      and c: "c = lower_char b" by (auto simp only: pvName_def to_lower_def set_map)
    from lower_name_char [OF squash_chars [OF b]] show ?thesis by (simp add: c)
  qed
  ultimately show ?thesis by blast
qed

theorem pvName_wellformed_witness:
  "pvName detector1 ''/dev/disk/by-path/pci-0000:3B:00.0-ata_1'' = ''local-node1-pci-0000-3b-00.0-ata-1''
   \<and> has_prefix (pvName detector1 ''/dev/disk/by-path/pci-0000:3B:00.0-ata_1'') ''local-''"
proof -
  have eq: "pvName detector1 ''/dev/disk/by-path/pci-0000:3B:00.0-ata_1'' = ''local-node1-pci-0000-3b-00.0-ata-1''"
    by code_simp
  show ?thesis using eq pvName_wellformed [of detector1 "''/dev/disk/by-path/pci-0000:3B:00.0-ata_1''"] by metis
qed

text \<open>
  The reconciler changes the cluster or a device only for a volume that carries the label of its own
  node and is Released; it then writes only to the device of that volume and deletes exactly that volume.
\<close>

theorem Reconcile_confined:
  assumes "Reconcile k (Delete d denv) r req (w, ds) = (res, w', ds')" and "w' \<noteq> w \<or> ds' \<noteq> ds"
  shows "\<exists>p path. get_pv k w req = Inr p \<and> pv_labels p lppLegacyLabelKey = Some (NodeName r)
      \<and> pv_phase p = ''Released'' \<and> pv_local_path p = Some path
      \<and> (\<forall>q. q \<noteq> path \<longrightarrow> ds' q = ds q) \<and> w' = snd (delete_pv k w p)"
proof (cases "get_pv k w req")
  case (Inl e)
  with assms show ?thesis by (simp add: Reconcile_def)
next
  case (Inr p)
  with assms have g: "pv_labels p lppLegacyLabelKey = Some (NodeName r)" "pv_phase p = ''Released''"
    by (auto simp: Reconcile_def split: if_splits)
  with assms Inr obtain path where path: "pv_local_path p = Some path"
    by (cases "pv_local_path p") (auto simp: Reconcile_def)
  with g assms Inr have "ds' = snd (Delete d denv path ds)" "w' = snd (delete_pv k w p)"
    by (auto simp: Reconcile_def split: prod.splits sum.splits)
  with g path Inr show ?thesis using fill.frame by metis
qed

definition released1 :: pv where
  "released1 = (blank_pv ''local-node1-sda'')\<lparr>pv_labels := [lppLegacyLabelKey \<mapsto> ''node1''],
     pv_phase := ''Released'', pv_local_path := Some ''/dev/sda''\<rparr>"

theorem Reconcile_confined_witness:
  "\<exists>res w' ds'. Reconcile (list_client node1 block_spec) (Delete \<lparr>FillBlockSize = 2, FillCount = Suc 0\<rparr> (\<lambda>_. quiet_env))
       \<lparr>NodeName = ''node1''\<rparr> ''local-node1-sda'' ([released1], [''/dev/sda'' \<mapsto> small_example]) = (res, w', ds')
     \<and> w' = [] \<and> (\<exists>p path. get_pv (list_client node1 block_spec) [released1] ''local-node1-sda'' = Inr p
       \<and> pv_local_path p = Some path)"
proof -
  let ?k = "list_client node1 block_spec"
  have run: "Reconcile ?k (Delete \<lparr>FillBlockSize = 2, FillCount = Suc 0\<rparr> (\<lambda>_. quiet_env))
       \<lparr>NodeName = ''node1''\<rparr> ''local-node1-sda'' ([released1], [''/dev/sda'' \<mapsto> small_example])
     = (Inr (), [], [''/dev/sda'' \<mapsto> \<lparr>content = [0, 0, 7, 7, 7], offset = 2\<rparr>])"
    using small_example_run
    by (simp add: Reconcile_def list_client_def find_pv_def released1_def blank_pv_def)
  then show ?thesis using Reconcile_confined [OF run] by auto
qed

end
