(* ===== verification/Local_PV_System.thy ===== *)
theory Local_PV_System
  imports Local_PV
begin

text \<open>
  local-pv-provisioner as a whole: the detector and the reconciler run as two goroutines of one process,
  beside the cluster, which binds, releases and removes volumes, and the workloads, which write to the devices of bound
  volumes. The bodies of \<open>DeviceDetector.do\<close> (for one device) and of \<open>Reconcile\<close> are cut at their calls of
  the API server and of the device cleaner, so that the two can interleave at these points; run without
  interruption the pieces are \<open>process_device\<close> and \<open>Reconcile\<close> again. The loops \<open>Start\<close> of the detector and
  of the watcher are given with their events.

  The API server is seen through \<open>view\<close>, the volumes it stores. The detector reads them from the server (its \<open>reader\<close> is
  the manager's \<open>APIReader\<close>); the reconciler reads through the client's cache, which returns some version that was stored
  at an earlier time. A deletion may take effect at once, later, or not at all, and the cluster may remove a volume at any
  time (garbage collection after its owner, the completion of a finalizer, an administrator).
\<close>

section \<open>The loops\<close>

datatype loop_event = Tick | Done

text \<open>\<open>DeviceDetector.Start\<close>: the result is \<^term>\<open>True\<close> when the loop has returned. Each pass has its own
  environment.\<close>

fun dd_loop ::
  "('e \<Rightarrow> 's \<Rightarrow> 's) \<Rightarrow> (loop_event \<times> 'e) list \<Rightarrow> 's \<Rightarrow> bool \<times> 's" where
  "dd_loop pass [] st = (False, st)"
| "dd_loop pass ((Done, e) # es) st = (True, st)"
| "dd_loop pass ((Tick, e) # es) st = dd_loop pass es (pass e st)"

definition dd_Start :: "('e \<Rightarrow> 's \<Rightarrow> 's) \<Rightarrow> 'e \<Rightarrow> (loop_event \<times> 'e) list \<Rightarrow> 's \<Rightarrow> bool \<times> 's" where
  "dd_Start pass e0 es st = dd_loop pass es (pass e0 st)"

text \<open>\<open>persistentVolumeWatcher.Start\<close>: the events sent to the reconciler, and the result of the loop if it
  has returned. A listing that fails ends it.\<close>

fun watcher_Start ::
  "('w, 'm) k8s_scheme \<Rightarrow> string \<Rightarrow> (loop_event \<times> 'w) list \<Rightarrow> (api_err, unit) result option \<times> pv list" where
  "watcher_Start k node [] = (None, [])"
| "watcher_Start k node ((Done, w) # es) = (Some (Inr ()), [])"
| "watcher_Start k node ((Tick, w) # es) =
     (case fireEvent k node w of
        Inl e \<Rightarrow> (Some (Inl e), [])
      | Inr ps \<Rightarrow> (case watcher_Start k node es of (res, rest) \<Rightarrow> (res, ps @ rest)))"

section \<open>The pieces of the two controllers\<close>

text \<open>Where the detector stands: before a device, after the read of its volume (was it NotFound?), after the
  cleaning. Where the reconciler stands: idle, about to clean the device of a volume, about to delete it.\<close>

datatype dd_pc = Idle | Checked Device bool | Cleaned Device

datatype rec_pc = RIdle | RFound pv string | RCleaned pv

text \<open>Two parts of the state only record what has happened: \<open>past\<close> are the versions of each volume that have been
  stored so far, \<open>wiped\<close> the volumes (name and UID) whose device the reconciler has cleaned without an error.\<close>

record 'w lsys =
  sys_cluster :: 'w
  sys_devs :: devices
  dpc :: dd_pc
  rpc :: rec_pc
  past :: "string \<Rightarrow> pv set"
  wiped :: "(string \<times> string) set"

definition dd_check ::
  "('w, 'm) k8s_scheme \<Rightarrow> 'd detector_scheme \<Rightarrow> Device \<Rightarrow> 'w lsys \<Rightarrow> 'w lsys" where
  "dd_check k dd dev s =
     s\<lparr>dpc := Checked dev (get_pv k (sys_cluster s) (pvName dd (Path dev)) = Inl NotFound)\<rparr>"

definition dd_clean :: "deleter \<Rightarrow> Device \<Rightarrow> 'w lsys \<Rightarrow> 'w lsys" where
  "dd_clean del dev s =
     (case del (Path dev) (sys_devs s) of
        (Inl _, ds) \<Rightarrow> s\<lparr>sys_devs := ds, dpc := Idle\<rparr>
      | (Inr _, ds) \<Rightarrow> s\<lparr>sys_devs := ds, dpc := Cleaned dev\<rparr>)"

definition dd_create ::
  "('w, 'm) k8s_scheme \<Rightarrow> 'd detector_scheme \<Rightarrow> node \<Rightarrow> pvSpec \<Rightarrow> Device \<Rightarrow> 'w lsys \<Rightarrow> 'w lsys" where
  "dd_create k dd n spec dev s =
     s\<lparr>sys_cluster := snd (createPV k dd dev n spec (sys_cluster s)), dpc := Idle\<rparr>"

text \<open>The reconciler's client \<open>kc\<close> reads from its cache and writes to the server.\<close>

definition rec_get :: "('w, 'm) k8s_scheme \<Rightarrow> reconciler \<Rightarrow> string \<Rightarrow> 'w lsys \<Rightarrow> 'w lsys" where
  "rec_get kc r req s =
     (case get_pv kc (sys_cluster s) req of
        Inl _ \<Rightarrow> s
      | Inr p \<Rightarrow>
          if pv_labels p lppLegacyLabelKey \<noteq> Some (NodeName r) then s
          else if pv_phase p \<noteq> ''Released'' then s
          else (case pv_local_path p of None \<Rightarrow> s | Some path \<Rightarrow> s\<lparr>rpc := RFound p path\<rparr>))"

definition rec_clean :: "deleter \<Rightarrow> pv \<Rightarrow> string \<Rightarrow> 'w lsys \<Rightarrow> 'w lsys" where
  "rec_clean del p path s =
     s\<lparr>sys_devs := snd (del path (sys_devs s)), rpc := RCleaned p,
       wiped := (case fst (del path (sys_devs s)) of Inl _ \<Rightarrow> wiped s | Inr _ \<Rightarrow> insert (pv_name p, pv_uid p) (wiped s))\<rparr>"

definition rec_delete :: "('w, 'm) k8s_scheme \<Rightarrow> pv \<Rightarrow> 'w lsys \<Rightarrow> 'w lsys" where
  "rec_delete kc p s = s\<lparr>sys_cluster := snd (delete_pv kc (sys_cluster s) p), rpc := RIdle\<rparr>"

text \<open>The pieces in a row.\<close>

definition dd_uninterrupted ::
  "('w, 'm) k8s_scheme \<Rightarrow> deleter \<Rightarrow> 'd detector_scheme \<Rightarrow> node \<Rightarrow> pvSpec \<Rightarrow> Device \<Rightarrow> 'w lsys \<Rightarrow> 'w lsys" where
  "dd_uninterrupted k del dd n spec dev s =
     (let s1 = dd_check k dd dev s
      in if dpc s1 = Checked dev True
         then let s2 = dd_clean del dev s1
              in if dpc s2 = Idle then s2 else dd_create k dd n spec dev s2
         else dd_create k dd n spec dev s1)"

definition rec_uninterrupted ::
  "('w, 'm) k8s_scheme \<Rightarrow> deleter \<Rightarrow> reconciler \<Rightarrow> string \<Rightarrow> 'w lsys \<Rightarrow> 'w lsys" where
  "rec_uninterrupted kc del r req s =
     (let s1 = rec_get kc r req s
      in case rpc s1 of
           RFound p path \<Rightarrow> rec_delete kc p (rec_clean del p path s1)
         | _ \<Rightarrow> s1)"

section \<open>The interleaving\<close>

text \<open>A volume that nobody has used yet, and the changes the cluster makes to a volume: it is bound, then
  released, and a released volume stays so. No administrator makes a released volume available again.\<close>

definition unused :: "string \<Rightarrow> bool" where
  "unused phase \<longleftrightarrow> phase \<in> {[], ''Pending'', ''Available''}"

definition volume_evolves :: "pv \<Rightarrow> pv \<Rightarrow> bool" where
  "volume_evolves p p' \<longleftrightarrow> pv_uid p' = pv_uid p \<and> pv_labels p' = pv_labels p \<and> pv_local_path p' = pv_local_path p
     \<and> (pv_phase p' = pv_phase p
        \<or> unused (pv_phase p) \<and> (unused (pv_phase p') \<or> pv_phase p' = ''Bound'')
        \<or> pv_phase p = ''Bound'' \<and> pv_phase p' = ''Released'')"

definition ours :: "reconciler \<Rightarrow> pv \<Rightarrow> bool" where
  "ours r p \<longleftrightarrow> pv_labels p lppLegacyLabelKey = Some (NodeName r)"

text \<open>The cluster may also remove any volume; it creates volumes, but not under the names of the detector, and not as
  volumes of this node.\<close>

definition view_evolves ::
  "'d detector_scheme \<Rightarrow> reconciler \<Rightarrow> string set \<Rightarrow> (string \<rightharpoonup> pv) \<Rightarrow> (string \<rightharpoonup> pv) \<Rightarrow> bool" where
  "view_evolves dd r paths V V' \<longleftrightarrow> (\<forall>m. V' m = None \<or> (\<exists>p'. V' m = Some p' \<and>
     (case V m of
        None \<Rightarrow> m \<notin> pvName dd ` paths \<and> \<not> ours r p'
      | Some p \<Rightarrow> volume_evolves p p')))"

definition noted :: "('w \<Rightarrow> string \<rightharpoonup> pv) \<Rightarrow> 'w lsys \<Rightarrow> 'w lsys" where
  "noted view s = s\<lparr>past := (\<lambda>m. past s m \<union> set_option (view (sys_cluster s) m))\<rparr>"

text \<open>The API server gives a volume that it creates a UID that no earlier volume of the name had.\<close>

definition fresh_uid :: "string \<Rightarrow> (string \<Rightarrow> pv set) \<Rightarrow> (string \<rightharpoonup> pv) \<Rightarrow> (string \<rightharpoonup> pv) \<Rightarrow> bool" where
  "fresh_uid n P V V' \<longleftrightarrow> (\<forall>p'. V n = None \<longrightarrow> V' n = Some p' \<longrightarrow> pv_uid p' \<notin> pv_uid ` P n)"

text \<open>What the cache returns has been stored at some time.\<close>

definition cached :: "('w, 'm) k8s_scheme \<Rightarrow> string \<Rightarrow> 'w lsys \<Rightarrow> bool" where
  "cached kc req s \<longleftrightarrow> (\<forall>p. get_pv kc (sys_cluster s) req = Inr p \<longrightarrow> pv_name p = req \<and> p \<in> past s req)"

datatype actor = Detector | Reconciler | World

text \<open>\<open>dels\<close> are the cleaners with all the faults that a call may meet; \<open>okd\<close> is what the workloads keep of the devices.\<close>

inductive lpv_step ::
  "('w, 'm) k8s_scheme \<Rightarrow> ('w, 'n) k8s_scheme \<Rightarrow> ('w \<Rightarrow> string \<rightharpoonup> pv) \<Rightarrow> deleter set \<Rightarrow> (dev_file \<Rightarrow> bool)
     \<Rightarrow> 'd detector_scheme \<Rightarrow> reconciler \<Rightarrow> string set \<Rightarrow> actor \<Rightarrow> 'w lsys \<Rightarrow> 'w lsys \<Rightarrow> bool"
  for k kc view dels okd dd r paths where
  check: "dpc s = Idle \<Longrightarrow> Path dev \<in> paths \<Longrightarrow>
    lpv_step k kc view dels okd dd r paths Detector s (dd_check k dd dev s)"
| clean: "dpc s = Checked dev True \<Longrightarrow> del \<in> dels \<Longrightarrow>
    lpv_step k kc view dels okd dd r paths Detector s (dd_clean del dev s)"
| create: "dpc s = Checked dev False \<or> dpc s = Cleaned dev \<Longrightarrow> node_name n = NodeName r \<Longrightarrow>
    fresh_uid (pvName dd (Path dev)) (past s) (view (sys_cluster s)) (view (snd (createPV k dd dev n spec (sys_cluster s)))) \<Longrightarrow>
    lpv_step k kc view dels okd dd r paths Detector s (noted view (dd_create k dd n spec dev s))"
| get: "rpc s = RIdle \<Longrightarrow> cached kc req s \<Longrightarrow>
    lpv_step k kc view dels okd dd r paths Reconciler s (rec_get kc r req s)"
| rclean: "rpc s = RFound p path \<Longrightarrow> del \<in> dels \<Longrightarrow>
    lpv_step k kc view dels okd dd r paths Reconciler s (rec_clean del p path s)"
| delete: "rpc s = RCleaned p \<Longrightarrow>
    lpv_step k kc view dels okd dd r paths Reconciler s (noted view (rec_delete kc p s))"
| evolve: "view_evolves dd r paths (view (sys_cluster s)) (view w) \<Longrightarrow>
    lpv_step k kc view dels okd dd r paths World s (noted view (s\<lparr>sys_cluster := w\<rparr>))"
| workload: "view (sys_cluster s) m = Some p \<Longrightarrow> ours r p \<Longrightarrow> pv_phase p = ''Bound'' \<Longrightarrow>
    pv_local_path p = Some q \<Longrightarrow> sys_devs s q = Some f0 \<Longrightarrow> okd f \<Longrightarrow>
    lpv_step k kc view dels okd dd r paths World s (s\<lparr>sys_devs := (sys_devs s)(q \<mapsto> f)\<rparr>)"

inductive lpv_reach ::
  "('w, 'm) k8s_scheme \<Rightarrow> ('w, 'n) k8s_scheme \<Rightarrow> ('w \<Rightarrow> string \<rightharpoonup> pv) \<Rightarrow> deleter set \<Rightarrow> (dev_file \<Rightarrow> bool)
     \<Rightarrow> 'd detector_scheme \<Rightarrow> reconciler \<Rightarrow> string set \<Rightarrow> 'w lsys \<Rightarrow> 'w lsys \<Rightarrow> bool"
  for k kc view dels okd dd r paths s0 where
  start: "lpv_reach k kc view dels okd dd r paths s0 s0"
| step: "lpv_reach k kc view dels okd dd r paths s0 s \<Longrightarrow> lpv_step k kc view dels okd dd r paths a s s' \<Longrightarrow>
    lpv_reach k kc view dels okd dd r paths s0 s'"

text \<open>
  A lapse of the detector: after its read it believes that the volume of the device exists, but the volume is missing. The
  read has failed with another error than NotFound while the volume was missing, or the volume has been removed
  since the read, and it was not one whose device the reconciler had cleaned.
\<close>

definition lapse :: "('w \<Rightarrow> string \<rightharpoonup> pv) \<Rightarrow> 'd detector_scheme \<Rightarrow> 'w lsys \<Rightarrow> 'w lsys \<Rightarrow> bool" where
  "lapse view dd s s' \<longleftrightarrow> (\<exists>dev. dpc s' = Checked dev False \<and> view (sys_cluster s') (pvName dd (Path dev)) = None
     \<and> \<not> (dpc s = Checked dev False
          \<and> (case view (sys_cluster s) (pvName dd (Path dev)) of
               None \<Rightarrow> True | Some p \<Rightarrow> (pvName dd (Path dev), pv_uid p) \<in> wiped s)))"

text \<open>Runs without a lapse.\<close>

inductive lpv_steady ::
  "('w, 'm) k8s_scheme \<Rightarrow> ('w, 'n) k8s_scheme \<Rightarrow> ('w \<Rightarrow> string \<rightharpoonup> pv) \<Rightarrow> deleter set \<Rightarrow> (dev_file \<Rightarrow> bool)
     \<Rightarrow> 'd detector_scheme \<Rightarrow> reconciler \<Rightarrow> string set \<Rightarrow> 'w lsys \<Rightarrow> 'w lsys \<Rightarrow> bool"
  for k kc view dels okd dd r paths s0 where
  begin_run: "lpv_steady k kc view dels okd dd r paths s0 s0"
| go_on: "lpv_steady k kc view dels okd dd r paths s0 s \<Longrightarrow> lpv_step k kc view dels okd dd r paths a s s' \<Longrightarrow>
    \<not> lapse view dd s s' \<Longrightarrow> lpv_steady k kc view dels okd dd r paths s0 s'"

section \<open>Documented behaviour of the API server\<close>

definition stored_by :: "(pv \<Rightarrow> (api_err, pv) result) \<Rightarrow> pv option \<Rightarrow> pv option \<Rightarrow> bool" where
  "stored_by f old new \<longleftrightarrow> new = old \<or>
     (\<exists>p0 p1 p. f p0 = Inr p1 \<and> new = Some p \<and> pv_labels p = pv_labels p1 \<and> pv_local_path p = pv_local_path p1
        \<and> (case old of None \<Rightarrow> unused (pv_phase p) | Some o1 \<Rightarrow> pv_phase p = pv_phase o1 \<and> pv_uid p = pv_uid o1))"

text \<open>A read of the server that finds no volume tells so truly (it may also fail); writing concerns the named volume only,
  may fail, and never changes the phase, which belongs to the status of the volume, or the UID; deletion removes the
  named volume, marks it for a later removal, or fails.\<close>

definition pv_store_ok :: "('w, 'm) k8s_scheme \<Rightarrow> ('w, 'n) k8s_scheme \<Rightarrow> ('w \<Rightarrow> string \<rightharpoonup> pv) \<Rightarrow> bool" where
  "pv_store_ok k kc view \<longleftrightarrow>
     (\<forall>w n. get_pv k w n = Inl NotFound \<longrightarrow> view w n = None)
   \<and> (\<forall>w n f m. m \<noteq> n \<longrightarrow> view (snd (create_or_update k w n f)) m = view w m)
   \<and> (\<forall>w n f. stored_by f (view w n) (view (snd (create_or_update k w n f)) n))
   \<and> (\<forall>w p m. m \<noteq> pv_name p \<longrightarrow> view (snd (delete_pv kc w p)) m = view w m)
   \<and> (\<forall>w p. view (snd (delete_pv kc w p)) (pv_name p) \<in> {None, view w (pv_name p)})
   \<and> (\<forall>n p p'. set_controller_reference k n p = Inr p' \<longrightarrow>
        pv_labels p' = pv_labels p \<and> pv_local_path p' = pv_local_path p)"

text \<open>The volumes of this node are those the detector names, one for each device.\<close>

definition named :: "'d detector_scheme \<Rightarrow> reconciler \<Rightarrow> string set \<Rightarrow> string \<Rightarrow> pv \<Rightarrow> bool" where
  "named dd r paths m p \<longleftrightarrow> (ours r p \<longrightarrow> (\<exists>q \<in> paths. pv_local_path p = Some q \<and> m = pvName dd q))
     \<and> (m \<in> pvName dd ` paths \<longrightarrow> ours r p)"

text \<open>The start: both controllers idle, and the volumes that are there.\<close>

definition lpv_init :: "('w \<Rightarrow> string \<rightharpoonup> pv) \<Rightarrow> 'd detector_scheme \<Rightarrow> reconciler \<Rightarrow> string set \<Rightarrow> 'w lsys \<Rightarrow> bool" where
  "lpv_init view dd r paths s \<longleftrightarrow> dpc s = Idle \<and> rpc s = RIdle \<and> wiped s = {}
     \<and> (\<forall>m. past s m = set_option (view (sys_cluster s) m))
     \<and> (\<forall>m p. view (sys_cluster s) m = Some p \<longrightarrow> named dd r paths m p)"

section \<open>The pieces are the code\<close>

text \<open>Run without interruption the pieces compute what the whole functions compute.\<close>

lemma dd_uninterrupted_eq:
  "(sys_cluster (dd_uninterrupted k del dd n spec dev s), sys_devs (dd_uninterrupted k del dd n spec dev s)) =
   (fst (process_device k del dd n spec dev (sys_cluster s, sys_devs s, a, e)),
    fst (snd (process_device k del dd n spec dev (sys_cluster s, sys_devs s, a, e))))"
  by (simp add: dd_uninterrupted_def process_device_def dd_check_def dd_clean_def dd_create_def Let_def
      split: prod.split sum.split)

lemma rec_uninterrupted_eq:
  "rpc s = RIdle \<Longrightarrow>
   (sys_cluster (rec_uninterrupted k del r req s), sys_devs (rec_uninterrupted k del r req s)) =
   snd (Reconcile k del r req (sys_cluster s, sys_devs s))"
  by (simp add: rec_uninterrupted_def Reconcile_def rec_get_def rec_clean_def rec_delete_def Let_def
      split: prod.split sum.split option.split)

section \<open>What the steps change\<close>

lemma pv_store_okD:
  assumes "pv_store_ok k kc view"
  shows "get_pv k w n = Inl NotFound \<Longrightarrow> view w n = None"
    and "m \<noteq> n \<Longrightarrow> view (snd (create_or_update k w n f)) m = view w m"
    and "stored_by f (view w n) (view (snd (create_or_update k w n f)) n)"
    and "m \<noteq> pv_name p \<Longrightarrow> view (snd (delete_pv kc w p)) m = view w m"
    and "view (snd (delete_pv kc w p)) (pv_name p) \<in> {None, view w (pv_name p)}"
    and "set_controller_reference k nd p = Inr p' \<Longrightarrow>
      pv_labels p' = pv_labels p \<and> pv_local_path p' = pv_local_path p"
  using assms unfolding pv_store_ok_def by simp_all

text \<open>What the detector writes into a volume, whatever was there before.\<close>

lemma mutate_pv_owner:
  assumes "pv_store_ok k kc view" and "mutate_pv k dd dev n spec p0 = Inr p"
  shows "pv_labels p lppLegacyLabelKey = Some (node_name n) \<and> pv_local_path p = Some (Path dev)"
  using pv_store_okD(6) [OF assms(1) assms(2) [unfolded mutate_pv_def Let_def]] by (simp add: lpp_keys)

text \<open>A volume that went on: the same UID, not unreleased, and not made unused.\<close>

definition goes_on :: "pv \<Rightarrow> pv \<Rightarrow> bool" where
  "goes_on p p' \<longleftrightarrow> pv_uid p' = pv_uid p \<and> (pv_phase p = ''Released'' \<longrightarrow> pv_phase p' = ''Released'')
     \<and> (unused (pv_phase p') \<longrightarrow> unused (pv_phase p))"

text \<open>A volume after the detector wrote it.\<close>

definition written :: "reconciler \<Rightarrow> Device \<Rightarrow> pv option \<Rightarrow> pv option \<Rightarrow> bool" where
  "written r dev old new \<longleftrightarrow> new = old \<or>
     (\<exists>p. new = Some p \<and> ours r p \<and> pv_local_path p = Some (Path dev)
        \<and> (case old of None \<Rightarrow> unused (pv_phase p) | Some o1 \<Rightarrow> goes_on o1 p))"

lemma createPV_view:
  assumes "pv_store_ok k kc view" and "node_name n = NodeName r"
  shows "m \<noteq> pvName dd (Path dev) \<Longrightarrow> view (snd (createPV k dd dev n spec w)) m = view w m"
    and "written r dev (view w (pvName dd (Path dev)))
      (view (snd (createPV k dd dev n spec w)) (pvName dd (Path dev)))"
proof -
  show "m \<noteq> pvName dd (Path dev) \<Longrightarrow> view (snd (createPV k dd dev n spec w)) m = view w m"
    by (simp add: createPV_def pv_store_okD(2) [OF assms(1)])
  let ?old = "view w (pvName dd (Path dev))" and ?new = "view (snd (createPV k dd dev n spec w)) (pvName dd (Path dev))"
  have st: "stored_by (mutate_pv k dd dev n spec) ?old ?new" by (simp add: createPV_def pv_store_okD(3) [OF assms(1)])
  show "written r dev ?old ?new"
  proof (cases "?new = ?old")
    case False
    with st obtain p0 p1 p where p: "mutate_pv k dd dev n spec p0 = Inr p1" "?new = Some p" "pv_labels p = pv_labels p1"
        "pv_local_path p = pv_local_path p1"
        "case ?old of None \<Rightarrow> unused (pv_phase p) | Some o1 \<Rightarrow> pv_phase p = pv_phase o1 \<and> pv_uid p = pv_uid o1"
      unfolding stored_by_def by blast
    have "ours r p" "pv_local_path p = Some (Path dev)"
      using mutate_pv_owner [OF assms(1) p(1)] p(3,4) assms(2) by (simp_all add: ours_def)
    moreover have "case ?old of None \<Rightarrow> unused (pv_phase p) | Some o1 \<Rightarrow> goes_on o1 p"
      using p(5) by (cases ?old) (simp_all add: goes_on_def)
    ultimately show ?thesis using p(2) by (simp add: written_def)
  qed (simp add: written_def)
qed

lemma delete_pv_view:
  assumes "pv_store_ok k kc view"
  shows "view (snd (delete_pv kc w p)) m \<in> {None, view w m}"
  using pv_store_okD(4,5) [OF assms] by (cases "m = pv_name p") auto

text \<open>The ways in which the volume of a name changes in a step: not at all, it goes, it goes on, or it is new.\<close>

definition changes ::
  "'d detector_scheme \<Rightarrow> reconciler \<Rightarrow> string set \<Rightarrow> (string \<Rightarrow> pv set) \<Rightarrow> string \<Rightarrow> pv option \<Rightarrow> pv option \<Rightarrow> bool" where
  "changes dd r paths P m old new \<longleftrightarrow> new = old \<or> new = None
     \<or> (\<exists>p'. new = Some p' \<and> named dd r paths m p'
          \<and> (case old of
               Some p \<Rightarrow> goes_on p p'
             | None \<Rightarrow> m \<in> pvName dd ` paths \<longrightarrow> pv_uid p' \<notin> pv_uid ` P m))"

lemma evolves_goes_on: "volume_evolves p p' \<Longrightarrow> goes_on p p'"
  by (auto simp: volume_evolves_def goes_on_def unused_def)

lemma named_same: "pv_labels p' = pv_labels p \<Longrightarrow> pv_local_path p' = pv_local_path p \<Longrightarrow> named dd r paths m p' = named dd r paths m p"
  by (simp add: named_def ours_def)

lemma evolve_changes:
  assumes "view_evolves dd r paths V V'" and "\<And>m p. V m = Some p \<Longrightarrow> named dd r paths m p"
  shows "changes dd r paths P m (V m) (V' m)"
proof (cases "V' m")
  case (Some p')
  then have e: "case V m of None \<Rightarrow> m \<notin> pvName dd ` paths \<and> \<not> ours r p' | Some p \<Rightarrow> volume_evolves p p'"
    using assms(1) unfolding view_evolves_def by (metis option.distinct(1) option.inject)
  show ?thesis
  proof (cases "V m")
    case None
    then show ?thesis using e Some by (auto simp: changes_def named_def)
  next
    case (Some p)
    then have "volume_evolves p p'" using e by simp
    then have "named dd r paths m p'"
      using assms(2) [OF Some] named_same [of p' p dd r paths m] unfolding volume_evolves_def by blast
    then show ?thesis using e Some \<open>V' m = Some p'\<close> evolves_goes_on by (simp add: changes_def)
  qed
qed (simp add: changes_def)

lemma create_changes:
  assumes "pv_store_ok k kc view" and "node_name n = NodeName r" and "Path dev \<in> paths"
    and "fresh_uid (pvName dd (Path dev)) P (view w) (view (snd (createPV k dd dev n spec w)))"
  shows "changes dd r paths P m (view w m) (view (snd (createPV k dd dev n spec w)) m)"
proof (cases "m = pvName dd (Path dev)")
  case True
  show ?thesis
  proof (cases "view (snd (createPV k dd dev n spec w)) m = view w m")
    case False
    with createPV_view(2) [OF assms(1,2), of dev w dd spec] True obtain p where p:
        "view (snd (createPV k dd dev n spec w)) m = Some p" "ours r p" "pv_local_path p = Some (Path dev)"
        "case view w m of None \<Rightarrow> unused (pv_phase p) | Some o1 \<Rightarrow> goes_on o1 p"
      by (auto simp: written_def)
    moreover have "named dd r paths m p" using p(2,3) True assms(3) by (auto simp: named_def)
    ultimately show ?thesis using assms(4) True by (auto simp: changes_def fresh_uid_def split: option.splits)
  qed (simp add: changes_def)
qed (simp add: changes_def createPV_view(1) [OF assms(1,2)])

section \<open>Writes only hit unclaimed devices\<close>

fun pc_in :: "string set \<Rightarrow> dd_pc \<Rightarrow> bool" where
  "pc_in paths Idle = True"
| "pc_in paths (Checked dev b) = (Path dev \<in> paths)"
| "pc_in paths (Cleaned dev) = (Path dev \<in> paths)"

text \<open>A volume, once released, is released as long as it is there.\<close>

definition stays_released ::
  "'d detector_scheme \<Rightarrow> string set \<Rightarrow> (string \<rightharpoonup> pv) \<Rightarrow> (string \<Rightarrow> pv set) \<Rightarrow> bool" where
  "stays_released dd paths V P \<longleftrightarrow> (\<forall>m \<in> pvName dd ` paths. \<forall>p0 \<in> P m. \<forall>p.
     V m = Some p \<longrightarrow> pv_uid p = pv_uid p0 \<longrightarrow> pv_phase p0 = ''Released'' \<longrightarrow> pv_phase p = ''Released'')"

text \<open>What the reconciler holds: a released volume of this node that was stored at some time.\<close>

definition found ::
  "'d detector_scheme \<Rightarrow> reconciler \<Rightarrow> string set \<Rightarrow> (string \<Rightarrow> pv set) \<Rightarrow> pv \<Rightarrow> string \<Rightarrow> bool" where
  "found dd r paths P p path \<longleftrightarrow> path \<in> paths \<and> pv_name p = pvName dd path \<and> p \<in> P (pvName dd path)
     \<and> ours r p \<and> pv_phase p = ''Released''"

definition lpv_inv ::
  "'d detector_scheme \<Rightarrow> reconciler \<Rightarrow> string set \<Rightarrow> (string \<rightharpoonup> pv) \<Rightarrow> (string \<Rightarrow> pv set) \<Rightarrow> dd_pc \<Rightarrow> rec_pc \<Rightarrow> bool" where
  "lpv_inv dd r paths V P dp rp \<longleftrightarrow> (\<forall>m. \<forall>p \<in> P m. named dd r paths m p) \<and> (\<forall>m. set_option (V m) \<subseteq> P m)
     \<and> stays_released dd paths V P \<and> pc_in paths dp
     \<and> (\<forall>dev. dp = Checked dev True \<or> dp = Cleaned dev \<longrightarrow> V (pvName dd (Path dev)) = None)
     \<and> (\<forall>p path. rp = RFound p path \<longrightarrow> found dd r paths P p path)"

lemma stays_released_changes:
  assumes "stays_released dd paths V P" and "\<And>m. changes dd r paths P m (V m) (V' m)" and "\<And>m. set_option (V m) \<subseteq> P m"
    and "P' = (\<lambda>m. P m \<union> set_option (V' m))"
  shows "stays_released dd paths V' P'"
  unfolding stays_released_def
proof (intro ballI allI impI)
  fix m p0 p
  assume h: "m \<in> pvName dd ` paths" "p0 \<in> P' m" "V' m = Some p" "pv_uid p = pv_uid p0" "pv_phase p0 = ''Released''"
  show "pv_phase p = ''Released''"
  proof (cases "p0 \<in> P m \<and> V' m \<noteq> V m")
    case False
    then show ?thesis using h assms(1,4) unfolding stays_released_def by auto
  next
    case True
    then obtain o1 where "V m = Some o1" "goes_on o1 p"
      using assms(2) [of m] h by (auto simp: changes_def split: option.splits)
    moreover from this have "pv_phase o1 = ''Released''"
      using True h assms(1) unfolding stays_released_def goes_on_def by metis
    ultimately show ?thesis by (simp add: goes_on_def)
  qed
qed

lemma lpv_inv_changes:
  assumes inv: "lpv_inv dd r paths V P dp rp" and ch: "\<And>m. changes dd r paths P m (V m) (V' m)"
    and P': "P' = (\<lambda>m. P m \<union> set_option (V' m))" and "pc_in paths dp'" and "rp' = rp \<or> rp' = RIdle"
    and "\<And>dev. dp' = Checked dev True \<or> dp' = Cleaned dev \<Longrightarrow> V' (pvName dd (Path dev)) = None"
  shows "lpv_inv dd r paths V' P' dp' rp'"
proof -
  have sub: "set_option (V m) \<subseteq> P m" for m using inv by (simp add: lpv_inv_def)
  have "named dd r paths m p" if "p \<in> P' m" for m p
  proof (cases "p \<in> P m")
    case False
    then have v: "V' m = Some p" using that P' by auto
    then have "V' m \<noteq> V m" using False sub [of m] by force
    then show ?thesis using ch [of m] v by (auto simp: changes_def)
  qed (use inv in \<open>simp add: lpv_inv_def\<close>)
  moreover have "stays_released dd paths V' P'"
    using stays_released_changes [of dd paths V P r V' P'] ch sub P' inv by (simp add: lpv_inv_def)
  moreover have "found dd r paths P' p path" if "rp' = RFound p path" for p path
    using that assms(5) inv P' by (auto simp: lpv_inv_def found_def)
  ultimately show ?thesis using assms(4,6) P' by (simp add: lpv_inv_def)
qed

lemma noted_simps [simp]:
  "sys_cluster (noted view s) = sys_cluster s" "sys_devs (noted view s) = sys_devs s" "dpc (noted view s) = dpc s"
  "rpc (noted view s) = rpc s" "wiped (noted view s) = wiped s"
  "past (noted view s) = (\<lambda>m. past s m \<union> set_option (view (sys_cluster s) m))"
  by (simp_all add: noted_def)

lemma evolve_None:
  "view_evolves dd r paths V V' \<Longrightarrow> m \<in> pvName dd ` paths \<Longrightarrow> V m = None \<Longrightarrow> V' m = None"
  unfolding view_evolves_def by (metis option.simps(4))

lemma lpv_inv_step:
  assumes ok: "pv_store_ok k kc view" and "lpv_step k kc view dels okd dd r paths a s s'"
    and inv: "lpv_inv dd r paths (view (sys_cluster s)) (past s) (dpc s) (rpc s)"
  shows "lpv_inv dd r paths (view (sys_cluster s')) (past s') (dpc s') (rpc s')"
  using assms(2)
proof (cases rule: lpv_step.cases)
  case (check dev)
  then show ?thesis using inv pv_store_okD(1) [OF ok] by (auto simp: lpv_inv_def dd_check_def)
next
  case (clean dev del)
  then show ?thesis using inv by (auto simp: lpv_inv_def dd_clean_def split: prod.split sum.split)
next
  case (create dev n spec)
  then have "Path dev \<in> paths" using inv by (auto simp: lpv_inv_def)
  from create_changes [OF ok create(4) this create(5)] create(2) show ?thesis
    by (auto simp: dd_create_def intro: lpv_inv_changes [OF inv])
next
  case (get req)
  have "found dd r paths (past s) p path"
    if "get_pv kc (sys_cluster s) req = Inr p" "ours r p" "pv_phase p = ''Released''" "pv_local_path p = Some path" for p path
  proof -
    have p: "pv_name p = req" "p \<in> past s req" using get(4) that(1) by (simp_all add: cached_def)
    then have "named dd r paths req p" using inv by (simp add: lpv_inv_def)
    then have "path \<in> paths" "req = pvName dd path" using that(2,4) by (auto simp: named_def)
    then show ?thesis using p that by (simp add: found_def)
  qed
  then show ?thesis using get inv
    by (auto simp: lpv_inv_def rec_get_def ours_def split: sum.split option.split)
next
  case (rclean p path del)
  then show ?thesis using inv by (simp add: lpv_inv_def rec_clean_def)
next
  case (delete p)
  have "changes dd r paths (past s) m (view (sys_cluster s) m) (view (snd (delete_pv kc (sys_cluster s) p)) m)" for m
    using delete_pv_view [OF ok, of "sys_cluster s" p m] by (auto simp: changes_def)
  moreover have "view (snd (delete_pv kc (sys_cluster s) p)) m = None" if "view (sys_cluster s) m = None" for m
    using delete_pv_view [OF ok, of "sys_cluster s" p m] that by simp
  moreover have "pc_in paths (dpc s)" "\<And>dev. dpc s = Checked dev True \<or> dpc s = Cleaned dev \<Longrightarrow>
      view (sys_cluster s) (pvName dd (Path dev)) = None" using inv by (auto simp: lpv_inv_def)
  ultimately show ?thesis using delete(2) by (auto simp: rec_delete_def intro: lpv_inv_changes [OF inv])
next
  case (evolve w)
  have "named dd r paths m p" if "view (sys_cluster s) m = Some p" for m p
    using inv that unfolding lpv_inv_def by (metis option.set_intros subsetD)
  from evolve_changes [OF evolve(3) this]
  have "changes dd r paths (past s) m (view (sys_cluster s) m) (view w m)" for m .
  moreover have "pc_in paths (dpc s)" "\<And>dev. dpc s = Checked dev True \<or> dpc s = Cleaned dev \<Longrightarrow>
      view (sys_cluster s) (pvName dd (Path dev)) = None" using inv by (auto simp: lpv_inv_def)
  moreover have "Path dev \<in> paths" if "dpc s = Checked dev True \<or> dpc s = Cleaned dev" for dev
    using inv that by (auto simp: lpv_inv_def)
  ultimately show ?thesis
    using evolve(2) evolve_None [OF evolve(3)] by (auto intro!: lpv_inv_changes [OF inv])
next
  case (workload m p q f0 f)
  then show ?thesis using inv by simp
qed

lemma lpv_inv_init: "lpv_init view dd r paths s \<Longrightarrow> lpv_inv dd r paths (view (sys_cluster s)) (past s) (dpc s) (rpc s)"
  by (auto simp: lpv_init_def lpv_inv_def stays_released_def)

lemma lpv_inv_reach:
  assumes "lpv_reach k kc view dels okd dd r paths s0 s" and "pv_store_ok k kc view" and "lpv_init view dd r paths s0"
  shows "lpv_inv dd r paths (view (sys_cluster s)) (past s) (dpc s) (rpc s)"
  using assms(1)
proof induction
  case start
  then show ?case by (rule lpv_inv_init [OF assms(3)])
next
  case (step s a s')
  then show ?case by (metis lpv_inv_step [OF assms(2)])
qed

text \<open>Which device a step of a controller writes.\<close>

lemma lpv_writes:
  assumes frame: "\<And>del path q ds. del \<in> dels \<Longrightarrow> q \<noteq> path \<Longrightarrow> snd (del path ds) q = ds q"
    and "lpv_step k kc view dels okd dd r paths a s s'" and "sys_devs s' q \<noteq> sys_devs s q"
  shows "a = Detector \<Longrightarrow> \<exists>dev. dpc s = Checked dev True \<and> q = Path dev"
    and "a = Reconciler \<Longrightarrow> \<exists>p. rpc s = RFound p q"
proof -
  show "\<exists>dev. dpc s = Checked dev True \<and> q = Path dev" if "a = Detector"
    using assms(2)
  proof (cases rule: lpv_step.cases)
    case (clean dev del)
    then have "sys_devs s' = snd (del (Path dev) (sys_devs s))" by (auto simp: dd_clean_def split: prod.split sum.split)
    then have "q = Path dev" using frame [OF clean(4)] assms(3) by metis
    then show ?thesis using clean(3) by blast
  qed (use that assms(3) in \<open>simp_all add: dd_check_def dd_create_def\<close>)
  show "\<exists>p. rpc s = RFound p q" if "a = Reconciler"
    using assms(2)
  proof (cases rule: lpv_step.cases)
    case (rclean p path del)
    then have "sys_devs s' = snd (del path (sys_devs s))" by (simp add: rec_clean_def)
    then have "q = path" using frame [OF rclean(4)] assms(3) by metis
    then show ?thesis using rclean(3) by blast
  next
    case (get req)
    then show ?thesis using assms(3) by (auto simp: rec_get_def split: sum.splits option.splits if_splits)
  qed (use that assms(3) in \<open>simp_all add: rec_delete_def\<close>)
qed

text \<open>
  C3. Data safety of the whole provisioner: however detector and reconciler interleave with each other and with the
  binding, releasing and removing of volumes, whatever calls fail, and however stale the cache of the reconciler is, the
  detector writes to a device only while there is no PersistentVolume of the device; and the reconciler writes only to
  the device of a volume of this node that it has read as Released, and unless that volume has been replaced by a new
  one under its name since, it is still Released or gone. So the provisioner never writes to the device of an available
  or bound volume, but for a volume that was created again after the version that the cache has returned.
\<close>

theorem writes_only_unclaimed:
  assumes "pv_store_ok k kc view" and "lpv_init view dd r paths s0"
    and "lpv_reach k kc view (range (Delete d)) okd dd r paths s0 s"
    and "lpv_step k kc view (range (Delete d)) okd dd r paths a s s'"
    and "sys_devs s' q \<noteq> sys_devs s q"
  shows "(a = Detector \<longrightarrow> view (sys_cluster s) (pvName dd q) = None)
    \<and> (a = Reconciler \<longrightarrow> (\<exists>p0. rpc s = RFound p0 q \<and> p0 \<in> past s (pvName dd q) \<and> ours r p0 \<and> pv_phase p0 = ''Released''
         \<and> (\<forall>p. view (sys_cluster s) (pvName dd q) = Some p \<longrightarrow> pv_uid p = pv_uid p0 \<longrightarrow> pv_phase p = ''Released'')))"
proof -
  have inv: "lpv_inv dd r paths (view (sys_cluster s)) (past s) (dpc s) (rpc s)"
    by (rule lpv_inv_reach [OF assms(3,1,2)])
  have frame: "snd (del path ds) x = ds x" if "del \<in> range (Delete d)" "x \<noteq> path" for del path x ds
    using that fill.frame by auto
  note w = lpv_writes [where dels = "range (Delete d)", OF _ assms(4,5)]
  show ?thesis
  proof (intro conjI impI)
    assume "a = Detector"
    then show "view (sys_cluster s) (pvName dd q) = None" using w(1) frame inv by (fastforce simp: lpv_inv_def)
  next
    assume "a = Reconciler"
    then obtain p0 where p0: "rpc s = RFound p0 q" using w(2) frame by blast
    then have f: "found dd r paths (past s) p0 q" and st: "stays_released dd paths (view (sys_cluster s)) (past s)"
      using inv by (simp_all add: lpv_inv_def)
    then have "pv_phase p = ''Released''" if "view (sys_cluster s) (pvName dd q) = Some p" "pv_uid p = pv_uid p0" for p
      using that unfolding stays_released_def found_def by blast
    then show "\<exists>p0. rpc s = RFound p0 q \<and> p0 \<in> past s (pvName dd q) \<and> ours r p0 \<and> pv_phase p0 = ''Released''
         \<and> (\<forall>p. view (sys_cluster s) (pvName dd q) = Some p \<longrightarrow> pv_uid p = pv_uid p0 \<longrightarrow> pv_phase p = ''Released'')"
      using p0 f by (auto simp: found_def)
  qed
qed

text \<open>The exception is real: a cached read of a released version makes the reconciler clean the device and then ask for
  the deletion of the volume by its name, whatever volume has that name by now.\<close>

lemma stale_read_cleans:
  assumes "rpc s = RIdle" and "cached kc req s" and "del \<in> dels" and "get_pv kc (sys_cluster s) req = Inr p0" and "ours r p0"
    and "pv_phase p0 = ''Released''" and "pv_local_path p0 = Some q" and "lpv_reach k kc view dels okd dd r paths s0 s"
  shows "\<exists>s'. lpv_reach k kc view dels okd dd r paths s0 s' \<and> sys_cluster s' = sys_cluster s
    \<and> sys_devs s' = snd (del q (sys_devs s)) \<and> rpc s' = RCleaned p0"
proof -
  let ?s1 = "rec_get kc r req s"
  have 1: "?s1 = s\<lparr>rpc := RFound p0 q\<rparr>" using assms(4-7) by (simp add: rec_get_def ours_def)
  have "lpv_reach k kc view dels okd dd r paths s0 ?s1"
    using lpv_reach.step [OF assms(8) lpv_step.get [OF assms(1,2)]] .
  moreover have "lpv_step k kc view dels okd dd r paths Reconciler ?s1 (rec_clean del p0 q ?s1)"
    by (rule lpv_step.rclean) (simp_all add: 1 assms(3))
  ultimately have "lpv_reach k kc view dels okd dd r paths s0 (rec_clean del p0 q ?s1)" by (rule lpv_reach.step)
  then show ?thesis by (intro exI [of _ "rec_clean del p0 q ?s1"]) (simp add: rec_clean_def 1)
qed

section \<open>Volumes are offered clean\<close>

definition clean_at :: "(dev_file \<Rightarrow> bool) \<Rightarrow> devices \<Rightarrow> string \<Rightarrow> bool" where
  "clean_at cl ds q \<longleftrightarrow> (\<exists>f. ds q = Some f \<and> cl f)"

text \<open>The devices of unused volumes are clean; so is a device the detector has just cleaned or one whose volume vanished
  after the detector saw it, and the device of a volume that the reconciler has cleaned.\<close>

definition offered_clean :: "'d detector_scheme \<Rightarrow> string set \<Rightarrow> (dev_file \<Rightarrow> bool) \<Rightarrow> (string \<rightharpoonup> pv) \<Rightarrow> devices \<Rightarrow> bool" where
  "offered_clean dd paths cl V ds \<longleftrightarrow>
     (\<forall>q \<in> paths. \<forall>p. V (pvName dd q) = Some p \<longrightarrow> unused (pv_phase p) \<longrightarrow> clean_at cl ds q)"

definition detector_clean :: "'d detector_scheme \<Rightarrow> (dev_file \<Rightarrow> bool) \<Rightarrow> (string \<rightharpoonup> pv) \<Rightarrow> devices \<Rightarrow> dd_pc \<Rightarrow> bool" where
  "detector_clean dd cl V ds dp \<longleftrightarrow>
     (\<forall>dev. dp = Cleaned dev \<longrightarrow> clean_at cl ds (Path dev))
   \<and> (\<forall>dev. dp = Checked dev False \<longrightarrow> V (pvName dd (Path dev)) \<noteq> None \<or> clean_at cl ds (Path dev))"

definition wiped_clean ::
  "'d detector_scheme \<Rightarrow> string set \<Rightarrow> (dev_file \<Rightarrow> bool) \<Rightarrow> (string \<rightharpoonup> pv) \<Rightarrow> devices \<Rightarrow> (string \<times> string) set \<Rightarrow> bool" where
  "wiped_clean dd paths cl V ds W \<longleftrightarrow>
     (\<forall>q \<in> paths. \<forall>p. V (pvName dd q) = Some p \<longrightarrow> (pvName dd q, pv_uid p) \<in> W \<longrightarrow>
        pv_phase p = ''Released'' \<and> clean_at cl ds q)"

definition devices_ok :: "string set \<Rightarrow> (dev_file \<Rightarrow> bool) \<Rightarrow> devices \<Rightarrow> bool" where
  "devices_ok paths okd ds \<longleftrightarrow> (\<forall>f \<in> ran ds. okd f) \<and> paths \<subseteq> dom ds"

definition lpv_clean ::
  "'d detector_scheme \<Rightarrow> string set \<Rightarrow> (dev_file \<Rightarrow> bool) \<Rightarrow> (dev_file \<Rightarrow> bool) \<Rightarrow> (string \<rightharpoonup> pv) \<Rightarrow> devices \<Rightarrow> dd_pc
     \<Rightarrow> (string \<Rightarrow> pv set) \<Rightarrow> (string \<times> string) set \<Rightarrow> bool" where
  "lpv_clean dd paths okd cl V ds dp P W \<longleftrightarrow> devices_ok paths okd ds \<and> offered_clean dd paths cl V ds
     \<and> detector_clean dd cl V ds dp \<and> wiped_clean dd paths cl V ds W \<and> (\<forall>(m, u) \<in> W. u \<in> pv_uid ` P m)"

lemmas clean_parts = offered_clean_def detector_clean_def wiped_clean_def

lemma not_unused: "\<not> unused ''Bound''" "\<not> unused ''Released''"
  by (simp_all add: unused_def)

text \<open>A step in which volumes only go or go on, without a lapse.\<close>

lemma clean_goes:
  assumes "lpv_clean dd paths okd cl V ds dp P W" and "pc_in paths dp"
    and go: "\<And>m. m \<in> pvName dd ` paths \<Longrightarrow> V' m = None \<or> (\<exists>p p'. V m = Some p \<and> V' m = Some p' \<and> goes_on p p')"
    and lapse: "\<And>dev p. dp = Checked dev False \<Longrightarrow> V' (pvName dd (Path dev)) = None \<Longrightarrow> V (pvName dd (Path dev)) = Some p \<Longrightarrow>
      (pvName dd (Path dev), pv_uid p) \<in> W"
    and "\<And>m. P m \<subseteq> P' m"
  shows "lpv_clean dd paths okd cl V' ds dp P' W"
proof -
  have c: "offered_clean dd paths cl V ds" "detector_clean dd cl V ds dp" "wiped_clean dd paths cl V ds W"
    using assms(1) by (simp_all add: lpv_clean_def)
  have old: "\<exists>p. V (pvName dd q) = Some p \<and> goes_on p p'" if "q \<in> paths" "V' (pvName dd q) = Some p'" for q p'
    using go [of "pvName dd q"] that by auto
  have "offered_clean dd paths cl V' ds"
    using c(1) old unfolding offered_clean_def goes_on_def by blast
  moreover have "wiped_clean dd paths cl V' ds W"
    using c(3) old unfolding wiped_clean_def goes_on_def by metis
  moreover have "V' (pvName dd (Path dev)) \<noteq> None \<or> clean_at cl ds (Path dev)" if d: "dp = Checked dev False" for dev
  proof (cases "V (pvName dd (Path dev))")
    case None
    then show ?thesis using c(2) d by (simp add: detector_clean_def)
  next
    case (Some p)
    then show ?thesis using lapse [OF d _ Some] c(3) assms(2) d unfolding wiped_clean_def by auto
  qed
  then have "detector_clean dd cl V' ds dp" using c(2) by (simp add: detector_clean_def)
  moreover have "\<forall>(m, u) \<in> W. u \<in> pv_uid ` P' m" using assms(1,5) unfolding lpv_clean_def by blast
  ultimately show ?thesis using assms(1) by (simp add: lpv_clean_def)
qed

text \<open>The detector writes a volume after it has seen the old one or cleaned the device.\<close>

lemma clean_create:
  assumes "lpv_clean dd paths okd cl V ds dp P W" and "dp = Checked dev False \<or> dp = Cleaned dev"
    and "Path dev \<in> paths" and "inj_on (pvName dd) paths"
    and f: "\<And>m. m \<noteq> pvName dd (Path dev) \<Longrightarrow> V' m = V m"
    and w: "written r dev (V (pvName dd (Path dev))) (V' (pvName dd (Path dev)))"
    and fresh: "fresh_uid (pvName dd (Path dev)) P V V'" and "\<And>m. P m \<subseteq> P' m"
  shows "lpv_clean dd paths okd cl V' ds Idle P' W"
proof -
  let ?n = "pvName dd (Path dev)"
  have c: "offered_clean dd paths cl V ds" "detector_clean dd cl V ds dp" "wiped_clean dd paths cl V ds W"
      "\<forall>(m, u) \<in> W. u \<in> pv_uid ` P m"
    using assms(1) by (simp_all add: lpv_clean_def)
  have other: "V' (pvName dd q) = V (pvName dd q)" if "q \<in> paths" "q \<noteq> Path dev" for q
    using f [of "pvName dd q"] that assms(3,4) by (simp add: inj_on_eq_iff)
  have new: "(unused (pv_phase p) \<longrightarrow> clean_at cl ds (Path dev))
      \<and> ((?n, pv_uid p) \<in> W \<longrightarrow> pv_phase p = ''Released'' \<and> clean_at cl ds (Path dev))" if "V' ?n = Some p" for p
  proof (cases "V ?n")
    case None
    then have "clean_at cl ds (Path dev)" using c(2) assms(2) by (auto simp: detector_clean_def)
    moreover have "(?n, pv_uid p) \<notin> W" using fresh None that c(4) by (auto simp: fresh_uid_def)
    ultimately show ?thesis by blast
  next
    case (Some o1)
    then have "p = o1 \<or> goes_on o1 p" using w that by (auto simp: written_def)
    then have "goes_on o1 p" by (auto simp: goes_on_def)
    then show ?thesis using Some c(1,3) assms(3) unfolding goes_on_def offered_clean_def wiped_clean_def by metis
  qed
  have "offered_clean dd paths cl V' ds" unfolding offered_clean_def
  proof (intro ballI allI impI)
    fix q p assume "q \<in> paths" "V' (pvName dd q) = Some p" "unused (pv_phase p)"
    then show "clean_at cl ds q" using c(1) new other unfolding offered_clean_def by (cases "q = Path dev") auto
  qed
  moreover have "wiped_clean dd paths cl V' ds W" unfolding wiped_clean_def
  proof (intro ballI allI impI)
    fix q p assume "q \<in> paths" "V' (pvName dd q) = Some p" "(pvName dd q, pv_uid p) \<in> W"
    then show "pv_phase p = ''Released'' \<and> clean_at cl ds q"
      using c(3) new other unfolding wiped_clean_def by (cases "q = Path dev") auto
  qed
  moreover have "\<forall>(m, u) \<in> W. u \<in> pv_uid ` P' m" using c(4) assms(8) by blast
  ultimately show ?thesis using assms(1) by (simp add: lpv_clean_def detector_clean_def)
qed

text \<open>A workload writes to the device of a bound volume, so none of the parts speaks about it.\<close>

lemma clean_workload:
  assumes "lpv_clean dd paths okd cl V ds dp P W" and "V (pvName dd q) = Some p" and "pv_phase p = ''Bound''"
    and "q \<in> paths" and "okd f" and none: "\<And>dev. dp = Cleaned dev \<Longrightarrow> V (pvName dd (Path dev)) = None"
  shows "lpv_clean dd paths okd cl V (ds(q \<mapsto> f)) dp P W"
proof -
  have c: "offered_clean dd paths cl V ds" "detector_clean dd cl V ds dp" "wiped_clean dd paths cl V ds W"
    using assms(1) by (simp_all add: lpv_clean_def)
  have k: "clean_at cl (ds(q \<mapsto> f)) x" if "clean_at cl ds x" "x \<noteq> q" for x
    using that by (simp add: clean_at_def)
  have "offered_clean dd paths cl V (ds(q \<mapsto> f))" unfolding offered_clean_def
  proof (intro ballI allI impI)
    fix x px assume x: "x \<in> paths" "V (pvName dd x) = Some px" "unused (pv_phase px)"
    then have "x \<noteq> q" using assms(2,3) not_unused(1) by auto
    with x k c(1) show "clean_at cl (ds(q \<mapsto> f)) x" by (simp add: offered_clean_def)
  qed
  moreover have "wiped_clean dd paths cl V (ds(q \<mapsto> f)) W" unfolding wiped_clean_def
  proof (intro ballI allI impI)
    fix x px assume x: "x \<in> paths" "V (pvName dd x) = Some px" "(pvName dd x, pv_uid px) \<in> W"
    then have "pv_phase px = ''Released''" "clean_at cl ds x" using c(3) by (auto simp: wiped_clean_def)
    moreover from this(1) have "x \<noteq> q" using x(2) assms(2,3) by auto
    ultimately show "pv_phase px = ''Released'' \<and> clean_at cl (ds(q \<mapsto> f)) x" using k by blast
  qed
  moreover have "clean_at cl (ds(q \<mapsto> f)) (Path dev)"
    if "clean_at cl ds (Path dev)" "V (pvName dd (Path dev)) = None" for dev
    using k [OF that(1)] that(2) assms(2) by fastforce
  then have "detector_clean dd cl V (ds(q \<mapsto> f)) dp" using c(2) none unfolding detector_clean_def by blast
  moreover have "devices_ok paths okd (ds(q \<mapsto> f))"
    using assms(1,5) by (auto simp: lpv_clean_def devices_ok_def ran_def)
  ultimately show ?thesis using assms(1) by (simp add: lpv_clean_def)
qed

context Deleter
begin

lemma del_devices_ok: "devices_ok paths ok_dev ds \<Longrightarrow> devices_ok paths ok_dev (snd (del path ds))"
  unfolding devices_ok_def using keeps_ok [of ds path] keeps_dom [of path ds] by blast

lemma del_clean_at: "devices_ok paths ok_dev ds \<Longrightarrow> clean_at clean ds q \<Longrightarrow> clean_at clean (snd (del path ds)) q"
  unfolding devices_ok_def clean_at_def using keeps_clean by blast

lemma del_cleans: "devices_ok paths ok_dev ds \<Longrightarrow> fst (del path ds) = Inr u \<Longrightarrow> clean_at clean (snd (del path ds)) path"
  unfolding devices_ok_def clean_at_def using cleans by blast

lemma del_keeps:
  assumes "lpv_clean dd paths ok_dev clean V ds dp P W"
  shows "lpv_clean dd paths ok_dev clean V (snd (del path ds)) dp P W"
proof -
  have "devices_ok paths ok_dev ds" using assms by (simp add: lpv_clean_def)
  then show ?thesis
    using assms del_devices_ok del_clean_at unfolding lpv_clean_def clean_parts by blast
qed

text \<open>The two steps that clean a device.\<close>

lemma del_detector:
  assumes "lpv_clean dd paths ok_dev clean (view (sys_cluster s)) (sys_devs s) (dpc s) (past s) (wiped s)"
    and "dpc s = Checked dev True" and "s' = dd_clean del dev s"
  shows "lpv_clean dd paths ok_dev clean (view (sys_cluster s')) (sys_devs s') (dpc s') (past s') (wiped s')"
proof -
  have d: "devices_ok paths ok_dev (sys_devs s)" using assms(1) by (simp add: lpv_clean_def)
  note k = del_keeps [OF assms(1), of "Path dev"]
  obtain res ds where r: "del (Path dev) (sys_devs s) = (res, ds)" by fastforce
  show ?thesis
  proof (cases res)
    case (Inl e)
    then show ?thesis using k r assms(3) by (simp add: dd_clean_def lpv_clean_def detector_clean_def)
  next
    case (Inr u)
    then have "clean_at clean ds (Path dev)" using del_cleans [OF d, of "Path dev" u] r by simp
    then show ?thesis using k r assms(3) Inr by (simp add: dd_clean_def lpv_clean_def detector_clean_def)
  qed
qed

lemma del_reconciler:
  assumes "lpv_clean dd paths ok_dev clean (view (sys_cluster s)) (sys_devs s) (dpc s) (past s) (wiped s)"
    and "found dd r paths (past s) p path" and "stays_released dd paths (view (sys_cluster s)) (past s)"
    and "inj_on (pvName dd) paths" and "s' = rec_clean del p path s"
  shows "lpv_clean dd paths ok_dev clean (view (sys_cluster s')) (sys_devs s') (dpc s') (past s') (wiped s')"
proof -
  let ?V = "view (sys_cluster s)"
  have d: "devices_ok paths ok_dev (sys_devs s)" using assms(1) by (simp add: lpv_clean_def)
  note k = del_keeps [OF assms(1), of path]
  note fd = assms(2) [unfolded found_def]
  show ?thesis
  proof (cases "fst (del path (sys_devs s))")
    case (Inl e)
    then show ?thesis using k assms(5) by (simp add: rec_clean_def)
  next
    case (Inr u)
    then have cl: "clean_at clean (snd (del path (sys_devs s))) path" by (rule del_cleans [OF d])
    have "pv_phase p' = ''Released'' \<and> clean_at clean (snd (del path (sys_devs s))) q"
      if q: "q \<in> paths" "?V (pvName dd q) = Some p'" "(pvName dd q, pv_uid p') \<in> insert (pv_name p, pv_uid p) (wiped s)" for q p'
    proof (cases "(pvName dd q, pv_uid p') \<in> wiped s")
      case True
      then show ?thesis using k q(1,2) unfolding lpv_clean_def wiped_clean_def by blast
    next
      case False
      then have e: "pvName dd q = pvName dd path" "pv_uid p' = pv_uid p" using q(3) fd by auto
      then have "q = path" using q(1) fd assms(4) by (simp add: inj_on_eq_iff)
      moreover have "pv_phase p' = ''Released''"
        using assms(3) fd q(2) e unfolding stays_released_def by (metis image_eqI)
      ultimately show ?thesis using cl by simp
    qed
    then have "wiped_clean dd paths clean ?V (snd (del path (sys_devs s))) (insert (pv_name p, pv_uid p) (wiped s))"
      unfolding wiped_clean_def by blast
    moreover have "pv_uid p \<in> pv_uid ` past s (pv_name p)" using fd by simp
    ultimately show ?thesis using k assms(5) Inr by (simp add: rec_clean_def lpv_clean_def)
  qed
qed

end

lemma lpv_clean_step:
  assumes ok: "pv_store_ok k kc view" and inj: "inj_on (pvName dd) paths"
    and "lpv_step k kc view (range (Delete d)) (small_dev d) dd r paths a s s'" and nl: "\<not> lapse view dd s s'"
    and inv: "lpv_inv dd r paths (view (sys_cluster s)) (past s) (dpc s) (rpc s)"
    and c: "lpv_clean dd paths (small_dev d) (labels_zero d) (view (sys_cluster s)) (sys_devs s) (dpc s) (past s) (wiped s)"
  shows "lpv_clean dd paths (small_dev d) (labels_zero d) (view (sys_cluster s')) (sys_devs s') (dpc s') (past s') (wiped s')"
proof -
  let ?V = "view (sys_cluster s)"
  have pc: "pc_in paths (dpc s)" using inv by (simp add: lpv_inv_def)
  from assms(3) show ?thesis
  proof (cases rule: lpv_step.cases)
    case (check dev)
    have "?V (pvName dd (Path dev)) \<noteq> None" if "get_pv k (sys_cluster s) (pvName dd (Path dev)) \<noteq> Inl NotFound"
      using nl that check unfolding lapse_def by (auto simp: dd_check_def)
    then show ?thesis using c check(2) by (auto simp: lpv_clean_def dd_check_def detector_clean_def)
  next
    case (clean dev del)
    from clean(4) obtain env where "del = Delete d env" by blast
    with fill.del_detector [where view = view and s = s and s' = s' and dev = dev, OF c clean(3)] clean(2) show ?thesis by blast
  next
    case (create dev n spec)
    have dev: "Path dev \<in> paths" using create(3) pc by auto
    have f: "view (snd (createPV k dd dev n spec (sys_cluster s))) m = ?V m" if "m \<noteq> pvName dd (Path dev)" for m
      using createPV_view(1) [OF ok create(4) that] .
    show ?thesis
      using clean_create [where V' = "view (snd (createPV k dd dev n spec (sys_cluster s)))" and P' = "past s'", OF c create(3) dev inj f
          createPV_view(2) [OF ok create(4)] create(5)] create(2)
      by (simp add: dd_create_def)
  next
    case (get req)
    then have "sys_cluster s' = sys_cluster s" "sys_devs s' = sys_devs s" "dpc s' = dpc s" "past s' = past s" "wiped s' = wiped s"
      by (simp_all add: rec_get_def split: sum.split option.split)
    then show ?thesis using c by simp
  next
    case (rclean p path del)
    then have f: "found dd r paths (past s) p path" and st: "stays_released dd paths ?V (past s)"
      using inv by (simp_all add: lpv_inv_def)
    from rclean(4) obtain env where "del = Delete d env" by blast
    with fill.del_reconciler [where view = view and s = s and s' = s', OF c f st inj] rclean(2) show ?thesis by blast
  next
    case (delete p)
    have v: "view (sys_cluster s') m \<in> {None, ?V m}" for m
      using delete_pv_view [OF ok, of "sys_cluster s" p m] delete(2) by (simp add: rec_delete_def)
    have "view (sys_cluster s') m = None \<or> (\<exists>p p'. ?V m = Some p \<and> view (sys_cluster s') m = Some p' \<and> goes_on p p')" for m
      using v [of m] by (cases "view (sys_cluster s') m") (auto simp: goes_on_def)
    moreover have "(pvName dd (Path dev), pv_uid p) \<in> wiped s"
      if "dpc s = Checked dev False" "view (sys_cluster s') (pvName dd (Path dev)) = None" "?V (pvName dd (Path dev)) = Some p" for dev p
      using nl that delete(2) unfolding lapse_def by (auto simp: rec_delete_def)
    ultimately show ?thesis using clean_goes [OF c pc, of "view (sys_cluster s')" "past s'"] delete(2) by (simp add: rec_delete_def)
  next
    case (evolve w)
    have "view w m = None \<or> (\<exists>p p'. ?V m = Some p \<and> view w m = Some p' \<and> goes_on p p')" if n: "m \<in> pvName dd ` paths" for m
    proof (cases "view w m")
      case (Some p')
      then have e: "case ?V m of None \<Rightarrow> m \<notin> pvName dd ` paths \<and> \<not> ours r p' | Some p \<Rightarrow> volume_evolves p p'"
        using evolve(3) unfolding view_evolves_def by (metis option.distinct(1) option.inject)
      then obtain p where "?V m = Some p" "volume_evolves p p'" using n by (cases "?V m") auto
      then show ?thesis using Some evolves_goes_on by blast
    qed simp
    moreover have "(pvName dd (Path dev), pv_uid p) \<in> wiped s"
      if "dpc s = Checked dev False" "view w (pvName dd (Path dev)) = None" "?V (pvName dd (Path dev)) = Some p" for dev p
      using nl that evolve(2) unfolding lapse_def by auto
    ultimately show ?thesis using clean_goes [OF c pc, of "view w" "past s'"] evolve(2) by simp
  next
    case (workload m p q f0 f)
    have "named dd r paths m p" using inv workload(3) unfolding lpv_inv_def by (metis option.set_intros subsetD)
    then have q: "q \<in> paths" "m = pvName dd q" using workload(4,6) by (auto simp: named_def)
    have "?V (pvName dd (Path dev)) = None" if "dpc s = Cleaned dev" for dev using inv that by (simp add: lpv_inv_def)
    then show ?thesis
      using clean_workload [OF c workload(3) [unfolded q(2)] workload(5) q(1) workload(8)] workload(2) by simp
  qed
qed

lemma Delete_succeeds:
  assumes "no_faults (denv path)" and "ds path = Some f" and "small_dev d f"
  shows "fst (Delete d denv path ds) = Inr ()"
proof -
  obtain r f' where f': "delete_file d (denv path) f = (r, f')" by fastforce
  with delete_file_effect(3) [OF f'] assms show ?thesis by (simp add: Delete_def small_dev_def)
qed

text \<open>
  C4. What is offered is clean: in every interleaving of detector, reconciler, cluster and workloads without a lapse of
  the detector, the device of every volume of this node that has not been bound yet has only zeros in its label
  blocks, whatever cleanings and other calls fail and however stale the cache is. A lapse is that the detector, after its
  read, takes a volume for present that is missing: the read has failed with another error than NotFound, or the volume
  has been removed since; but a volume whose device the reconciler has cleaned may be removed at any time.
\<close>

theorem offered_volumes_clean:
  assumes "pv_store_ok k kc view" and "inj_on (pvName dd) paths" and "lpv_init view dd r paths s0"
    and "devices_ok paths (small_dev d) (sys_devs s0)"
    and "offered_clean dd paths (labels_zero d) (view (sys_cluster s0)) (sys_devs s0)"
    and "lpv_steady k kc view (range (Delete d)) (small_dev d) dd r paths s0 s"
    and "view (sys_cluster s) m = Some p" and "ours r p" and "unused (pv_phase p)"
  shows "\<exists>q f. pv_local_path p = Some q \<and> sys_devs s q = Some f \<and> labels_zero d f"
proof -
  have "lpv_inv dd r paths (view (sys_cluster s)) (past s) (dpc s) (rpc s)
    \<and> lpv_clean dd paths (small_dev d) (labels_zero d) (view (sys_cluster s)) (sys_devs s) (dpc s) (past s) (wiped s)"
    using assms(6)
  proof induction
    case begin_run
    from assms(3) have "dpc s0 = Idle" "wiped s0 = {}" by (simp_all add: lpv_init_def)
    with assms(4,5) lpv_inv_init [OF assms(3)] show ?case by (simp add: lpv_clean_def detector_clean_def wiped_clean_def)
  next
    case (go_on s a s')
    then show ?case
      using lpv_inv_step [OF assms(1) go_on(2)] lpv_clean_step [OF assms(1,2) go_on(2,3)] by blast
  qed
  moreover from this have "named dd r paths m p" using assms(7) unfolding lpv_inv_def by (metis option.set_intros subsetD)
  then obtain q where "q \<in> paths" "pv_local_path p = Some q" "m = pvName dd q" using assms(8) by (auto simp: named_def)
  ultimately show ?thesis using assms(7,9) by (auto simp: lpv_clean_def offered_clean_def clean_at_def)
qed

text \<open>
  C6. A lapse offers the device as it is: from every reachable state in which the detector reads the volume of a device
  and gets anything but NotFound, if the volume is missing when the detector writes (it was missing already and the
  read has failed, or the cluster removes it in between) and the write creates it, then a state is reachable in which a
  fresh volume of this node offers the device, and no device has been cleaned.
\<close>

theorem lapse_offers_uncleaned:
  assumes "pv_store_ok k kc view" and "lpv_reach k kc view dels okd dd r paths s0 s" and "dpc s = Idle"
    and "Path dev \<in> paths" and "get_pv k (sys_cluster s) (pvName dd (Path dev)) \<noteq> Inl NotFound"
    and "view_evolves dd r paths (view (sys_cluster s)) (view w)" and "view w (pvName dd (Path dev)) = None"
    and "node_name n = NodeName r" and "view (snd (createPV k dd dev n spec w)) (pvName dd (Path dev)) \<noteq> None"
    and "fresh_uid (pvName dd (Path dev)) (past (noted view (s\<lparr>sys_cluster := w\<rparr>))) (view w) (view (snd (createPV k dd dev n spec w)))"
  shows "\<exists>s' p. lpv_reach k kc view dels okd dd r paths s0 s' \<and> view (sys_cluster s') (pvName dd (Path dev)) = Some p
    \<and> ours r p \<and> unused (pv_phase p) \<and> pv_local_path p = Some (Path dev) \<and> sys_devs s' = sys_devs s"
proof -
  let ?s1 = "dd_check k dd dev s"
  let ?s2 = "noted view (?s1\<lparr>sys_cluster := w\<rparr>)"
  let ?s3 = "noted view (dd_create k dd n spec dev ?s2)"
  have 1: "?s1 = s\<lparr>dpc := Checked dev False\<rparr>" using assms(5) by (simp add: dd_check_def)
  have "lpv_step k kc view dels okd dd r paths Detector s ?s1" by (rule lpv_step.check [OF assms(3,4)])
  moreover have "lpv_step k kc view dels okd dd r paths World ?s1 ?s2"
    by (rule lpv_step.evolve) (simp add: 1 assms(6))
  moreover have "lpv_step k kc view dels okd dd r paths Detector ?s2 ?s3"
    by (rule lpv_step.create) (use assms(8,10) in \<open>simp_all add: 1\<close>)
  ultimately have reach: "lpv_reach k kc view dels okd dd r paths s0 ?s3"
    by (intro lpv_reach.step [OF lpv_reach.step [OF lpv_reach.step [OF assms(2)]]])
  have v: "view (sys_cluster ?s3) = view (snd (createPV k dd dev n spec w))" by (simp add: dd_create_def)
  obtain p where "view (snd (createPV k dd dev n spec w)) (pvName dd (Path dev)) = Some p" "ours r p"
      "pv_local_path p = Some (Path dev)" "unused (pv_phase p)"
    using createPV_view(2) [OF assms(1,8), of dev w dd spec] assms(7,9) by (auto simp: written_def)
  moreover have "sys_devs ?s3 = sys_devs s" by (simp add: dd_create_def 1)
  ultimately show ?thesis using reach v by (intro exI [of _ ?s3] exI [of _ p]) simp
qed


section \<open>A reference store and concrete runs\<close>

text \<open>The client over a list of volumes, with phase and UID kept on writes as the API server does.\<close>

definition store_client :: "node \<Rightarrow> (string \<rightharpoonup> string) \<Rightarrow> pv list k8s" where
  "store_client n cm = (list_client n cm)
     \<lparr>create_or_update := (\<lambda>w name f.
        case f (case find_pv w name of None \<Rightarrow> blank_pv name | Some p \<Rightarrow> p) of
          Inl e \<Rightarrow> (Inl e, w)
        | Inr p \<Rightarrow> (Inr (), p\<lparr>pv_phase := (case find_pv w name of None \<Rightarrow> [] | Some o1 \<Rightarrow> pv_phase o1),
                           pv_uid := (case find_pv w name of None \<Rightarrow> ''u1'' | Some o1 \<Rightarrow> pv_uid o1),
                           pv_name := name\<rparr> # filter (\<lambda>q. pv_name q \<noteq> name) w))\<rparr>"

lemma find_pv_name: "find_pv w n = Some p \<Longrightarrow> pv_name p = n"
  by (auto simp: find_pv_def find_Some_iff)

lemma find_pv_del: "find_pv (filter (\<lambda>q. pv_name q \<noteq> nm) w) m = (if m = nm then None else find_pv w m)"
  by (induction w) (auto simp: find_pv_def)

lemma store_client_ok: "pv_store_ok (store_client n cm) (store_client n cm) find_pv"
proof -
  have "stored_by f (find_pv w nm) (find_pv (snd (create_or_update (store_client n cm) w nm f)) nm)" for w nm f
    by (auto simp: store_client_def stored_by_def find_pv_put unused_def split: sum.split option.splits)
  moreover have "find_pv (snd (create_or_update (store_client n cm) w nm f)) m = find_pv w m" if "m \<noteq> nm" for w nm f m
    using that by (simp add: store_client_def find_pv_put split: sum.split)
  ultimately show ?thesis
    by (auto simp: pv_store_ok_def store_client_def list_client_def find_pv_del split: option.splits)
qed

definition paths1 :: "string set" where "paths1 = {''/dev/sda''}"

definition fill1 :: fill_deleter where "fill1 = \<lparr>FillBlockSize = 2, FillCount = Suc 0\<rparr>"

definition sys0 :: "pv list lsys" where
  "sys0 = \<lparr>sys_cluster = [], sys_devs = [''/dev/sda'' \<mapsto> small_example], dpc = Idle, rpc = RIdle, past = (\<lambda>_. {}), wiped = {}\<rparr>"

abbreviation step1 :: "actor \<Rightarrow> pv list lsys \<Rightarrow> pv list lsys \<Rightarrow> bool" where
  "step1 \<equiv> lpv_step (store_client node1 block_spec) (store_client node1 block_spec) find_pv (range (Delete fill1)) (small_dev fill1)
     detector1 \<lparr>NodeName = ''node1''\<rparr> paths1"

abbreviation reach1 :: "pv list lsys \<Rightarrow> pv list lsys \<Rightarrow> bool" where
  "reach1 \<equiv> lpv_reach (store_client node1 block_spec) (store_client node1 block_spec) find_pv (range (Delete fill1)) (small_dev fill1)
     detector1 \<lparr>NodeName = ''node1''\<rparr> paths1"

abbreviation steady1 :: "pv list lsys \<Rightarrow> pv list lsys \<Rightarrow> bool" where
  "steady1 \<equiv> lpv_steady (store_client node1 block_spec) (store_client node1 block_spec) find_pv (range (Delete fill1)) (small_dev fill1)
     detector1 \<lparr>NodeName = ''node1''\<rparr> paths1"

definition sys1 :: "pv list lsys" where "sys1 = sys0\<lparr>dpc := Checked sda True\<rparr>"

definition sys2 :: "pv list lsys" where
  "sys2 = sys0\<lparr>sys_devs := [''/dev/sda'' \<mapsto> \<lparr>content = [0, 0, 7, 7, 7], offset = 2\<rparr>], dpc := Cleaned sda\<rparr>"

definition sys3 :: "pv list lsys" where
  "sys3 = noted find_pv (dd_create (store_client node1 block_spec) detector1 node1 spec1 sda sys2)"

lemma run1: "step1 Detector sys0 sys1" "step1 Detector sys1 sys2" "step1 Detector sys2 sys3"
proof -
  have 1: "dd_check (store_client node1 block_spec) detector1 sda sys0 = sys1"
    by (simp add: dd_check_def sys0_def sys1_def store_client_def list_client_def find_pv_def)
  have 2: "dd_clean (Delete fill1 (\<lambda>_. quiet_env)) sda sys1 = sys2"
    using small_example_run by (simp add: dd_clean_def sys0_def sys1_def sys2_def sda_def fill1_def)
  have "step1 Detector sys0 (dd_check (store_client node1 block_spec) detector1 sda sys0)"
    by (rule lpv_step.check) (simp_all add: sys0_def sda_def paths1_def)
  then show "step1 Detector sys0 sys1" unfolding 1 .
  have "step1 Detector sys1 (dd_clean (Delete fill1 (\<lambda>_. quiet_env)) sda sys1)"
    by (rule lpv_step.clean) (simp_all add: sys1_def)
  then show "step1 Detector sys1 sys2" unfolding 2 .
  show "step1 Detector sys2 sys3" unfolding sys3_def
    by (rule lpv_step.create) (simp_all add: sys2_def sys0_def node1_def fresh_uid_def)
qed

lemma start1: "lpv_init find_pv detector1 \<lparr>NodeName = ''node1''\<rparr> paths1 sys0"
  by (simp add: lpv_init_def sys0_def find_pv_def)

text \<open>A released volume whose device holds old data.\<close>

definition rel0 :: "pv list lsys" where
  "rel0 = sys0\<lparr>sys_cluster := [released1], past := (\<lambda>m. set_option (find_pv [released1] m))\<rparr>"

definition rel1 :: "pv list lsys" where "rel1 = rel0\<lparr>rpc := RFound released1 ''/dev/sda''\<rparr>"

definition rel2 :: "pv list lsys" where
  "rel2 = rec_clean (Delete fill1 (\<lambda>_. quiet_env)) released1 ''/dev/sda'' rel1"

lemma released1_found: "find_pv [released1] ''local-node1-sda'' = Some released1"
  by (simp add: find_pv_def released1_def blank_pv_def)

lemma run2: "step1 Reconciler rel0 rel1" "step1 Reconciler rel1 rel2"
proof -
  have "rec_get (store_client node1 block_spec) \<lparr>NodeName = ''node1''\<rparr> ''local-node1-sda'' rel0 = rel1"
    by (simp add: rec_get_def rel0_def rel1_def sys0_def store_client_def list_client_def released1_found)
      (simp add: released1_def)
  moreover have "step1 Reconciler rel0 (rec_get (store_client node1 block_spec) \<lparr>NodeName = ''node1''\<rparr> ''local-node1-sda'' rel0)"
  proof (rule lpv_step.get)
    show "cached (store_client node1 block_spec) ''local-node1-sda'' rel0"
      by (simp add: cached_def rel0_def sys0_def store_client_def list_client_def released1_found)
        (simp add: released1_def blank_pv_def)
  qed (simp add: rel0_def sys0_def)
  ultimately show "step1 Reconciler rel0 rel1" by simp
  show "step1 Reconciler rel1 rel2" unfolding rel2_def by (rule lpv_step.rclean) (simp_all add: rel1_def)
qed

lemma start2: "lpv_init find_pv detector1 \<lparr>NodeName = ''node1''\<rparr> paths1 rel0"
proof -
  have "named detector1 \<lparr>NodeName = ''node1''\<rparr> paths1 m p" if "find_pv [released1] m = Some p" for m p
    using that sda_name by (auto simp: find_pv_def named_def ours_def released1_def blank_pv_def paths1_def sda_def split: if_splits)
  then show ?thesis by (simp add: lpv_init_def rel0_def sys0_def)
qed

theorem writes_only_unclaimed_witness:
  "sys_devs sys2 ''/dev/sda'' \<noteq> sys_devs sys1 ''/dev/sda'' \<and> find_pv (sys_cluster sys1) (pvName detector1 ''/dev/sda'') = None
   \<and> sys_devs rel2 ''/dev/sda'' \<noteq> sys_devs rel1 ''/dev/sda''
   \<and> (\<exists>p0. rpc rel1 = RFound p0 ''/dev/sda'' \<and> p0 \<in> past rel1 (pvName detector1 ''/dev/sda'') \<and> pv_phase p0 = ''Released'')"
proof -
  have w: "sys_devs sys2 ''/dev/sda'' \<noteq> sys_devs sys1 ''/dev/sda''"
    by (simp add: sys1_def sys2_def sys0_def small_example_def)
  have "Delete fill1 (\<lambda>_. quiet_env) ''/dev/sda'' [''/dev/sda'' \<mapsto> small_example]
      = (Inr (), [''/dev/sda'' \<mapsto> \<lparr>content = [0, 0, 7, 7, 7], offset = 2\<rparr>])"
    using small_example_run by (simp add: fill1_def)
  then have v: "sys_devs rel2 ''/dev/sda'' \<noteq> sys_devs rel1 ''/dev/sda''"
    by (simp add: rel2_def rec_clean_def rel1_def rel0_def sys0_def small_example_def)
  note a = writes_only_unclaimed [OF store_client_ok start1 lpv_reach.step [OF lpv_reach.start run1(1)] run1(2) w]
  note b = writes_only_unclaimed [OF store_client_ok start2 lpv_reach.step [OF lpv_reach.start run2(1)] run2(2) v]
  show ?thesis using a b w v by blast
qed

lemma sys3_volume:
  "\<exists>p. find_pv (sys_cluster sys3) ''local-node1-sda'' = Some p \<and> ours \<lparr>NodeName = ''node1''\<rparr> p \<and> unused (pv_phase p)
     \<and> pv_local_path p = Some ''/dev/sda''"
  by (simp add: sys3_def dd_create_def createPV_def sda_name sys2_def sys0_def store_client_def list_client_def
      mutate_pv_def Let_def find_pv_def ours_def unused_def lpp_keys node1_def) (simp add: sda_def)

lemma steady_run: "steady1 sys0 sys3"
proof -
  have "\<not> lapse find_pv detector1 sys0 sys1" "\<not> lapse find_pv detector1 sys1 sys2" "\<not> lapse find_pv detector1 sys2 sys3"
    by (simp_all add: lapse_def sys1_def sys2_def sys3_def dd_create_def)
  with run1 show ?thesis by (meson lpv_steady.intros)
qed

theorem offered_volumes_clean_witness:
  "\<exists>p q f. find_pv (sys_cluster sys3) ''local-node1-sda'' = Some p
     \<and> pv_local_path p = Some q \<and> sys_devs sys3 q = Some f \<and> labels_zero fill1 f"
proof -
  obtain p where p: "find_pv (sys_cluster sys3) ''local-node1-sda'' = Some p" "ours \<lparr>NodeName = ''node1''\<rparr> p"
    "unused (pv_phase p)" using sys3_volume by blast
  have inj: "inj_on (pvName detector1) paths1" by (simp add: paths1_def)
  have ok: "devices_ok paths1 (small_dev fill1) (sys_devs sys0)"
    by (simp add: devices_ok_def sys0_def paths1_def small_dev_def small_example_def file_size_def fill1_def)
  have cl: "offered_clean detector1 paths1 (labels_zero fill1) (find_pv (sys_cluster sys0)) (sys_devs sys0)"
    by (simp add: offered_clean_def sys0_def find_pv_def)
  show ?thesis
    using p(1) offered_volumes_clean [OF store_client_ok inj start1 ok cl steady_run p] by blast
qed

text \<open>A server whose reads fail: a disk with old data is offered.\<close>

definition blind_client :: "pv list k8s" where
  "blind_client = (store_client node1 block_spec)\<lparr>get_pv := (\<lambda>w n. Inl (ApiErr 0))\<rparr>"

lemma blind_client_ok: "pv_store_ok blind_client (store_client node1 block_spec) find_pv"
  using store_client_ok [of node1 block_spec] by (simp add: pv_store_ok_def blind_client_def)

theorem lapse_offers_uncleaned_witness:
  "\<exists>s' p f. lpv_reach blind_client (store_client node1 block_spec) find_pv (range (Delete fill1)) (small_dev fill1) detector1
       \<lparr>NodeName = ''node1''\<rparr> paths1 sys0 s'
     \<and> find_pv (sys_cluster s') ''local-node1-sda'' = Some p \<and> unused (pv_phase p) \<and> pv_local_path p = Some ''/dev/sda''
     \<and> sys_devs s' ''/dev/sda'' = Some f \<and> \<not> labels_zero fill1 f"
proof -
  have dirty: "\<not> labels_zero fill1 small_example"
    by (auto simp: labels_zero_def small_example_def label_byte_def bdevLabelPositions_def in_block_def fill1_def intro!: exI [of _ 0])
  have made: "find_pv (snd (createPV blind_client detector1 sda node1 spec1 [])) (pvName detector1 (Path sda)) \<noteq> None"
    by (simp add: createPV_def blind_client_def store_client_def list_client_def mutate_pv_def Let_def find_pv_def)
  have "dpc sys0 = Idle" "Path sda \<in> paths1" "get_pv blind_client (sys_cluster sys0) (pvName detector1 (Path sda)) \<noteq> Inl NotFound"
      "view_evolves detector1 \<lparr>NodeName = ''node1''\<rparr> paths1 (find_pv (sys_cluster sys0)) (find_pv [])"
      "find_pv [] (pvName detector1 (Path sda)) = None" "node_name node1 = NodeName \<lparr>NodeName = ''node1''\<rparr>"
      "fresh_uid (pvName detector1 (Path sda)) (past (noted find_pv (sys0\<lparr>sys_cluster := []\<rparr>))) (find_pv [])
        (find_pv (snd (createPV blind_client detector1 sda node1 spec1 [])))"
    by (simp_all add: sys0_def sda_def paths1_def blind_client_def view_evolves_def find_pv_def node1_def fresh_uid_def)
  from lapse_offers_uncleaned [OF blind_client_ok lpv_reach.start this(1-6) made this(7)]
  obtain s' p where "lpv_reach blind_client (store_client node1 block_spec) find_pv (range (Delete fill1)) (small_dev fill1) detector1
       \<lparr>NodeName = ''node1''\<rparr> paths1 sys0 s'" "find_pv (sys_cluster s') (pvName detector1 (Path sda)) = Some p" "unused (pv_phase p)"
      "pv_local_path p = Some (Path sda)" "sys_devs s' = sys_devs sys0" by blast
  then show ?thesis using dirty sda_name by (auto simp: sys0_def sda_def)
qed

end
