(* ===== verification/Local_PV_Main.thy ===== *)
theory Local_PV_Main
  imports Local_PV_System
begin

text \<open>
  The command of local-pv-provisioner (\<open>cmd/run.go\<close>, \<open>cmd/root.go\<close>) and the way its controllers are registered with the
  controller manager: \<open>NewDeviceDetector\<close> and \<open>SetupWithManager\<close>. The manager is a parameter: every call of it that can
  fail has a result in \<open>manager\<close>, and what it does with an event that passes the filter is the documented behaviour
  of its queue: the reconciler is called with the name of the object, in some order.

  The theorem composes watcher, filter, queue and reconciler: one tick of the watcher is enough to reclaim every
  Released volume of the node, also those whose events the process never saw because it was not running.
\<close>

section \<open>Settings\<close>

record provisioner_config =
  metricsAddr :: string
  cfg_nodeName :: string
  pollingInterval :: int
  cfg_defaultPVSpecConfigMap :: string
  namespaceName :: string

text \<open>The values of the flags, as viper resolves them from the command line and the environment.\<close>

definition read_config :: "(string \<Rightarrow> string) \<Rightarrow> (string \<Rightarrow> int) \<Rightarrow> provisioner_config" where
  "read_config getString getDuration =
     \<lparr>metricsAddr = getString ''metrics-addr'', cfg_nodeName = getString ''node-name'',
      pollingInterval = getDuration ''polling-interval'',
      cfg_defaultPVSpecConfigMap = getString ''default-pv-spec-configmap'',
      namespaceName = getString ''namespace-name''\<rparr>"

section \<open>Registration\<close>

definition watcherInterval :: int where
  "watcherInterval = 3600 * 1000000000"

datatype runnable = RunDetector detector int | RunWatcher string int | RunController reconciler

record manager =
  new_manager :: "string option"
  mgr_add :: "runnable \<Rightarrow> string option"
  get_informer :: "string \<Rightarrow> string option"
  mgr_start :: "runnable list \<Rightarrow> string option"

text \<open>\<open>MustRegister\<close> panics when a gauge of the same name and node is registered already.\<close>

definition detector_gauges :: "string \<Rightarrow> (string \<times> string) list" where
  "detector_gauges node = [(''local_pv_provisioner_available_devices'', node), (''local_pv_provisioner_error_devices'', node)]"

fun must_register :: "(string \<times> string) list \<Rightarrow> (string \<times> string) set \<Rightarrow> (string \<times> string) set option" where
  "must_register [] reg = Some reg"
| "must_register (g # gs) reg = (if g \<in> reg then None else must_register gs (insert g reg))"

definition NewDeviceDetector ::
  "string \<Rightarrow> int \<Rightarrow> string \<Rightarrow> string \<Rightarrow> (string \<times> string) set \<Rightarrow> (runnable \<times> (string \<times> string) set) option" where
  "NewDeviceDetector node interval defaultCM ns reg =
     map_option (Pair (RunDetector \<lparr>nodeName = node, defaultPVSpecConfigMap = defaultCM, workingNamespace = ns\<rparr> interval))
       (must_register (detector_gauges node) reg)"

text \<open>The filter on the events of the controller, and the requests of the events that pass it.\<close>

datatype pv_event = CreateEvent pv | DeleteEvent pv | UpdateEvent pv pv | GenericEvent pv

fun event_pred :: "pv_event \<Rightarrow> bool" where
  "event_pred (CreateEvent _) = True"
| "event_pred (DeleteEvent _) = False"
| "event_pred (UpdateEvent _ _) = True"
| "event_pred (GenericEvent _) = True"

fun event_request :: "pv_event \<Rightarrow> string" where
  "event_request (CreateEvent p) = pv_name p"
| "event_request (DeleteEvent p) = pv_name p"
| "event_request (UpdateEvent old p) = pv_name p"
| "event_request (GenericEvent p) = pv_name p"

definition requests :: "pv_event list \<Rightarrow> string list" where
  "requests evs = map event_request (filter event_pred evs)"

definition SetupWithManager :: "('m) manager_scheme \<Rightarrow> reconciler \<Rightarrow> string \<Rightarrow> (string, runnable list) result" where
  "SetupWithManager mgr r node =
     (let watcher = RunWatcher node watcherInterval
      in case mgr_add mgr watcher of
           Some e \<Rightarrow> Inl e
         | None \<Rightarrow>
             (case mgr_add mgr (RunController r) of
                Some e \<Rightarrow> Inl e
              | None \<Rightarrow> Inr [watcher, RunController r]))"

section \<open>The command\<close>

text \<open>The cleaner that both controllers share.\<close>

definition run_deleter :: fill_deleter where
  "run_deleter = \<lparr>FillBlockSize = 1024 * 1024, FillCount = 100\<rparr>"

datatype run_err = Refused string | Panic

text \<open>\<open>run\<close>: the error it returns, or the runnables the manager was started with.\<close>

definition provisioner_run ::
  "('m) manager_scheme \<Rightarrow> (string \<times> string) set \<Rightarrow> provisioner_config \<Rightarrow> (run_err, runnable list) result" where
  "provisioner_run mgr reg cfg =
     (if cfg_nodeName cfg = '''' then Inl (Refused ''node-name must not be empty'')
      else case new_manager mgr of
        Some e \<Rightarrow> Inl (Refused e)
      | None \<Rightarrow>
          (case NewDeviceDetector (cfg_nodeName cfg) (pollingInterval cfg) (cfg_defaultPVSpecConfigMap cfg)
                  (namespaceName cfg) reg of
             None \<Rightarrow> Inl Panic
           | Some (dd, _) \<Rightarrow>
               (case mgr_add mgr dd of
                  Some e \<Rightarrow> Inl (Refused e)
                | None \<Rightarrow>
                    (case SetupWithManager mgr \<lparr>NodeName = cfg_nodeName cfg\<rparr> (cfg_nodeName cfg) of
                       Inl e \<Rightarrow> Inl (Refused e)
                     | Inr rs \<Rightarrow>
                         (case get_informer mgr ''PersistentVolume'' of
                            Some e \<Rightarrow> Inl (Refused e)
                          | None \<Rightarrow>
                              (case get_informer mgr ''Node'' of
                                 Some e \<Rightarrow> Inl (Refused e)
                               | None \<Rightarrow>
                                   (case mgr_start mgr (dd # rs) of
                                      Some e \<Rightarrow> Inl (Refused e)
                                    | None \<Rightarrow> Inr (dd # rs))))))))"

text \<open>With the settings of the command, the cleaner clears the 100 MiB after each label position.\<close>

lemma run_deleter_labels:
  "label_byte run_deleter k \<longleftrightarrow>
     (\<exists>p \<in> {0, 1, 10, 100, 1000}. p * 1073741824 \<le> k \<and> k < p * 1073741824 + 104857600)"
  by (simp add: label_byte_def run_deleter_def bdevLabelPositions_def in_block_def)

text \<open>A command that runs has one detector, one watcher and one controller, all for the node of the settings.\<close>

lemma provisioner_run_node:
  assumes "provisioner_run mgr reg cfg = Inr rs"
  shows "\<exists>dd. rs = [RunDetector dd (pollingInterval cfg), RunWatcher (nodeName dd) watcherInterval,
      RunController \<lparr>NodeName = nodeName dd\<rparr>] \<and> nodeName dd = cfg_nodeName cfg \<and> nodeName dd \<noteq> ''''"
  using assms
  by (auto simp: provisioner_run_def NewDeviceDetector_def SetupWithManager_def Let_def
      split: if_splits option.splits sum.splits)

section \<open>Reclaiming\<close>

definition process_requests ::
  "('w, 'm) k8s_scheme \<Rightarrow> deleter \<Rightarrow> reconciler \<Rightarrow> string list \<Rightarrow> 'w \<times> devices \<Rightarrow> 'w \<times> devices" where
  "process_requests k del r reqs s = fold (\<lambda>req s. snd (Reconcile k del r req s)) reqs s"

text \<open>An API server none of whose calls fail.\<close>

definition api_healthy :: "('w, 'm) k8s_scheme \<Rightarrow> ('w \<Rightarrow> string \<rightharpoonup> pv) \<Rightarrow> bool" where
  "api_healthy k view \<longleftrightarrow>
     (\<forall>w n. get_pv k w n = (case view w n of None \<Rightarrow> Inl NotFound | Some p \<Rightarrow> Inr p))
   \<and> (\<forall>w n p. view w n = Some p \<longrightarrow> pv_name p = n)
   \<and> (\<forall>w p. fst (delete_pv k w p) = Inr () \<and> view (snd (delete_pv k w p)) = (view w)(pv_name p := None))
   \<and> (\<forall>w key v. \<exists>ps. list_pvs k w key v = Inr ps
        \<and> (\<forall>n p. view w n = Some p \<longrightarrow> pv_labels p key = Some v \<longrightarrow> p \<in> set ps))"

lemma api_healthyD:
  assumes "api_healthy k view"
  shows "get_pv k w n = (case view w n of None \<Rightarrow> Inl NotFound | Some p \<Rightarrow> Inr p)"
    and "view w n = Some p \<Longrightarrow> pv_name p = n"
    and "fst (delete_pv k w p) = Inr ()" and "view (snd (delete_pv k w p)) = (view w)(pv_name p := None)"
  using assms unfolding api_healthy_def by simp_all

text \<open>The volumes the reconciler takes back.\<close>

fun reclaimable :: "reconciler \<Rightarrow> pv option \<Rightarrow> bool" where
  "reclaimable r None = False"
| "reclaimable r (Some p) = (ours r p \<and> pv_phase p = ''Released'')"

definition paths_known :: "reconciler \<Rightarrow> (string \<rightharpoonup> pv) \<Rightarrow> bool" where
  "paths_known r V \<longleftrightarrow> (\<forall>m p. V m = Some p \<longrightarrow> ours r p \<longrightarrow> pv_local_path p \<noteq> None)"

lemma paths_known_mono: "paths_known r V \<Longrightarrow> V' \<subseteq>\<^sub>m V \<Longrightarrow> paths_known r V'"
  unfolding paths_known_def map_le_def by (metis domI)

lemma map_le_removed: "V(m := None) \<subseteq>\<^sub>m V"
  by (simp add: map_le_def)

lemma Reconcile_healthy:
  assumes "api_healthy k view" and "paths_known r (view w)"
  shows "\<not> reclaimable r (view w req) \<Longrightarrow> snd (Reconcile k del r req (w, ds)) = (w, ds)"
    and "view w req = Some p \<Longrightarrow> reclaimable r (Some p) \<Longrightarrow>
      \<exists>w' q. snd (Reconcile k del r req (w, ds)) = (w', snd (del q ds)) \<and> view w' = (view w)(req := None)
        \<and> pv_local_path p = Some q"
proof -
  show "\<not> reclaimable r (view w req) \<Longrightarrow> snd (Reconcile k del r req (w, ds)) = (w, ds)"
    by (auto simp: Reconcile_def api_healthyD(1) [OF assms(1)] ours_def split: option.split)
  assume p: "view w req = Some p" "reclaimable r (Some p)"
  then obtain q where q: "pv_local_path p = Some q" using assms(2) by (auto simp: paths_known_def)
  have "view (snd (delete_pv k w p)) = (view w)(req := None)"
    using api_healthyD(2,4) [OF assms(1)] p(1) by metis
  then show "\<exists>w' q. snd (Reconcile k del r req (w, ds)) = (w', snd (del q ds)) \<and> view w' = (view w)(req := None)
        \<and> pv_local_path p = Some q"
    using p q api_healthyD(3) [OF assms(1), of w p]
    by (auto simp: Reconcile_def api_healthyD(1) [OF assms(1)] ours_def split: prod.split sum.split)
qed

text \<open>The requests of a queue, in any order and with any repetition: exactly the volumes that are requested and
  reclaimable are gone, their devices are clean, and no other device is written.\<close>

context Deleter
begin

lemma process_view:
  assumes "api_healthy k view" and "paths_known r (view w)"
  shows "view (fst (process_requests k del r reqs (w, ds))) m
      = (if m \<in> set reqs \<and> reclaimable r (view w m) then None else view w m)"
  using assms(2)
proof (induction reqs arbitrary: w ds)
  case (Cons req reqs)
  show ?case
  proof (cases "reclaimable r (view w req)")
    case False
    then show ?thesis
      using Cons.IH [OF Cons.prems] Reconcile_healthy(1) [OF assms(1) Cons.prems]
      by (auto simp: process_requests_def)
  next
    case True
    then obtain p where p: "view w req = Some p" "reclaimable r (Some p)" by (cases "view w req") auto
    obtain w' q where w': "snd (Reconcile k del r req (w, ds)) = (w', snd (del q ds))" "view w' = (view w)(req := None)"
      using Reconcile_healthy(2) [OF assms(1) Cons.prems p] by blast
    have "paths_known r (view w')" using paths_known_mono [OF Cons.prems map_le_removed] w'(2) by simp
    from Cons.IH [OF this] w' True show ?thesis by (auto simp: process_requests_def)
  qed
qed (simp add: process_requests_def)

lemma process_clean_step:
  assumes "\<forall>f \<in> ran ds. ok_dev f"
  shows "\<forall>f \<in> ran (snd (process_requests k del r reqs (w, ds))). ok_dev f"
    and "dom (snd (process_requests k del r reqs (w, ds))) = dom ds"
    and "clean_at clean ds q \<Longrightarrow> clean_at clean (snd (process_requests k del r reqs (w, ds))) q"
proof -
  have one: "snd (snd (Reconcile k del r req (w, ds))) = ds \<or> (\<exists>q. snd (snd (Reconcile k del r req (w, ds))) = snd (del q ds))"
    for req w ds
    by (simp add: Reconcile_def case_prod_unfold split: sum.split option.split) metis
  have "(\<forall>f \<in> ran (snd (process_requests k del r reqs (w, ds))). ok_dev f)
      \<and> dom (snd (process_requests k del r reqs (w, ds))) = dom ds
      \<and> (clean_at clean ds q \<longrightarrow> clean_at clean (snd (process_requests k del r reqs (w, ds))) q)"
    using assms
  proof (induction reqs arbitrary: w ds)
    case (Cons req reqs)
    obtain w' ds' where r': "snd (Reconcile k del r req (w, ds)) = (w', ds')" by fastforce
    have "ds' = ds \<or> (\<exists>q. ds' = snd (del q ds))" using one [of req w ds] r' by auto
    then have "(\<forall>f \<in> ran ds'. ok_dev f) \<and> dom ds' = dom ds \<and> (clean_at clean ds q \<longrightarrow> clean_at clean ds' q)"
      using Cons.prems keeps_ok keeps_dom keeps_clean unfolding clean_at_def by blast
    with Cons.IH [of ds' w'] r' show ?case by (simp add: process_requests_def)
  qed (simp add: process_requests_def)
  then show "\<forall>f \<in> ran (snd (process_requests k del r reqs (w, ds))). ok_dev f"
    and "dom (snd (process_requests k del r reqs (w, ds))) = dom ds"
    and "clean_at clean ds q \<Longrightarrow> clean_at clean (snd (process_requests k del r reqs (w, ds))) q" by simp_all
qed

lemma process_cleans:
  assumes "api_healthy k view" and "paths_known r (view w)"
    and "\<forall>f \<in> ran ds. ok_dev f" and "\<And>ds q. \<forall>f \<in> ran ds. ok_dev f \<Longrightarrow> q \<in> dom ds \<Longrightarrow> fst (del q ds) = Inr ()"
    and "m \<in> set reqs" and "view w m = Some p" and "reclaimable r (Some p)" and "pv_local_path p = Some q" and "q \<in> dom ds"
  shows "clean_at clean (snd (process_requests k del r reqs (w, ds))) q"
proof -
  obtain xs ys where reqs: "reqs = xs @ m # ys" and "m \<notin> set xs" using split_list_first [OF assms(5)] by blast
  obtain w1 ds1 where one: "process_requests k del r xs (w, ds) = (w1, ds1)" by fastforce
  have view1: "view w1 m' = (if m' \<in> set xs \<and> reclaimable r (view w m') then None else view w m')" for m'
    using process_view [OF assms(1,2), of xs ds m'] one by simp
  then have vol: "view w1 m = Some p" using assms(6) \<open>m \<notin> set xs\<close> by simp
  have paths: "paths_known r (view w1)"
    by (rule paths_known_mono [OF assms(2)]) (auto simp: map_le_def view1)
  have devs: "\<forall>f \<in> ran ds1. ok_dev f" "dom ds1 = dom ds"
    using process_clean_step(1,2) [OF assms(3), of k r xs w] one by simp_all
  obtain w2 where two: "snd (Reconcile k del r m (w1, ds1)) = (w2, snd (del q ds1))"
    using Reconcile_healthy(2) [OF assms(1) paths vol assms(7)] assms(8) by auto
  have "clean_at clean (snd (del q ds1)) q"
    using cleans [OF devs(1) assms(4) [OF devs(1)], of q] devs(2) assms(9) by (simp add: clean_at_def)
  from process_clean_step(3) [OF keeps_ok [OF devs(1)] this] show ?thesis
    using one two by (simp add: reqs process_requests_def)
qed

lemma process_frame:
  assumes "api_healthy k view" and "paths_known r (view w)"
    and "\<And>m p. view w m = Some p \<Longrightarrow> reclaimable r (Some p) \<Longrightarrow> pv_local_path p \<noteq> Some q"
  shows "snd (process_requests k del r reqs (w, ds)) q = ds q"
  using assms(2,3)
proof (induction reqs arbitrary: w ds)
  case (Cons req reqs)
  show ?case
  proof (cases "reclaimable r (view w req)")
    case False
    then show ?thesis
      using Cons.IH [OF Cons.prems] Reconcile_healthy(1) [OF assms(1) Cons.prems(1)]
      by (auto simp: process_requests_def)
  next
    case True
    then obtain p where p: "view w req = Some p" "reclaimable r (Some p)" by (cases "view w req") auto
    obtain w' q' where w': "snd (Reconcile k del r req (w, ds)) = (w', snd (del q' ds))" "view w' = (view w)(req := None)"
        "pv_local_path p = Some q'"
      using Reconcile_healthy(2) [OF assms(1) Cons.prems(1) p] by blast
    have "paths_known r (view w')" using paths_known_mono [OF Cons.prems(1) map_le_removed] w'(2) by simp
    moreover have "pv_local_path p' \<noteq> Some q" if "view w' m' = Some p'" "reclaimable r (Some p')" for m' p'
      using that Cons.prems(2) w'(2) by (auto split: if_splits)
    ultimately have "snd (process_requests k del r reqs (w', snd (del q' ds))) q = snd (del q' ds) q"
      by (rule Cons.IH)
    moreover have "q \<noteq> q'" using Cons.prems(2) [OF p] w'(3) by auto
    ultimately show ?thesis using w'(1) frame by (simp add: process_requests_def)
  qed
qed (simp add: process_requests_def)

end

section \<open>Properties\<close>

text \<open>
  C5. Released volumes are reclaimed. When the API server answers and the devices work, one tick of the watcher,
  followed by the reconciler's handling of the resulting requests, in any order, with any repetition and mixed with
  requests from other events, removes exactly the Released volumes of this node from the API server, leaves only
  zeros in the label blocks of their devices, and writes to no other device.
\<close>

theorem released_volumes_reclaimed:
  assumes "api_healthy k view"
    and "\<forall>m p. view w m = Some p \<longrightarrow> ours r p \<longrightarrow> (\<exists>q. pv_local_path p = Some q \<and> q \<in> dom ds)"
    and "\<forall>f \<in> ran ds. small_dev d f" and "\<forall>q. no_faults (denv q)"
    and "watcher_Start k (NodeName r) [(Tick, w)] = (res, fired)"
    and "set (requests (map GenericEvent fired)) \<subseteq> set reqs"
    and "process_requests k (Delete d denv) r reqs (w, ds) = (w', ds')"
  shows "(\<forall>m. view w' m = (if reclaimable r (view w m) then None else view w m))
    \<and> (\<forall>m p q. view w m = Some p \<longrightarrow> reclaimable r (Some p) \<longrightarrow> pv_local_path p = Some q \<longrightarrow> clean_at (labels_zero d) ds' q)
    \<and> (\<forall>q. (\<forall>m p. view w m = Some p \<longrightarrow> reclaimable r (Some p) \<longrightarrow> pv_local_path p \<noteq> Some q) \<longrightarrow> ds' q = ds q)"
proof (intro conjI allI impI)
  have paths: "paths_known r (view w)" using assms(2) by (fastforce simp: paths_known_def)
  obtain ps where ps: "list_pvs k w lppLegacyLabelKey (NodeName r) = Inr ps"
      "\<And>n p. view w n = Some p \<Longrightarrow> pv_labels p lppLegacyLabelKey = Some (NodeName r) \<Longrightarrow> p \<in> set ps"
    using assms(1) unfolding api_healthy_def by meson
  have "fired = filter (\<lambda>p. pv_phase p = ''Released'') ps" using assms(5) ps(1) by (simp add: fireEvent_def)
  then have asked: "m \<in> set reqs" if "view w m = Some p" "reclaimable r (Some p)" for m p
  proof -
    have "pv_name p \<in> pv_name ` {p \<in> set ps. pv_phase p = ''Released''}" using that ps(2) by (simp add: ours_def)
    then show ?thesis
      using \<open>fired = _\<close> assms(6) api_healthyD(2) [OF assms(1) that(1)] by (auto simp: requests_def)
  qed
  show "view w' m = (if reclaimable r (view w m) then None else view w m)" for m
  proof -
    have "m \<in> set reqs" if "reclaimable r (view w m)" using that asked by (cases "view w m") auto
    then show ?thesis using fill.process_view [OF assms(1) paths, of d denv reqs ds m] assms(7) by simp
  qed
  show "clean_at (labels_zero d) ds' q"
    if p: "view w m = Some p" "reclaimable r (Some p)" "pv_local_path p = Some q" for m p q
  proof -
    have "q \<in> dom ds" using assms(2) p by (metis option.inject reclaimable.simps(2))
    moreover have "fst (Delete d denv q ds) = Inr ()" if "\<forall>f \<in> ran ds. small_dev d f" "q \<in> dom ds" for ds q
      using that assms(4) by (auto intro: Delete_succeeds ranI)
    ultimately show ?thesis
      using fill.process_cleans [OF assms(1) paths assms(3) _ asked [OF p(1,2)] p, of denv] assms(7) by simp
  qed
  show "ds' q = ds q" if "\<forall>m p. view w m = Some p \<longrightarrow> reclaimable r (Some p) \<longrightarrow> pv_local_path p \<noteq> Some q" for q
    using that fill.process_frame [OF assms(1) paths, of q d denv reqs ds] assms(7) by simp
qed

text \<open>A released and a bound volume of the node; the request for the second comes from an update event.\<close>

definition bound1 :: pv where
  "bound1 = (blank_pv ''local-node1-sdb'')\<lparr>pv_labels := [lppLegacyLabelKey \<mapsto> ''node1''],
     pv_phase := ''Bound'', pv_local_path := Some ''/dev/sdb''\<rparr>"

definition disks1 :: devices where
  "disks1 = [''/dev/sda'' \<mapsto> small_example, ''/dev/sdb'' \<mapsto> small_example]"

lemma list_client_healthy: "api_healthy (list_client n cm) find_pv"
  unfolding api_healthy_def
proof (intro conjI allI impI)
  show "find_pv (snd (delete_pv (list_client n cm) w p)) = (find_pv w)(pv_name p := None)" for w p
    by (rule ext) (simp add: list_client_def find_pv_del)
  show "\<exists>ps. list_pvs (list_client n cm) w key v = Inr ps
      \<and> (\<forall>n p. find_pv w n = Some p \<longrightarrow> pv_labels p key = Some v \<longrightarrow> p \<in> set ps)" for w key v
    by (auto simp: list_client_def find_pv_def find_Some_iff)
qed (simp_all add: list_client_def find_pv_name)

lemma disk_paths: "pv_local_path released1 = Some ''/dev/sda''" "pv_local_path bound1 = Some ''/dev/sdb''"
  by (simp_all add: released1_def bound1_def)

lemma disk_volumes:
  "find_pv [released1, bound1] m = (if m = ''local-node1-sda'' then Some released1
     else if m = ''local-node1-sdb'' then Some bound1 else None)"
  by (auto simp: find_pv_def released1_def bound1_def blank_pv_def)

theorem released_volumes_reclaimed_witness:
  "\<exists>w' ds'. process_requests (list_client node1 block_spec) (Delete fill1 (\<lambda>_. quiet_env)) \<lparr>NodeName = ''node1''\<rparr>
        (requests [UpdateEvent bound1 bound1, DeleteEvent bound1, GenericEvent released1, CreateEvent released1])
        ([released1, bound1], disks1) = (w', ds')
     \<and> find_pv w' ''local-node1-sda'' = None \<and> find_pv w' ''local-node1-sdb'' = Some bound1
     \<and> clean_at (labels_zero fill1) ds' ''/dev/sda'' \<and> ds' ''/dev/sdb'' = Some small_example"
proof -
  let ?k = "list_client node1 block_spec" and ?r = "\<lparr>NodeName = ''node1''\<rparr>" and ?w = "[released1, bound1]"
  let ?reqs = "requests [UpdateEvent bound1 bound1, DeleteEvent bound1, GenericEvent released1, CreateEvent released1]"
  obtain w' ds' where run: "process_requests ?k (Delete fill1 (\<lambda>_. quiet_env)) ?r ?reqs (?w, disks1) = (w', ds')" by fastforce
  have volumes: "\<forall>m p. find_pv ?w m = Some p \<longrightarrow> ours ?r p \<longrightarrow> (\<exists>q. pv_local_path p = Some q \<and> q \<in> dom disks1)"
    unfolding disk_volumes by (auto simp: disks1_def disk_paths split: if_splits)
  have small: "\<forall>f \<in> ran disks1. small_dev fill1 f"
    by (auto simp: ran_def disks1_def small_dev_def small_example_def file_size_def fill1_def split: if_splits)
  have quiet: "\<forall>q. no_faults ((\<lambda>_. quiet_env) q)" by (simp add: no_faults_def quiet_env_def)
  have fired: "watcher_Start ?k (NodeName ?r) [(Tick, ?w)] = (None, [released1])"
    by (simp add: fireEvent_def list_client_def released1_def bound1_def)
  have "set (requests (map GenericEvent [released1])) \<subseteq> set ?reqs" by (simp add: requests_def)
  note all = released_volumes_reclaimed [OF list_client_healthy volumes small quiet fired this run]
  have rec: "reclaimable ?r (Some released1)" "\<not> reclaimable ?r (Some bound1)"
    by (simp_all add: ours_def released1_def bound1_def)
  have "find_pv w' ''local-node1-sda'' = None" "find_pv w' ''local-node1-sdb'' = Some bound1"
    using conjunct1 [OF all] rec by (simp_all add: disk_volumes)
  moreover have "clean_at (labels_zero fill1) ds' ''/dev/sda''"
    using conjunct1 [OF conjunct2 [OF all]] rec(1) disk_volumes [of "''local-node1-sda''"] disk_paths(1) by auto
  moreover have "\<forall>m p. find_pv ?w m = Some p \<longrightarrow> reclaimable ?r (Some p) \<longrightarrow> pv_local_path p \<noteq> Some ''/dev/sdb''"
    unfolding disk_volumes using rec(2) by (auto simp: disk_paths split: if_splits)
  then have "ds' ''/dev/sdb'' = Some small_example" using conjunct2 [OF conjunct2 [OF all]] by (simp add: disks1_def)
  ultimately show ?thesis using run by blast
qed

end
