(* ===== verification/Go_Net.thy ===== *)
theory Go_Net
  imports Prelude "HOL-Library.Word"
begin

unbundle bit_operations_syntax

text \<open>
  The part of Go's package \<open>net\<close> that the modelled code calls: addresses and networks as byte
  lists, the text parsers \<open>ParseIP\<close>, \<open>ParseCIDR\<close> and \<open>SplitHostPort\<close>, and
  \<open>IPNet.Contains\<close>. The lemmas relate the byte-wise mask comparison to the bits of the address prefix.
\<close>

section \<open>Addresses and networks\<close>

text \<open>\<open>net.IP\<close>: 4 or 16 bytes. An IPv4 address also has the 16-byte form with a fixed prefix.\<close>

type_synonym ip = "8 word list"

record ipnet =
  net_ip :: ip
  net_mask :: "8 word list"

definition v4InV6Prefix :: ip where
  "v4InV6Prefix = [0, 0, 0, 0, 0, 0, 0, 0, 0, 0, 255, 255]"

definition to4 :: "ip \<Rightarrow> ip option" where
  "to4 x = (if length x = 4 then Some x
            else if length x = 16 \<and> take 12 x = v4InV6Prefix then Some (drop 12 x) else None)"

definition to16 :: "ip \<Rightarrow> ip" where
  "to16 x = (if length x = 4 then v4InV6Prefix @ x else x)"

text \<open>\<open>CIDRMask(ones, bits)\<close>, byte by byte.\<close>

fun cidr_mask :: "nat \<Rightarrow> nat \<Rightarrow> 8 word list" where
  "cidr_mask n 0 = []"
| "cidr_mask n (Suc l) =
     (if 8 \<le> n then 255 # cidr_mask (n - 8) l else NOT (drop_bit n 255) # cidr_mask 0 l)"

definition mask_ip :: "ip \<Rightarrow> 8 word list \<Rightarrow> ip" where
  "mask_ip x m = map2 (AND) x m"

definition cidr_net :: "ip \<Rightarrow> nat \<Rightarrow> ipnet" where
  "cidr_net x n = (let m = cidr_mask n (length x) in \<lparr>net_ip = mask_ip x m, net_mask = m\<rparr>)"

text \<open>The address a comparison looks at: the four bytes of an IPv4 address in either form.\<close>

definition norm_ip :: "ip \<Rightarrow> ip" where
  "norm_ip y = (case to4 y of Some z \<Rightarrow> z | None \<Rightarrow> y)"

text \<open>The network number and the mask of \<open>networkNumberAndMask\<close>: a network of IPv4 addresses in 16-byte form is one of IPv4
  addresses. \<^term>\<open>None\<close> when the lengths do not fit.\<close>

definition number_and_mask :: "ipnet \<Rightarrow> (ip \<times> 8 word list) option" where
  "number_and_mask n =
     (let nn = norm_ip (net_ip n); m = net_mask n in
      if length nn \<noteq> 4 \<and> length nn \<noteq> 16 then None
      else if length m = 4 then (if length nn = 4 then Some (nn, m) else None)
      else if length m = 16 then Some (nn, if length nn = 4 then drop 12 m else m)
      else None)"

text \<open>\<open>IPNet.Contains\<close>. The nil number of a network that does not fit has length 0, as only a nil address has.\<close>

definition ipnet_contains :: "ipnet \<Rightarrow> ip \<Rightarrow> bool" where
  "ipnet_contains n x =
     (case number_and_mask n of
        None \<Rightarrow> x = []
      | Some (nn, m) \<Rightarrow>
          length (norm_ip x) = length nn
          \<and> list_all (\<lambda>(a, m, b). a AND m = b AND m) (zip nn (zip m (norm_ip x))))"

section \<open>Printing\<close>

text \<open>
  \<open>IP.String\<close>: dotted decimal for an IPv4 address in either form; for IPv6 lower-case hexadecimal groups with the
  first longest run of at least two zero groups written \<open>::\<close>.
\<close>

definition hex_char :: "nat \<Rightarrow> char" where
  "hex_char d = (if d < 10 then char_of (48 + d) else char_of (87 + d))"

fun show_hex :: "nat \<Rightarrow> string" where
  "show_hex n = (if n < 16 then [hex_char n] else show_hex (n div 16) @ [hex_char (n mod 16)])"

declare show_hex.simps [simp del]

fun ipv6_words :: "8 word list \<Rightarrow> nat list" where
  "ipv6_words (a # b # xs) = (256 * unat a + unat b) # ipv6_words xs"
| "ipv6_words _ = []"

definition zero_run :: "nat list \<Rightarrow> nat \<Rightarrow> nat" where
  "zero_run gs i = length (takeWhile (\<lambda>g. g = 0) (drop i gs))"

definition best_run :: "nat list \<Rightarrow> (nat \<times> nat) option" where
  "best_run gs =
     foldl (\<lambda>b i. let l = zero_run gs i
                  in if 2 \<le> l \<and> (case b of None \<Rightarrow> True | Some (_, k) \<Rightarrow> k < l) then Some (i, l) else b)
       None [0..<length gs]"

definition ip_string :: "ip \<Rightarrow> string" where
  "ip_string x =
     (case to4 x of
        Some y \<Rightarrow> join ''.'' (map (\<lambda>b. show_nat (unat b)) y)
      | None \<Rightarrow>
          let gs = ipv6_words x in
          (case best_run gs of
             None \<Rightarrow> join '':'' (map show_hex gs)
           | Some (i, l) \<Rightarrow> join '':'' (map show_hex (take i gs)) @ ''::'' @ join '':'' (map show_hex (drop (i + l) gs))))"

section \<open>Parsing\<close>

text \<open>A field of a dotted address: decimal, no leading zero, at most 255.\<close>

definition parse_octet :: "string \<Rightarrow> 8 word option" where
  "parse_octet s =
     (if s = [] \<or> \<not> list_all is_digit s \<or> (1 < length s \<and> hd s = CHR ''0'') \<or> 255 < read_nat s
      then None else Some (of_nat (read_nat s)))"

fun option_all :: "'a option list \<Rightarrow> 'a list option" where
  "option_all [] = Some []"
| "option_all (None # xs) = None"
| "option_all (Some x # xs) = map_option (\<lambda>ys. x # ys) (option_all xs)"

definition parse_ipv4 :: "string \<Rightarrow> ip option" where
  "parse_ipv4 s =
     (let fs = split_on CHR ''.'' s
      in if length fs = 4 then option_all (map parse_octet fs) else None)"

definition hex_val :: "char \<Rightarrow> nat option" where
  "hex_val c =
     (let n = of_char c :: nat
      in if is_digit c then Some (n - 48)
         else if 97 \<le> n \<and> n \<le> 102 then Some (n - 87)
         else if 65 \<le> n \<and> n \<le> 70 then Some (n - 55) else None)"

definition read_hex :: "string \<Rightarrow> nat" where
  "read_hex s = foldl (\<lambda>n c. 16 * n + (case hex_val c of Some v \<Rightarrow> v | None \<Rightarrow> 0)) 0 s"

text \<open>
  The group loop of the IPv6 parser. \<open>acc\<close> are the bytes so far, \<open>ell\<close> the place of the ellipsis.
  The result is the rest of the text with the final bytes and ellipsis; \<open>None\<close> is a parse error.
  The fuel bounds the number of groups; eight groups fill an address.
\<close>

fun ipv6_groups ::
  "nat \<Rightarrow> string \<Rightarrow> ip \<Rightarrow> nat option \<Rightarrow> (string \<times> ip \<times> nat option) option" where
  "ipv6_groups 0 s acc ell = Some (s, acc, ell)"
| "ipv6_groups (Suc n) s acc ell =
     (if 16 \<le> length acc then Some (s, acc, ell)
      else let h = takeWhile (\<lambda>c. hex_val c \<noteq> None) s; r = drop (length h) s
      in if h = [] \<or> 4 < length h then None
         else if r \<noteq> [] \<and> hd r = CHR ''.'' then
           (if (ell = None \<and> length acc \<noteq> 12) \<or> 16 < length acc + 4 then None
            else map_option (\<lambda>b. ([], acc @ b, ell)) (parse_ipv4 s))
         else let acc' = acc @ [of_nat (read_hex h div 256), of_nat (read_hex h mod 256)]
         in if r = [] then Some ([], acc', ell)
            else if hd r \<noteq> CHR '':'' \<or> length r = 1 then None
            else let r' = tl r
            in if hd r' = CHR '':'' then
                 (if ell \<noteq> None then None
                  else if tl r' = [] then Some ([], acc', Some (length acc'))
                  else ipv6_groups n (tl r') acc' (Some (length acc')))
               else ipv6_groups n r' acc' ell)"

definition ipv6_expand :: "string \<times> ip \<times> nat option \<Rightarrow> ip option" where
  "ipv6_expand = (\<lambda>(s, acc, ell).
     if s \<noteq> [] then None
     else case ell of
       None \<Rightarrow> if length acc = 16 then Some acc else None
     | Some e \<Rightarrow> if length acc < 16
                 then Some (take e acc @ replicate (16 - length acc) 0 @ drop e acc) else None)"

text \<open>The address without its zone: the callers reject addresses that have one.\<close>

definition parse_ipv6 :: "string \<Rightarrow> ip option" where
  "parse_ipv6 s =
     (if take 2 s = ''::'' then
        (if drop 2 s = [] then Some (replicate 16 0)
         else Option.bind (ipv6_groups 9 (drop 2 s) [] (Some 0)) ipv6_expand)
      else Option.bind (ipv6_groups 9 s [] None) ipv6_expand)"

text \<open>\<open>netip.ParseAddr\<close> restricted to addresses without a zone; IPv4 gives 4 bytes.\<close>

definition parse_addr :: "string \<Rightarrow> ip option" where
  "parse_addr s =
     (case dropWhile (\<lambda>c. c \<noteq> CHR ''.'' \<and> c \<noteq> CHR '':'' \<and> c \<noteq> CHR ''%'') s of
        [] \<Rightarrow> None
      | c # _ \<Rightarrow> if c = CHR ''.'' then parse_ipv4 s
                 else if c = CHR '':'' then (if CHR ''%'' \<in> set s then None else parse_ipv6 s)
                 else None)"

text \<open>\<open>net.ParseIP\<close> returns the 16-byte form.\<close>

definition ParseIP :: "string \<Rightarrow> ip option" where
  "ParseIP s = map_option to16 (parse_addr s)"

definition ParseCIDR :: "string \<Rightarrow> ipnet option" where
  "ParseCIDR s =
     (case str_cut CHR ''/'' s of
        None \<Rightarrow> None
      | Some (a, m) \<Rightarrow>
          (case parse_addr a of
             None \<Rightarrow> None
           | Some x \<Rightarrow>
               if m = [] \<or> \<not> list_all is_digit m \<or> 8 * length x < read_nat m then None
               else Some (cidr_net x (read_nat m))))"

text \<open>\<open>net.SplitHostPort\<close>.\<close>

definition last_colon :: "string \<Rightarrow> (string \<times> string) option" where
  "last_colon s = map_option (\<lambda>(a, b). (rev b, rev a)) (str_cut CHR '':'' (rev s))"

definition SplitHostPort :: "string \<Rightarrow> (string \<times> string) option" where
  "SplitHostPort s =
     (case last_colon s of
        None \<Rightarrow> None
      | Some (before, port) \<Rightarrow>
          if hd s = CHR ''['' then
            (case str_cut CHR '']'' s of
               None \<Rightarrow> None
             | Some (h, rest) \<Rightarrow>
                 if h @ '']'' \<noteq> before then None
                 else if CHR ''['' \<in> set (tl s) \<or> CHR '']'' \<in> set rest then None
                 else Some (tl h, port))
          else if CHR '':'' \<in> set before \<or> CHR ''['' \<in> set s \<or> CHR '']'' \<in> set s then None
          else Some (before, port))"

section \<open>Prefix bits\<close>

text \<open>Bit \<open>j\<close> of an address, the most significant bit of the first byte being bit 0.\<close>

definition addr_bit :: "ip \<Rightarrow> nat \<Rightarrow> bool" where
  "addr_bit x j = bit (x ! (j div 8)) (7 - j mod 8)"

lemma length_cidr_mask [simp]: "length (cidr_mask n l) = l"
  by (induction n l rule: cidr_mask.induct) auto

lemma byte_mask: "(255 :: 8 word) = mask 8"
  by (simp add: mask_eq_exp_minus_1)

lemma bit_prefix_mask: "b < 8 \<Longrightarrow> n < 8 \<Longrightarrow> bit (NOT (drop_bit n 255) :: 8 word) b \<longleftrightarrow> 7 - b < n"
  by (auto simp: byte_mask bit_simps)

lemma bit_full: "b < 8 \<Longrightarrow> bit (255 :: 8 word) b"
  by (simp add: byte_mask bit_simps)

lemma bit_cidr_mask:
  "i < l \<Longrightarrow> b < 8 \<Longrightarrow> bit (cidr_mask n l ! i) b \<longleftrightarrow> 8 * i + (7 - b) < n"
proof (induction n l arbitrary: i rule: cidr_mask.induct)
  case (1 n)
  then show ?case by simp
next
  case (2 n l)
  show ?case
  proof (cases i)
    case 0
    show ?thesis
    proof (cases "8 \<le> n")
      case True
      then have "7 - b < n" by linarith
      with True 0 bit_full [OF "2.prems"(2)] show ?thesis by (simp del: bit_numeral_rec)
    next
      case False
      with 0 bit_prefix_mask [of b n] "2.prems"(2) show ?thesis by simp
    qed
  next
    case (Suc j)
    with 2 show ?thesis by (cases "8 \<le> n") auto
  qed
qed

lemma and_eq_iff_bits:
  fixes a b m :: "8 word"
  shows "a AND m = b AND m \<longleftrightarrow> (\<forall>k < 8. bit m k \<longrightarrow> bit a k = bit b k)"
  by (auto simp: bit_eq_iff bit_simps)

lemma all_bits_iff:
  fixes n l :: nat
  shows "(\<forall>i < l. \<forall>k < 8. 8 * i + (7 - k) < n \<longrightarrow> P i k) \<longleftrightarrow> (\<forall>j < min n (8 * l). P (j div 8) (7 - j mod 8))"
proof (intro iffI allI impI)
  fix j assume h: "\<forall>i < l. \<forall>k < 8. 8 * i + (7 - k) < n \<longrightarrow> P i k" and j: "j < min n (8 * l)"
  have "j div 8 < l" "7 - j mod 8 < 8" "8 * (j div 8) + (7 - (7 - j mod 8)) = j" using j by auto
  then show "P (j div 8) (7 - j mod 8)" using h j by auto
next
  fix i k assume h: "\<forall>j < min n (8 * l). P (j div 8) (7 - j mod 8)"
    and i: "i < l" "k < 8" "8 * i + (7 - k) < n"
  let ?j = "8 * i + (7 - k)"
  have "?j < min n (8 * l)" using i by auto
  moreover have "?j div 8 = i" "?j mod 8 = 7 - k" by (simp_all del: diff_diff_left add: div_add1_eq mod_add_left_eq [symmetric])
  moreover have "7 - (7 - k) = k" using i(2) by simp
  ultimately have "?j < min n (8 * l)" "?j div 8 = i" "7 - ?j mod 8 = k" by simp_all
  then show "P i k" using h by metis
qed

text \<open>The family, the address and the length of the prefix that an address text and a length stand for.\<close>

definition cidr_prefix :: "ip \<Rightarrow> nat \<Rightarrow> ip \<times> nat" where
  "cidr_prefix x k =
     (case to4 x of Some z \<Rightarrow> if length x = 16 then (if 96 \<le> k then (z, k - 96) else (x, k)) else (x, k) | None \<Rightarrow> (x, k))"

text \<open>The addresses of a prefix: those of its family with the same leading bits.\<close>

definition in_prefix :: "ip \<times> nat \<Rightarrow> ip \<Rightarrow> bool" where
  "in_prefix p y \<longleftrightarrow>
     length (norm_ip y) = length (fst p) \<and> list_all (\<lambda>j. addr_bit (fst p) j = addr_bit (norm_ip y) j) [0 ..< snd p]"

lemma masked_bits:
  assumes "n \<le> 8 * length x" and "length y = length x"
  shows "list_all (\<lambda>(a, m, b). a AND m = b AND m) (zip (mask_ip x (cidr_mask n (length x))) (zip (cidr_mask n (length x)) y))
    \<longleftrightarrow> (\<forall>j < n. addr_bit x j = addr_bit y j)"
proof -
  let ?m = "cidr_mask n (length x)"
  have "list_all (\<lambda>(a, m, b). a AND m = b AND m) (zip (mask_ip x ?m) (zip ?m y)) \<longleftrightarrow>
      (\<forall>i < length x. (x ! i AND ?m ! i) AND ?m ! i = y ! i AND ?m ! i)"
    using assms(2) by (auto simp: mask_ip_def list_all_length)
  also have "\<dots> \<longleftrightarrow> (\<forall>i < length x. \<forall>k < 8. 8 * i + (7 - k) < n \<longrightarrow> bit (x ! i) k = bit (y ! i) k)"
    by (auto simp: and_eq_iff_bits bit_cidr_mask bit_simps)
  also have "\<dots> \<longleftrightarrow> (\<forall>j < n. addr_bit x j = addr_bit y j)"
    unfolding all_bits_iff using assms(1) by (auto simp: addr_bit_def min_def)
  finally show ?thesis .
qed

lemma cidr_mask_split: "8 * a \<le> n \<Longrightarrow> cidr_mask n (a + b) = replicate a 255 @ cidr_mask (n - 8 * a) b"
  by (induction a arbitrary: n) auto

lemma and_full: "(b :: 8 word) AND 255 = b"
  by (rule bit_word_eqI) (simp add: byte_mask bit_simps)

lemma mask_full: "map2 (AND) (x :: ip) (replicate (length x) 255) = x"
  by (rule nth_equalityI) (simp_all add: and_full)

lemma mask_take: "take a (map2 f x y) = map2 f (take a x) (take a y)"
  by (simp add: take_map take_zip)

lemma mask_drop: "drop a (map2 f x y) = map2 f (drop a x) (drop a y)"
  by (simp add: drop_map drop_zip)

lemma length_mask_ip [simp]: "length (mask_ip x (cidr_mask k (length x))) = length x"
  by (simp add: mask_ip_def)

text \<open>A masked 16-byte address is one of an IPv4 address when the unmasked one is and the mask covers the fixed prefix.\<close>

lemma masked_long:
  assumes "96 \<le> k" and "length x = 16"
  shows "take 12 (mask_ip x (cidr_mask k 16)) = take 12 x"
    and "drop 12 (mask_ip x (cidr_mask k 16)) = mask_ip (drop 12 x) (cidr_mask (k - 96) 4)"
    and "drop 12 (cidr_mask k 16) = cidr_mask (k - 96) 4"
proof -
  have m: "cidr_mask k 16 = replicate 12 255 @ cidr_mask (k - 96) 4" using cidr_mask_split [of 12 k 4] assms(1) by simp
  show "take 12 (mask_ip x (cidr_mask k 16)) = take 12 x"
    using mask_full [of "take 12 x"] assms(2) by (simp add: m mask_ip_def mask_take)
  show "drop 12 (mask_ip x (cidr_mask k 16)) = mask_ip (drop 12 x) (cidr_mask (k - 96) 4)"
    by (simp add: m mask_ip_def mask_drop)
  show "drop 12 (cidr_mask k 16) = cidr_mask (k - 96) 4" by (simp add: m)
qed

lemma masked_short:
  assumes "k < 96" and "length x = 16"
  shows "to4 (mask_ip x (cidr_mask k 16)) = None"
proof -
  have "\<not> bit (mask_ip x (cidr_mask k 16) ! 11) 0"
    using bit_cidr_mask [of 11 16 0 k] assms by (simp add: mask_ip_def bit_simps)
  moreover have "bit (v4InV6Prefix ! 11) 0" by (simp add: v4InV6Prefix_def)
  moreover have "take 12 xs ! 11 = xs ! 11" for xs :: ip by simp
  ultimately have "take 12 (mask_ip x (cidr_mask k 16)) \<noteq> v4InV6Prefix" by metis
  then show ?thesis using assms(2) by (simp add: to4_def mask_ip_def)
qed

lemma cidr_number:
  assumes "k \<le> 8 * length x" and "length x = 4 \<or> length x = 16" and "cidr_prefix x k = (z, l)"
  shows "number_and_mask (cidr_net x k) = Some (mask_ip z (cidr_mask l (length z)), cidr_mask l (length z))" and "l \<le> 8 * length z"
proof -
  consider "length x = 4" | "length x = 16" "k < 96" | "length x = 16" "96 \<le> k" "take 12 x = v4InV6Prefix"
    | "length x = 16" "96 \<le> k" "take 12 x \<noteq> v4InV6Prefix" using assms(2) by linarith
  then have "number_and_mask (cidr_net x k) = Some (mask_ip z (cidr_mask l (length z)), cidr_mask l (length z)) \<and> l \<le> 8 * length z"
  proof cases
    case 1
    then show ?thesis
      using assms by (simp add: number_and_mask_def cidr_net_def Let_def norm_ip_def to4_def cidr_prefix_def mask_ip_def)
  next
    case 2
    moreover have "z = x" "l = k" using 2 assms(3) by (auto simp: cidr_prefix_def split: option.splits if_splits)
    ultimately show ?thesis
      using assms(1) masked_short [of k x] by (simp add: number_and_mask_def cidr_net_def Let_def norm_ip_def) (simp add: mask_ip_def)
  next
    case 3
    moreover have "z = drop 12 x" "l = k - 96" using 3 assms(3) by (auto simp: cidr_prefix_def to4_def)
    ultimately show ?thesis
      using assms(1) masked_long [OF 3(2,1)]
      by (simp add: number_and_mask_def cidr_net_def Let_def norm_ip_def to4_def) (simp add: mask_ip_def)
  next
    case 4
    moreover have "z = x" "l = k" using 4 assms(3) by (auto simp: cidr_prefix_def to4_def)
    ultimately show ?thesis
      using assms(1) masked_long [OF 4(2,1)]
      by (simp add: number_and_mask_def cidr_net_def Let_def norm_ip_def to4_def) (simp add: mask_ip_def)
  qed
  then show "number_and_mask (cidr_net x k) = Some (mask_ip z (cidr_mask l (length z)), cidr_mask l (length z))"
    and "l \<le> 8 * length z" by blast+
qed

text \<open>A parsed network contains exactly the addresses of its prefix.\<close>

lemma cidr_net_contains:
  assumes "k \<le> 8 * length x" and "length x = 4 \<or> length x = 16"
  shows "ipnet_contains (cidr_net x k) y \<longleftrightarrow> in_prefix (cidr_prefix x k) y"
proof -
  obtain z l where p: "cidr_prefix x k = (z, l)" by fastforce
  note n = cidr_number [OF assms p]
  show ?thesis
    using n(1) masked_bits [OF n(2), of "norm_ip y"]
    by (auto simp: ipnet_contains_def in_prefix_def p list_all_iff)
qed

lemma cidr_prefix_v4: "length x = 4 \<Longrightarrow> cidr_prefix x k = (x, k)"
  by (simp add: cidr_prefix_def to4_def)

section \<open>Lengths and printed addresses\<close>

lemma length_option_all: "option_all xs = Some ys \<Longrightarrow> length ys = length xs"
  by (induction xs arbitrary: ys rule: option_all.induct) auto

lemma length_parse_ipv4: "parse_ipv4 s = Some x \<Longrightarrow> length x = 4"
  by (auto simp: parse_ipv4_def Let_def split: if_splits dest: length_option_all)

lemma length_ipv6_expand: "ipv6_expand r = Some x \<Longrightarrow> length x = 16"
  by (cases r) (auto simp: ipv6_expand_def split: if_splits option.splits)

lemma length_parse_ipv6: "parse_ipv6 s = Some x \<Longrightarrow> length x = 16"
  by (auto simp: parse_ipv6_def bind_eq_Some_conv split: if_splits dest: length_ipv6_expand)

lemma length_parse_addr: "parse_addr s = Some x \<Longrightarrow> length x = 4 \<or> length x = 16"
  by (auto simp: parse_addr_def split: list.splits if_splits dest: length_parse_ipv4 length_parse_ipv6)

lemma show_nat_hd: "show_nat n = CHR ''0'' # t \<Longrightarrow> t = []"
proof (induction n arbitrary: t rule: show_nat.induct)
  case (1 n)
  show ?case
  proof (cases "n < 10")
    case True
    then show ?thesis using "1.prems" by (simp add: show_nat.simps [of n])
  next
    case False
    then obtain u where "show_nat (n div 10) = CHR ''0'' # u"
      using "1.prems" show_nat.simps [of n] by (metis append_eq_Cons_conv show_nat_ne)
    then have "show_nat (n div 10) = [CHR ''0'']" using "1.IH" [OF False] by blast
    then have "n div 10 = 0" using read_show_nat [of "n div 10"] by (simp add: read_nat_def digit_val_def)
    then show ?thesis using False by simp
  qed
qed

lemma parse_octet_show: "parse_octet (show_nat (unat (b :: 8 word))) = Some b"
proof -
  have "unat b < 256" using unsigned_less [of b, where 'a = nat] by simp
  moreover have "\<not> (1 < length (show_nat n) \<and> hd (show_nat n) = CHR ''0'')" for n
    using show_nat_hd [of n] by (cases "show_nat n") auto
  ultimately show ?thesis by (auto simp: parse_octet_def show_nat_digits)
qed

lemma digit_not_sep: "list_all is_digit s \<Longrightarrow> \<not> is_digit c \<Longrightarrow> c \<notin> set s"
  by (auto simp: list_all_iff)

lemma show_nat_no_sep: "\<not> is_digit c \<Longrightarrow> c \<notin> set (show_nat n)"
  by (rule digit_not_sep [OF show_nat_digits])

text \<open>The dotted text of an IPv4 address is read back.\<close>

lemma parse_ip_string:
  assumes "length (x :: ip) = 4"
  shows "parse_addr (ip_string x) = Some x"
proof -
  obtain a b c d where x: "x = [a, b, c, d]" using assms by (auto simp: length_Suc_conv numeral_eq_Suc)
  let ?t = "\<lambda>w :: 8 word. show_nat (unat w)"
  have dot: "CHR ''.'' \<notin> set (?t w)" "CHR '':'' \<notin> set (?t w)" "CHR ''%'' \<notin> set (?t w)" for w
    by (rule show_nat_no_sep, simp add: is_digit_def)+
  have s: "ip_string x = ?t a @ CHR ''.'' # (?t b @ CHR ''.'' # (?t c @ CHR ''.'' # ?t d))"
    by (simp add: ip_string_def to4_def x)
  have "split_on CHR ''.'' (ip_string x) = [?t a, ?t b, ?t c, ?t d]"
    unfolding s using dot by (simp add: split_on_append split_on_no_sep)
  then have "parse_ipv4 (ip_string x) = Some x" by (simp add: parse_ipv4_def parse_octet_show x)
  moreover have "dropWhile (\<lambda>c. c \<noteq> CHR ''.'' \<and> c \<noteq> CHR '':'' \<and> c \<noteq> CHR ''%'') (ip_string x)
      = CHR ''.'' # (?t b @ CHR ''.'' # (?t c @ CHR ''.'' # ?t d))"
    unfolding s using dot [of a] by (subst dropWhile_append2) auto
  ultimately show ?thesis by (simp add: parse_addr_def)
qed

text \<open>The fuel is enough: each group adds two bytes, so more than eight groups are never read.\<close>

lemma ipv6_groups_fuel:
  "16 \<le> length acc + 2 * n \<Longrightarrow> ipv6_groups (n + k) s acc ell = ipv6_groups n s acc ell"
proof (induction n arbitrary: s acc ell)
  case 0
  then show ?case by (cases k) simp_all
next
  case (Suc n)
  then have "ipv6_groups (n + k) s' (acc @ [a, b]) ell' = ipv6_groups n s' (acc @ [a, b]) ell'" for s' a b ell'
    by simp
  then show ?case by (simp add: Let_def)
qed

lemma to4_to16: "length x = 4 \<Longrightarrow> to4 (to16 x) = Some x"
  by (simp add: to4_def to16_def v4InV6Prefix_def)

lemma to16_same_decision: "length x \<in> {4, 16} \<Longrightarrow> ipnet_contains n (to16 x) = ipnet_contains n x"
proof (cases "length x = 4")
  case True
  then have "norm_ip (to16 x) = norm_ip x" by (simp add: norm_ip_def to4_to16) (simp add: to4_def)
  moreover have "to16 x \<noteq> []" "x \<noteq> []" using True by (auto simp: to16_def)
  ultimately show ?thesis by (auto simp: ipnet_contains_def split: option.splits)
next
  case False
  then show ?thesis by (simp add: to16_def)
qed

end
