(* ===== verification/S3gw.thy ===== *)
theory S3gw
  imports Go_Net
begin

text \<open>
  The S3 gateway s3gw: the address based access control of \<open>allow_deny.go\<close>, the request handlers of
  \<open>handler.go\<close> and the dispatch and environment checks of \<open>main.go\<close>.

  The S3 client and the transfer manager are the fields of \<open>s3_client\<close>, functions on an abstract bucket
  state; \<open>json.Marshal\<close> of a listing is the argument \<open>marshal\<close>. A handler returns the response it
  writes and the new bucket state; the instrumentation around the handlers is in the theory S3gw_Main.
\<close>

section \<open>Access control\<close>

record AllowDeny =
  allowed :: "ipnet list"
  denied :: "ipnet list"

datatype acl_err = BadCIDR string string

fun parse_cidr_list :: "string list \<Rightarrow> string \<Rightarrow> ipnet list \<Rightarrow> (acl_err, ipnet list) result" where
  "parse_cidr_list [] name nets = Inr nets"
| "parse_cidr_list (x # xs) name nets =
     (let s = trim_by (\<lambda>c. c = CHR '' '') x
      in if s = [] then parse_cidr_list xs name nets
         else case ParseCIDR s of
                None \<Rightarrow> Inl (BadCIDR name s)
              | Some n \<Rightarrow> parse_cidr_list xs name (nets @ [n]))"

definition parseCIDRs :: "string \<Rightarrow> string \<Rightarrow> (acl_err, ipnet list) result" where
  "parseCIDRs cidrs name = parse_cidr_list (split_on CHR '','' cidrs) name []"

definition ParseAllowDeny :: "string \<Rightarrow> string \<Rightarrow> (acl_err, AllowDeny) result" where
  "ParseAllowDeny al dn =
     (case parseCIDRs al ''allowed'' of
        Inl e \<Rightarrow> Inl e
      | Inr a \<Rightarrow>
          (case parseCIDRs dn ''denied'' of
             Inl e \<Rightarrow> Inl e
           | Inr d \<Rightarrow> Inr \<lparr>allowed = a, denied = d\<rparr>))"

fun any_contains :: "ipnet list \<Rightarrow> ip \<Rightarrow> bool" where
  "any_contains [] x = False"
| "any_contains (n # ns) x = (if ipnet_contains n x then True else any_contains ns x)"

text \<open>A nil \<open>net.IP\<close> is \<^term>\<open>None\<close>.\<close>

definition IsAllowedIP :: "AllowDeny \<Rightarrow> ip option \<Rightarrow> bool" where
  "IsAllowedIP ad x =
     (case x of
        None \<Rightarrow> False
      | Some y \<Rightarrow> if any_contains (allowed ad) y then True
                  else if any_contains (denied ad) y then False else True)"

definition IsAllowedAddr :: "AllowDeny \<Rightarrow> string \<Rightarrow> bool" where
  "IsAllowedAddr ad addr =
     (case ParseIP addr of None \<Rightarrow> False | Some x \<Rightarrow> IsAllowedIP ad (Some x))"

definition IsAllowedHostPort :: "AllowDeny \<Rightarrow> string \<Rightarrow> bool" where
  "IsAllowedHostPort ad hostport =
     (case SplitHostPort hostport of None \<Rightarrow> False | Some (addr, _) \<Rightarrow> IsAllowedAddr ad addr)"

section \<open>Requests and responses\<close>

text \<open>A request has \<open>URL.Path\<close>, the decoded path, and \<open>URL.RawPath\<close>, which is empty when the path was sent in its default
  encoding.\<close>

record request =
  req_method :: string
  url_path :: string
  url_raw_path :: string
  remote_addr :: string
  req_headers :: "string \<rightharpoonup> string"
  req_body :: string
  content_length :: int

record response =
  status :: nat
  headers :: "string \<rightharpoonup> string"
  body :: string

datatype outcome = Resp response | NilPanic

definition plain :: "nat \<Rightarrow> response" where
  "plain code = \<lparr>status = code, headers = Map.empty, body = []\<rparr>"

text \<open>\<open>http.Error\<close>.\<close>

definition http_error :: "string \<Rightarrow> nat \<Rightarrow> response" where
  "http_error msg code =
     \<lparr>status = code,
      headers = [''Content-Type'' \<mapsto> ''text/plain; charset=utf-8'', ''X-Content-Type-Options'' \<mapsto> ''nosniff''],
      body = msg @ [char_of (10 :: nat)]\<rparr>"

definition getHeaderOrNil :: "(string \<rightharpoonup> string) \<Rightarrow> string \<Rightarrow> string option" where
  "getHeaderOrNil h key = (let value = get_str h key in if value = [] then None else Some value)"

definition setHeaderOrNil :: "(string \<rightharpoonup> string) \<Rightarrow> string \<Rightarrow> string option \<Rightarrow> (string \<rightharpoonup> string)" where
  "setHeaderOrNil h key value = (case value of None \<Rightarrow> h(key := None) | Some v \<Rightarrow> h(key \<mapsto> v))"

section \<open>The S3 client\<close>

record s3_content =
  c_key :: "string option"
  c_size :: "int option"
  c_last_modified :: "string option"
  c_etag :: "string option"

record s3_output =
  o_body :: string
  o_content_type :: "string option"
  o_etag :: "string option"
  o_length_text :: string
  o_last_modified :: "string option"

record 'w s3_client =
  ListObjectsV2 :: "'w \<Rightarrow> (string, s3_content list) result"
  GetObject :: "'w \<Rightarrow> string \<Rightarrow> (string, s3_output) result"
  UploadObject :: "'w \<Rightarrow> string \<Rightarrow> string \<Rightarrow> int \<Rightarrow> string option \<Rightarrow> (string, unit) result \<times> 'w"
  DeleteObject :: "'w \<Rightarrow> string \<Rightarrow> (string, unit) result \<times> 'w"

record Object =
  Key :: string
  Size :: int
  LastModified :: string
  ETag :: string

text \<open>The loop of \<open>listHandlerFunc\<close> over the listing; a nil field of an entry panics.\<close>

fun list_objects :: "s3_content list \<Rightarrow> Object list \<Rightarrow> Object list option" where
  "list_objects [] acc = Some acc"
| "list_objects (c # cs) acc =
     (case (c_key c, c_size c, c_last_modified c, c_etag c) of
        (Some k, Some s, Some t, Some e) \<Rightarrow>
          list_objects cs (acc @ [\<lparr>Key = k, Size = s, LastModified = t, ETag = e\<rparr>])
      | _ \<Rightarrow> None)"

section \<open>Handlers\<close>

definition listHandlerFunc ::
  "('w, 'm) s3_client_scheme \<Rightarrow> (Object list \<Rightarrow> (string, string) result) \<Rightarrow> request \<Rightarrow> 'w \<Rightarrow> outcome \<times> 'w" where
  "listHandlerFunc c marshal req w =
     (if req_method req \<noteq> ''GET'' then (Resp (plain 405), w)
      else (case ListObjectsV2 c w of
              Inl e \<Rightarrow> (Resp (http_error e 400), w)
            | Inr cs \<Rightarrow>
                (case list_objects cs [] of
                   None \<Rightarrow> (NilPanic, w)
                 | Some objs \<Rightarrow>
                     (case marshal objs of
                        Inl e \<Rightarrow> (Resp (http_error e 500), w)
                      | Inr b \<Rightarrow> (Resp \<lparr>status = 200,
                                        headers = [''Content-Length'' \<mapsto> show_nat (length b)], body = b\<rparr>, w)))))"

definition bucketPathPrefix :: nat where
  "bucketPathPrefix = length ''/bucket/''"

definition object_key :: "request \<Rightarrow> string" where
  "object_key req = drop bucketPathPrefix (url_path req)"

definition objectGetHandlerFunc :: "('w, 'm) s3_client_scheme \<Rightarrow> request \<Rightarrow> 'w \<Rightarrow> outcome \<times> 'w" where
  "objectGetHandlerFunc c req w =
     (case GetObject c w (object_key req) of
        Inl e \<Rightarrow> (Resp (http_error e 400), w)
      | Inr out \<Rightarrow>
          let h1 = setHeaderOrNil Map.empty ''Content-Type'' (o_content_type out);
              h2 = setHeaderOrNil h1 ''ETag'' (o_etag out);
              h3 = h2(''Content-Length'' \<mapsto> o_length_text out);
              h4 = (case o_last_modified out of None \<Rightarrow> h3 | Some t \<Rightarrow> h3(''Last-Modified'' \<mapsto> t))
          in (Resp \<lparr>status = 200, headers = h4, body = o_body out\<rparr>, w))"

definition objectPutHandlerFunc :: "('w, 'm) s3_client_scheme \<Rightarrow> request \<Rightarrow> 'w \<Rightarrow> outcome \<times> 'w" where
  "objectPutHandlerFunc c req w =
     (case UploadObject c w (object_key req) (req_body req) (content_length req)
             (getHeaderOrNil (req_headers req) ''Content-Type'') of
        (Inl e, w') \<Rightarrow> (Resp (http_error e 400), w')
      | (Inr _, w') \<Rightarrow> (Resp (plain 200), w'))"

definition objectDeleteHandlerFunc :: "('w, 'm) s3_client_scheme \<Rightarrow> request \<Rightarrow> 'w \<Rightarrow> outcome \<times> 'w" where
  "objectDeleteHandlerFunc c req w =
     (case DeleteObject c w (object_key req) of
        (Inl e, w') \<Rightarrow> (Resp (http_error e 400), w')
      | (Inr _, w') \<Rightarrow> (Resp (plain 200), w'))"

definition objectHandlerFunc :: "('w, 'm) s3_client_scheme \<Rightarrow> request \<Rightarrow> 'w \<Rightarrow> outcome \<times> 'w" where
  "objectHandlerFunc c req w =
     (if req_method req = ''GET'' then objectGetHandlerFunc c req w
      else if req_method req = ''PUT'' then objectPutHandlerFunc c req w
      else if req_method req = ''DELETE'' then objectDeleteHandlerFunc c req w
      else (Resp (plain 405), w))"

text \<open>The function registered for \<open>/bucket/\<close>; the mux calls it for paths with that prefix.\<close>

definition bucket_handler ::
  "AllowDeny \<Rightarrow> ('w, 'm) s3_client_scheme \<Rightarrow> (Object list \<Rightarrow> (string, string) result) \<Rightarrow> request \<Rightarrow> 'w
     \<Rightarrow> outcome \<times> 'w" where
  "bucket_handler ad c marshal req w =
     (if \<not> IsAllowedHostPort ad (remote_addr req) then (Resp (plain 403), w)
      else if url_path req = ''/bucket/'' then listHandlerFunc c marshal req w
      else objectHandlerFunc c req w)"

definition healthHandler :: "request \<Rightarrow> 'w \<Rightarrow> outcome \<times> 'w" where
  "healthHandler req w = (Resp (plain 200), w)"

section \<open>Start-up\<close>

definition envNames :: "string list" where
  "envNames = [''BUCKET_HOST'', ''BUCKET_NAME'', ''BUCKET_REGION'', ''AWS_ACCESS_KEY_ID'', ''AWS_SECRET_ACCESS_KEY'']"

definition emptyEnvNames :: "(string \<Rightarrow> string) \<Rightarrow> string list" where
  "emptyEnvNames getenv = filter (\<lambda>n. getenv n = []) envNames"

definition bucketHostPort :: "(string \<Rightarrow> string) \<Rightarrow> string" where
  "bucketHostPort getenv =
     (if getenv ''BUCKET_PORT'' = [] then getenv ''BUCKET_HOST''
      else getenv ''BUCKET_HOST'' @ '':'' @ getenv ''BUCKET_PORT'')"

section \<open>Facts\<close>

lemma any_contains_iff: "any_contains ns x \<longleftrightarrow> (\<exists>n \<in> set ns. ipnet_contains n x)"
  by (induction ns) auto

text \<open>The entries of an access list: what stands between the commas, without the blanks around it.\<close>

definition cidr_entries :: "string \<Rightarrow> string list" where
  "cidr_entries s = filter (\<lambda>e. e \<noteq> []) (map (trim_by (\<lambda>c. c = CHR '' '')) (split_on CHR '','' s))"

text \<open>The prefix that an entry writes down: an address, a slash and a number of bits that the address has.\<close>

definition denotes :: "string \<Rightarrow> ip \<times> nat \<Rightarrow> bool" where
  "denotes e p \<longleftrightarrow> (\<exists>h m x. e = h @ CHR ''/'' # m \<and> CHR ''/'' \<notin> set h \<and> parse_addr h = Some x
     \<and> m \<noteq> [] \<and> list_all is_digit m \<and> read_nat m \<le> 8 * length x \<and> p = cidr_prefix x (read_nat m))"

lemma ParseCIDR_None: "ParseCIDR e = None \<longleftrightarrow> \<not> (\<exists>p. denotes e p)"
proof (cases "str_cut CHR ''/'' e")
  case None
  then have "CHR ''/'' \<notin> set e" by (simp add: str_cut_None)
  then show ?thesis using None by (auto simp: ParseCIDR_def denotes_def)
next
  case (Some hm)
  obtain h m where hm: "hm = (h, m)" by fastforce
  have u: "e = h' @ CHR ''/'' # m' \<and> CHR ''/'' \<notin> set h' \<longleftrightarrow> h' = h \<and> m' = m" for h' m'
    using Some hm str_cut_Some [of "CHR ''/''" e h' m'] by auto
  have "(\<exists>p. denotes e p) \<longleftrightarrow> (\<exists>x. parse_addr h = Some x \<and> m \<noteq> [] \<and> list_all is_digit m \<and> read_nat m \<le> 8 * length x)"
    unfolding denotes_def using u by metis
  then show ?thesis using Some hm by (auto simp: ParseCIDR_def not_le split: option.splits)
qed

lemma ParseCIDR_Some:
  assumes "ParseCIDR e = Some n"
  shows "ipnet_contains n y \<longleftrightarrow> (\<exists>p. denotes e p \<and> in_prefix p y)"
proof -
  obtain h m x where c: "str_cut CHR ''/'' e = Some (h, m)" "parse_addr h = Some x" "m \<noteq> []" "list_all is_digit m"
      "read_nat m \<le> 8 * length x" "n = cidr_net x (read_nat m)"
    using assms by (auto simp: ParseCIDR_def split: option.splits if_splits)
  have "denotes e p \<longleftrightarrow> p = cidr_prefix x (read_nat m)" for p
  proof
    assume "denotes e p"
    then obtain h' m' x' where d: "e = h' @ CHR ''/'' # m'" "CHR ''/'' \<notin> set h'" "parse_addr h' = Some x'"
        "p = cidr_prefix x' (read_nat m')"
      by (auto simp: denotes_def)
    then have "str_cut CHR ''/'' e = Some (h', m')" by (simp add: str_cut_Some)
    then show "p = cidr_prefix x (read_nat m)" using c(1,2) d(3,4) by simp
  next
    assume "p = cidr_prefix x (read_nat m)"
    then show "denotes e p" using c(1-5) by (auto simp: denotes_def str_cut_Some)
  qed
  then show ?thesis using cidr_net_contains [OF c(5) length_parse_addr [OF c(2)]] c(6) by auto
qed

lemma parse_cidr_list_Inr:
  "parse_cidr_list xs name nets = Inr ns \<longleftrightarrow>
     (\<exists>ms. ns = nets @ ms
        \<and> list_all2 (\<lambda>e n. ParseCIDR e = Some n) (filter (\<lambda>e. e \<noteq> []) (map (trim_by (\<lambda>c. c = CHR '' '')) xs)) ms)"
  by (induction xs name nets rule: parse_cidr_list.induct)
    (auto simp: Let_def list_all2_Cons1 split: option.splits)

lemma parse_cidr_list_Inl:
  "parse_cidr_list xs name nets = Inl err \<Longrightarrow>
     \<exists>as e bs. filter (\<lambda>e. e \<noteq> []) (map (trim_by (\<lambda>c. c = CHR '' '')) xs) = as @ e # bs
        \<and> list_all (\<lambda>a. ParseCIDR a \<noteq> None) as \<and> ParseCIDR e = None \<and> err = BadCIDR name e"
proof (induction xs name nets rule: parse_cidr_list.induct)
  case (2 x xs name nets)
  let ?t = "trim_by (\<lambda>c. c = CHR '' '') x" and ?es = "filter (\<lambda>e. e \<noteq> []) (map (trim_by (\<lambda>c. c = CHR '' '')) xs)"
  consider "?t = []" | "?t \<noteq> []" "ParseCIDR ?t = None" | n where "?t \<noteq> []" "ParseCIDR ?t = Some n" by blast
  then show ?case
  proof cases
    case 1
    then show ?thesis using "2.IH"(1) [OF refl] "2.prems" by (simp add: Let_def)
  next
    case 2
    then have "filter (\<lambda>e. e \<noteq> []) (map (trim_by (\<lambda>c. c = CHR '' '')) (x # xs)) = [] @ ?t # ?es"
        "err = BadCIDR name ?t" using "2.prems" by (simp_all add: Let_def)
    then show ?thesis using 2(2) by fastforce
  next
    case 3
    then obtain as e bs where "?es = as @ e # bs" "list_all (\<lambda>a. ParseCIDR a \<noteq> None) as" "ParseCIDR e = None" "err = BadCIDR name e"
      using "2.IH"(2) [OF refl] "2.prems" by (auto simp: Let_def)
    then have "filter (\<lambda>e. e \<noteq> []) (map (trim_by (\<lambda>c. c = CHR '' '')) (x # xs)) = (?t # as) @ e # bs"
        "list_all (\<lambda>a. ParseCIDR a \<noteq> None) (?t # as)" "ParseCIDR e = None" "err = BadCIDR name e" using 3 by simp_all
    then show ?thesis by blast
  qed
qed simp

text \<open>Printed IPv4 prefixes.\<close>

definition cidr_string :: "ip \<times> nat \<Rightarrow> string" where
  "cidr_string p = ip_string (fst p) @ CHR ''/'' # show_nat (snd p)"

lemma ip_string_no_sep:
  assumes "length x = 4" and "\<not> is_digit c" and "c \<noteq> CHR ''.''"
  shows "c \<notin> set (ip_string x)"
proof -
  obtain a b d e where x: "x = [a, b, d, e]" using assms(1) by (auto simp: length_Suc_conv numeral_eq_Suc)
  show ?thesis using show_nat_no_sep [OF assms(2)] assms(3) by (simp add: ip_string_def to4_def x)
qed

lemma cidr_string_no_sep:
  assumes "length (fst p) = 4" and "\<not> is_digit c" and "c \<noteq> CHR ''.''" and "c \<noteq> CHR ''/''"
  shows "c \<notin> set (cidr_string p)"
  using ip_string_no_sep [OF assms(1-3)] show_nat_no_sep [OF assms(2)] assms(4) by (simp add: cidr_string_def)

lemma ParseCIDR_cidr_string:
  assumes "length (fst p) = 4" and "snd p \<le> 32"
  shows "ParseCIDR (cidr_string p) = Some (cidr_net (fst p) (snd p))"
proof -
  have "CHR ''/'' \<notin> set (ip_string (fst p))" by (rule ip_string_no_sep [OF assms(1)]) (simp_all add: is_digit_def)
  then have "str_cut CHR ''/'' (cidr_string p) = Some (ip_string (fst p), show_nat (snd p))"
    by (simp add: cidr_string_def str_cut_Some)
  then show ?thesis using assms parse_ip_string [OF assms(1)] by (simp add: ParseCIDR_def show_nat_digits)
qed

lemma trim_by_id: "(\<And>c. c \<in> set s \<Longrightarrow> \<not> P c) \<Longrightarrow> trim_by P s = s"
proof -
  assume h: "\<And>c. c \<in> set s \<Longrightarrow> \<not> P c"
  have d: "dropWhile P t = t" if "\<And>c. c \<in> set t \<Longrightarrow> \<not> P c" for t using that by (cases t) auto
  show ?thesis using d [of s] d [of "rev s"] h by (simp add: trim_by_def)
qed

lemma split_on_join:
  "xs \<noteq> [] \<Longrightarrow> (\<And>x. x \<in> set xs \<Longrightarrow> c \<notin> set x) \<Longrightarrow> split_on c (join [c] xs) = xs"
  by (induction "[c]" xs rule: join.induct) (auto simp: split_on_no_sep split_on_append)

lemma cidr_entries_printed:
  assumes "list_all (\<lambda>p. length (fst p) = 4) ps"
  shows "cidr_entries (join '','' (map cidr_string ps)) = map cidr_string ps"
proof (cases "ps = []")
  case False
  have c: "CHR '','' \<notin> set (cidr_string p)" "CHR '' '' \<notin> set (cidr_string p)" if "p \<in> set ps" for p
    using assms that cidr_string_no_sep [of p] by (auto simp: list_all_iff is_digit_def)
  have "split_on CHR '','' (join '','' (map cidr_string ps)) = map cidr_string ps"
    by (rule split_on_join) (use False c in auto)
  moreover have "map (trim_by (\<lambda>c. c = CHR '' '')) (map cidr_string ps) = map cidr_string ps"
    using c(2) by (auto intro: trim_by_id)
  ultimately show ?thesis by (simp add: cidr_entries_def cidr_string_def filter_id_conv)
qed (simp add: cidr_entries_def trim_by_def)

section \<open>Properties\<close>

text \<open>
  C9. The access decision for a remote address: the text must split into host and port and the host must be an
  IP address; then the address is admitted if and only if an allowed network contains it or no denied
  network does. So an allowed network always wins over a denied one.
\<close>

theorem IsAllowedHostPort_iff:
  "IsAllowedHostPort ad hp \<longleftrightarrow>
     (\<exists>h p x. SplitHostPort hp = Some (h, p) \<and> ParseIP h = Some x
        \<and> (if \<exists>n \<in> set (allowed ad). ipnet_contains n x then True
            else \<not> (\<exists>n \<in> set (denied ad). ipnet_contains n x)))"
  by (auto simp: IsAllowedHostPort_def IsAllowedAddr_def IsAllowedIP_def any_contains_iff split: option.splits)

text \<open>
  C10. The parsed access list is what its text says. The list is accepted exactly when every entry between the commas writes
  down an address, a slash and a length within the address, and otherwise the error names the first entry that does
  not. There is one network for each entry, in order, and it contains an address exactly when the address has the
  family and the leading bits that the entry writes down. A list of printed IPv4 prefixes is read back.
\<close>

theorem parseCIDRs_exact:
  "(case parseCIDRs s name of
      Inr nets \<Rightarrow> list_all2 (\<lambda>e n. (\<exists>p. denotes e p) \<and> (\<forall>y. ipnet_contains n y \<longleftrightarrow> (\<exists>p. denotes e p \<and> in_prefix p y)))
        (cidr_entries s) nets
    | Inl err \<Rightarrow> \<exists>as e bs. cidr_entries s = as @ e # bs \<and> list_all (\<lambda>a. \<exists>p. denotes a p) as \<and> \<not> (\<exists>p. denotes e p)
        \<and> err = BadCIDR name e)
   \<and> (list_all (\<lambda>p. length (fst p) = 4 \<and> snd p \<le> 32) ps \<longrightarrow>
        (\<exists>nets. parseCIDRs (join '','' (map cidr_string ps)) name = Inr nets
           \<and> list_all2 (\<lambda>p n. \<forall>y. ipnet_contains n y \<longleftrightarrow> in_prefix p y) ps nets))"
proof (intro conjI impI)
  show "case parseCIDRs s name of
      Inr nets \<Rightarrow> list_all2 (\<lambda>e n. (\<exists>p. denotes e p) \<and> (\<forall>y. ipnet_contains n y \<longleftrightarrow> (\<exists>p. denotes e p \<and> in_prefix p y)))
        (cidr_entries s) nets
    | Inl err \<Rightarrow> \<exists>as e bs. cidr_entries s = as @ e # bs \<and> list_all (\<lambda>a. \<exists>p. denotes a p) as \<and> \<not> (\<exists>p. denotes e p)
        \<and> err = BadCIDR name e"
  proof (cases "parseCIDRs s name")
    case (Inl err)
    then have "\<exists>as e bs. cidr_entries s = as @ e # bs \<and> list_all (\<lambda>a. \<exists>p. denotes a p) as \<and> \<not> (\<exists>p. denotes e p)
        \<and> err = BadCIDR name e"
      using parse_cidr_list_Inl [of "split_on CHR '','' s" name "[]" err] unfolding parseCIDRs_def cidr_entries_def ParseCIDR_None by simp
    then show ?thesis unfolding Inl sum.case .
  next
    case (Inr nets)
    then have "list_all2 (\<lambda>e n. ParseCIDR e = Some n) (cidr_entries s) nets"
      by (simp add: parseCIDRs_def parse_cidr_list_Inr cidr_entries_def)
    moreover have "(\<exists>p. denotes e p) \<and> (\<forall>y. ipnet_contains n y \<longleftrightarrow> (\<exists>p. denotes e p \<and> in_prefix p y))"
      if "ParseCIDR e = Some n" for e n using ParseCIDR_None [of e] ParseCIDR_Some [OF that] that by simp
    ultimately show ?thesis unfolding Inr sum.case by (rule list_all2_mono)
  qed
next
  assume ps: "list_all (\<lambda>p. length (fst p) = 4 \<and> snd p \<le> 32) ps"
  let ?nets = "map (\<lambda>p. cidr_net (fst p) (snd p)) ps"
  have e: "cidr_entries (join '','' (map cidr_string ps)) = map cidr_string ps"
    using ps by (intro cidr_entries_printed) (simp add: list_all_iff)
  have "list_all2 (\<lambda>e n. ParseCIDR e = Some n) (map cidr_string ps) ?nets"
    using ps ParseCIDR_cidr_string by (simp add: list_all2_conv_all_nth list_all_length)
  then have "parseCIDRs (join '','' (map cidr_string ps)) name = Inr ?nets"
    using e by (simp add: parseCIDRs_def parse_cidr_list_Inr cidr_entries_def)
  moreover have "list_all2 (\<lambda>p n. \<forall>y. ipnet_contains n y \<longleftrightarrow> in_prefix p y) ps ?nets"
    using ps cidr_net_contains cidr_prefix_v4 by (simp add: list_all2_conv_all_nth list_all_length)
  ultimately show "\<exists>nets. parseCIDRs (join '','' (map cidr_string ps)) name = Inr nets
      \<and> list_all2 (\<lambda>p n. \<forall>y. ipnet_contains n y \<longleftrightarrow> in_prefix p y) ps nets" by blast
qed

theorem parseCIDRs_exact_witness:
  "parseCIDRs ''10.1.0.0/16, 192.168.0.0/24,'' ''allowed'' = Inr [cidr_net [10, 1, 0, 0] 16, cidr_net [192, 168, 0, 0] 24]
     \<and> (\<exists>p. denotes ''192.168.0.0/24'' p \<and> in_prefix p [192, 168, 0, 7])
     \<and> (\<exists>nets. parseCIDRs (join '','' (map cidr_string [([10, 1, 0, 0], 16)])) ''denied'' = Inr nets \<and> length nets = 1)"
proof -
  let ?s = "''10.1.0.0/16, 192.168.0.0/24,''"
  have p: "parseCIDRs ?s ''allowed'' = Inr [cidr_net [10, 1, 0, 0] 16, cidr_net [192, 168, 0, 0] 24]" by code_simp
  have e: "cidr_entries ?s = [''10.1.0.0/16'', ''192.168.0.0/24'']" by code_simp
  have c: "ipnet_contains (cidr_net [192, 168, 0, 0] 24) [192, 168, 0, 7]" by code_simp
  have ps: "list_all (\<lambda>p. length (fst p) = 4 \<and> snd p \<le> 32) [([10, 1, 0, 0] :: ip, 16 :: nat)]" by simp
  from parseCIDRs_exact [of ?s "''allowed''" "[]"] c
  have d: "\<exists>p. denotes ''192.168.0.0/24'' p \<and> in_prefix p [192, 168, 0, 7]" unfolding p e by simp
  obtain nets where n: "parseCIDRs (join '','' (map cidr_string [([10, 1, 0, 0], 16)])) ''denied'' = Inr nets"
      "list_all2 (\<lambda>p n. \<forall>y. ipnet_contains n y \<longleftrightarrow> in_prefix p y) [([10, 1, 0, 0] :: ip, 16)] nets"
    using parseCIDRs_exact [of ?s "''denied''" "[([10, 1, 0, 0], 16)]"] ps by blast
  have "length nets = 1" using list_all2_lengthD [OF n(2)] by simp
  then show ?thesis using p d n(1) by blast
qed

text \<open>
  A request from an address the access list does not admit is answered 403 and never reaches the bucket;
  and a request that changes the bucket was admitted, is a PUT or a DELETE of an object, and made the
  corresponding call for the key after \<open>/bucket/\<close>.
\<close>

theorem bucket_handler_guarded:
  "(if IsAllowedHostPort ad (remote_addr req)
    then snd (bucket_handler ad c marshal req w) =
      (if url_path req = ''/bucket/'' then w
       else if req_method req = ''PUT'' then
         snd (UploadObject c w (object_key req) (req_body req) (content_length req)
                (getHeaderOrNil (req_headers req) ''Content-Type''))
       else if req_method req = ''DELETE'' then snd (DeleteObject c w (object_key req)) else w)
    else bucket_handler ad c marshal req w = (Resp (plain 403), w))"
  by (auto simp: bucket_handler_def listHandlerFunc_def objectHandlerFunc_def objectGetHandlerFunc_def
      objectPutHandlerFunc_def objectDeleteHandlerFunc_def Let_def split: sum.splits option.splits prod.splits)

end
