(* ===== verification/S3gw_Main.thy ===== *)
theory S3gw_Main
  imports S3gw
begin

text \<open>
  The gateway s3gw as a program (\<open>main.go\<close>): its settings from environment and flags, the request multiplexer with the
  instrumented handlers, and what a history of requests does to the bucket and to the request counters. The parts of
  \<open>net/url\<close>, \<open>net/http\<close> and \<open>path\<close> that decide which handler runs are modelled as of Go 1.22 and later; how promhttp writes a method into a label is an
  argument, and so are the page of metrics and the response that redirects.
\<close>

section \<open>Settings\<close>

record gateway_flags =
  usePathStyle :: bool
  hostsAllow :: string
  hostsDeny :: string

record gateway_config =
  base_endpoint :: string
  path_style :: bool
  region :: string
  bucket_name :: string
  credentials :: "string \<times> string"
  access :: AllowDeny

datatype start_err = EmptyEnv "string list" | BadAccessList acl_err

definition configure :: "(string \<Rightarrow> string) \<Rightarrow> gateway_flags \<Rightarrow> (start_err, gateway_config) result" where
  "configure getenv fl =
     (if emptyEnvNames getenv \<noteq> [] then Inl (EmptyEnv (emptyEnvNames getenv))
      else (case ParseAllowDeny (hostsAllow fl) (hostsDeny fl) of
              Inl e \<Rightarrow> Inl (BadAccessList e)
            | Inr ad \<Rightarrow>
                Inr \<lparr>base_endpoint = ''http://'' @ bucketHostPort getenv @ ''/'', path_style = usePathStyle fl,
                     region = getenv ''BUCKET_REGION'', bucket_name = getenv ''BUCKET_NAME'',
                     credentials = (getenv ''AWS_ACCESS_KEY_ID'', getenv ''AWS_SECRET_ACCESS_KEY''), access = ad\<rparr>))"

section \<open>Encoded paths\<close>

text \<open>The percent-encoding of package \<open>net/url\<close>. A \<open>%\<close> that two hexadecimal digits do not follow is an error.\<close>

fun unescape :: "string \<Rightarrow> string option" where
  "unescape [] = Some []"
| "unescape (c # cs) =
     (if c = CHR ''%'' then
        (case cs of
           a # b # rest \<Rightarrow>
             (case (hex_val a, hex_val b) of
                (Some x, Some y) \<Rightarrow> map_option ((#) (char_of (16 * x + y))) (unescape rest)
              | _ \<Rightarrow> None)
         | _ \<Rightarrow> None)
      else map_option ((#) c) (unescape cs))"

definition upper_hex :: "nat \<Rightarrow> char" where
  "upper_hex d = char_of (if d < 10 then 48 + d else 55 + d)"

definition unreserved :: "char \<Rightarrow> bool" where
  "unreserved c \<longleftrightarrow> is_lower c \<or> is_upper c \<or> is_digit c \<or> c \<in> set ''-_.~''"

text \<open>\<open>shouldEscape\<close> for a path and for a segment of a path.\<close>

definition escaped_in_path :: "char \<Rightarrow> bool" where
  "escaped_in_path c \<longleftrightarrow> \<not> (unreserved c \<or> c \<in> set ''$&+,/:;=@'')"

definition escaped_in_segment :: "char \<Rightarrow> bool" where
  "escaped_in_segment c \<longleftrightarrow> \<not> (unreserved c \<or> c \<in> set ''$&+:=@'')"

definition escape_by :: "(char \<Rightarrow> bool) \<Rightarrow> string \<Rightarrow> string" where
  "escape_by p s =
     concat (map (\<lambda>c. if p c then [CHR ''%'', upper_hex (of_char c div 16), upper_hex (of_char c mod 16)] else [c]) s)"

definition PathEscape :: "string \<Rightarrow> string" where
  "PathEscape s = escape_by escaped_in_segment s"

definition validEncoded :: "string \<Rightarrow> bool" where
  "validEncoded s \<longleftrightarrow> list_all (\<lambda>c. c \<in> set ''!$&()*+,;=:@[]%'' \<or> c = CHR 0x27 \<or> \<not> escaped_in_path c) s"

text \<open>\<open>setPath\<close> on the path of the request target; the server answers 400 when it fails.\<close>

definition setPath :: "string \<Rightarrow> request \<Rightarrow> request option" where
  "setPath p req =
     (case unescape p of
        None \<Rightarrow> None
      | Some path \<Rightarrow>
          Some (req\<lparr>url_path := path, url_raw_path := (if p = escape_by escaped_in_path path then [] else p)\<rparr>))"

definition EscapedPath :: "request \<Rightarrow> string" where
  "EscapedPath req =
     (if url_raw_path req \<noteq> [] \<and> validEncoded (url_raw_path req) \<and> unescape (url_raw_path req) = Some (url_path req)
      then url_raw_path req
      else if url_path req = ''*'' then ''*''
      else escape_by escaped_in_path (url_path req))"

section \<open>The multiplexer\<close>

text \<open>\<open>path.Clean\<close> on a rooted path, by its elements, and \<open>cleanPath\<close> of the multiplexer, which keeps a trailing slash.\<close>

fun clean_elems :: "string list \<Rightarrow> string list \<Rightarrow> string list" where
  "clean_elems acc [] = rev acc"
| "clean_elems acc (e # es) =
     (if e = '''' \<or> e = ''.'' then clean_elems acc es
      else if e = ''..'' then clean_elems (tl acc) es
      else clean_elems (e # acc) es)"

definition path_Clean :: "string \<Rightarrow> string" where
  "path_Clean p = ''/'' @ join ''/'' (clean_elems [] (split_on CHR ''/'' p))"

definition cleanPath :: "string \<Rightarrow> string" where
  "cleanPath p =
     (if p = '''' then ''/''
      else let p' = (if hd p = CHR ''/'' then p else CHR ''/'' # p); np = path_Clean p'
           in if last p' = CHR ''/'' \<and> np \<noteq> ''/'' then np @ ''/'' else np)"

datatype route = BucketRoute | HealthRoute | MetricsRoute | Redirect string | NoRoute

text \<open>
  The patterns \<open>/bucket/\<close>, \<open>/health\<close> and \<open>/metrics\<close> are matched segment by segment, each segment decoded by itself
  (\<open>firstSegment\<close>, \<open>matchPath\<close>): the first matches any rest that begins with a slash, the others only the whole path.
\<close>

definition firstSegment :: "string \<Rightarrow> string \<times> string" where
  "firstSegment path =
     (if path = ''/'' then (''/'', [])
      else let p = tl path; seg = takeWhile (\<lambda>c. c \<noteq> CHR ''/'') p
           in (case unescape seg of None \<Rightarrow> seg | Some s \<Rightarrow> s, drop (length seg) p))"

definition mux_match :: "string \<Rightarrow> route option" where
  "mux_match path =
     (if path = [] then None
      else let (seg, rest) = firstSegment path
           in if seg = ''bucket'' \<and> rest \<noteq> [] then Some BucketRoute
              else if seg = ''health'' \<and> rest = [] then Some HealthRoute
              else if seg = ''metrics'' \<and> rest = [] then Some MetricsRoute
              else None)"

text \<open>\<open>exactMatch\<close>: a match of \<open>/bucket/\<close> is exact when nothing follows the pattern.\<close>

definition exactMatch :: "route option \<Rightarrow> string \<Rightarrow> bool" where
  "exactMatch n path =
     (case n of
        None \<Rightarrow> False
      | Some BucketRoute \<Rightarrow> (path = [] \<or> last path = CHR ''/'') \<and> count_list path CHR ''/'' = 2
      | Some _ \<Rightarrow> True)"

text \<open>\<open>matchOrRedirect\<close> with the URL: the redirect to the path with a trailing slash.\<close>

definition slash_redirect :: "string \<Rightarrow> request \<Rightarrow> string option" where
  "slash_redirect path req =
     (if \<not> exactMatch (mux_match path) path \<and> (path = [] \<or> last path \<noteq> CHR ''/'')
         \<and> exactMatch (mux_match (path @ ''/'')) (path @ ''/'')
      then Some (cleanPath (url_path req) @ ''/'') else None)"

text \<open>\<open>findHandler\<close>. The path of a CONNECT request is not cleaned.\<close>

definition route_of :: "request \<Rightarrow> route" where
  "route_of req =
     (let escapedPath = EscapedPath req;
          path = (if req_method req = ''CONNECT'' then escapedPath else cleanPath escapedPath)
      in (case slash_redirect path req of
            Some u \<Rightarrow> Redirect u
          | None \<Rightarrow>
              if path \<noteq> escapedPath then Redirect path
              else (case mux_match path of None \<Rightarrow> NoRoute | Some r \<Rightarrow> r)))"

section \<open>Requests\<close>

record 'w gateway =
  g_bucket :: 'w
  g_requests :: "nat \<times> string \<times> string \<Rightarrow> nat"

text \<open>The counter of \<open>InstrumentHandlerCounter\<close> grows when the handler has returned.\<close>

definition instrument ::
  "(string \<Rightarrow> string) \<Rightarrow> string \<Rightarrow> (request \<Rightarrow> 'w \<Rightarrow> outcome \<times> 'w) \<Rightarrow> request \<Rightarrow> 'w gateway \<Rightarrow> outcome \<times> 'w gateway" where
  "instrument method_label handler next_handler req g =
     (case next_handler req (g_bucket g) of
        (NilPanic, w) \<Rightarrow> (NilPanic, g\<lparr>g_bucket := w\<rparr>)
      | (Resp r, w) \<Rightarrow>
          let k = (status r, method_label (req_method req), handler)
          in (Resp r, g\<lparr>g_bucket := w, g_requests := (g_requests g)(k := g_requests g k + 1)\<rparr>))"

record 'w gateway_env =
  s3 :: "'w s3_client"
  marshal_list :: "Object list \<Rightarrow> (string, string) result"
  method_label :: "string \<Rightarrow> string"
  redirect_to :: "request \<Rightarrow> string \<Rightarrow> response"
  metrics_page :: "(nat \<times> string \<times> string \<Rightarrow> nat) \<Rightarrow> response"

definition serve :: "'w gateway_env \<Rightarrow> AllowDeny \<Rightarrow> request \<Rightarrow> 'w gateway \<Rightarrow> outcome \<times> 'w gateway" where
  "serve env ad req g =
     (case route_of req of
        BucketRoute \<Rightarrow>
          if \<not> IsAllowedHostPort ad (remote_addr req) then (Resp (plain 403), g)
          else if url_path req = ''/bucket/''
          then instrument (method_label env) ''list'' (listHandlerFunc (s3 env) (marshal_list env)) req g
          else instrument (method_label env) ''object'' (objectHandlerFunc (s3 env)) req g
      | HealthRoute \<Rightarrow> (fst (healthHandler req (g_bucket g)), g)
      | MetricsRoute \<Rightarrow> (Resp (metrics_page env (g_requests g)), g)
      | Redirect p \<Rightarrow> (Resp (redirect_to env req p), g)
      | NoRoute \<Rightarrow> (Resp (http_error ''404 page not found'' 404), g))"

text \<open>A history of requests, one at a time.\<close>

fun serve_all :: "'w gateway_env \<Rightarrow> AllowDeny \<Rightarrow> request list \<Rightarrow> 'w gateway \<Rightarrow> outcome list \<times> 'w gateway" where
  "serve_all env ad [] g = ([], g)"
| "serve_all env ad (req # reqs) g =
     (case serve env ad req g of
        (out, g') \<Rightarrow> (case serve_all env ad reqs g' of (outs, g'') \<Rightarrow> (out # outs, g'')))"

section \<open>What a history does\<close>

text \<open>The requests that may change the bucket, and the call each of them makes.\<close>

definition changes :: "AllowDeny \<Rightarrow> request \<Rightarrow> bool" where
  "changes ad req \<longleftrightarrow> IsAllowedHostPort ad (remote_addr req) \<and> route_of req = BucketRoute
     \<and> url_path req \<noteq> ''/bucket/'' \<and> (req_method req = ''PUT'' \<or> req_method req = ''DELETE'')"

definition change :: "'w s3_client \<Rightarrow> request \<Rightarrow> 'w \<Rightarrow> 'w" where
  "change c req w =
     (if req_method req = ''PUT'' then
        snd (UploadObject c w (object_key req) (req_body req) (content_length req)
               (getHeaderOrNil (req_headers req) ''Content-Type''))
      else snd (DeleteObject c w (object_key req)))"

definition counted :: "AllowDeny \<Rightarrow> request \<Rightarrow> bool" where
  "counted ad req \<longleftrightarrow> IsAllowedHostPort ad (remote_addr req) \<and> route_of req = BucketRoute"

lemma list_bucket: "snd (listHandlerFunc c ml req w) = w"
  by (simp add: listHandlerFunc_def split: sum.split option.split)

lemma object_bucket:
  "snd (objectHandlerFunc c req w) = (if req_method req = ''PUT'' \<or> req_method req = ''DELETE'' then change c req w else w)"
  by (auto simp: objectHandlerFunc_def objectGetHandlerFunc_def objectPutHandlerFunc_def objectDeleteHandlerFunc_def
      change_def Let_def split: sum.splits prod.splits)

lemma instrument_bucket: "g_bucket (snd (instrument ml hn h req g)) = snd (h req (g_bucket g))"
  by (simp add: instrument_def Let_def split: prod.split outcome.split)

lemma serve_bucket:
  "g_bucket (snd (serve env ad req g)) = (if changes ad req then change (s3 env) req (g_bucket g) else g_bucket g)"
  by (auto simp: serve_def changes_def instrument_bucket list_bucket object_bucket split: route.split)

text \<open>The instrumentation changes neither the answers nor the bucket of the plain handler.\<close>

lemma serve_bucket_handler:
  assumes "route_of req = BucketRoute"
  shows "fst (serve env ad req g) = fst (bucket_handler ad (s3 env) (marshal_list env) req (g_bucket g))
    \<and> g_bucket (snd (serve env ad req g)) = snd (bucket_handler ad (s3 env) (marshal_list env) req (g_bucket g))"
  using assms by (simp add: serve_def bucket_handler_def instrument_def Let_def split: prod.split outcome.split)

lemma serve_refused: "\<not> counted ad req \<Longrightarrow> snd (serve env ad req g) = g"
  by (auto simp: serve_def counted_def split: route.split)

lemma serve_all_Cons: "snd (serve_all env ad (req # reqs) g) = snd (serve_all env ad reqs (snd (serve env ad req g)))"
  by (simp split: prod.split)

lemma history_bucket:
  "g_bucket (snd (serve_all env ad reqs g)) = fold (change (s3 env)) (filter (changes ad) reqs) (g_bucket g)"
  by (induction reqs arbitrary: g) (simp_all add: serve_all_Cons serve_bucket del: serve_all.simps(2))

lemma history_refused: "snd (serve_all env ad reqs g) = snd (serve_all env ad (filter (counted ad) reqs) g)"
  by (induction reqs arbitrary: g) (simp_all add: serve_all_Cons serve_refused del: serve_all.simps(2))

text \<open>
  C11. The bucket after any history of requests is the bucket after the changing calls of the admitted
  requests alone, in their order; requests that are not admitted leave no trace, neither in the bucket nor
  in the counters. A request is the bucket's when the multiplexer gives it to the handler of \<open>/bucket/\<close>: its encoded
  path is clean (or the method is CONNECT) and the first segment decodes to \<open>bucket\<close>.
\<close>

theorem gateway_history:
  "g_bucket (snd (serve_all env ad reqs g)) = fold (change (s3 env)) (filter (changes ad) reqs) (g_bucket g)
   \<and> snd (serve_all env ad reqs g) = snd (serve_all env ad (filter (counted ad) reqs) g)"
  using history_bucket history_refused by blast

text \<open>The region is required like the other variables of the list, although the README calls it optional.\<close>

lemma region_required:
  assumes "getenv ''BUCKET_REGION'' = []"
  shows "\<exists>names. configure getenv fl = Inl (EmptyEnv names) \<and> ''BUCKET_REGION'' \<in> set names"
proof -
  have "''BUCKET_REGION'' \<in> set (emptyEnvNames getenv)" using assms by (simp add: emptyEnvNames_def envNames_def)
  then show ?thesis by (auto simp: configure_def)
qed

section \<open>Reachable keys\<close>

lemma hex_upper: "d < 16 \<Longrightarrow> hex_val (upper_hex d) = Some d"
  by (auto simp: upper_hex_def hex_val_def is_digit_def Let_def)

lemma unescape_char: "p CHR ''%'' \<Longrightarrow> unescape (escape_by p [c] @ t) = map_option ((#) c) (unescape t)"
proof (cases "p c")
  case True
  have "(of_char c :: nat) < 256" by simp
  then have "of_char c div 16 < (16 :: nat)" "of_char c mod 16 < (16 :: nat)" by linarith+
  moreover have "16 * (of_char c div 16) + of_char c mod 16 = (of_char c :: nat)" by simp
  ultimately show ?thesis using True by (simp add: escape_by_def hex_upper)
next
  case False
  moreover assume "p CHR ''%''"
  ultimately have "c \<noteq> CHR ''%''" by auto
  then show ?thesis using False by (simp add: escape_by_def)
qed

lemma escape_Cons: "escape_by p (c # s) = escape_by p [c] @ escape_by p s"
  by (simp add: escape_by_def)

text \<open>Encoding and decoding.\<close>

lemma unescape_escape: "p CHR ''%'' \<Longrightarrow> unescape (escape_by p s @ t) = map_option ((@) s) (unescape t)"
proof (induction s)
  case Nil
  then show ?case by (cases "unescape t") (simp_all add: escape_by_def)
next
  case (Cons c s)
  have "escape_by p (c # s) @ t = escape_by p [c] @ (escape_by p s @ t)" by (simp add: escape_by_def)
  then show ?case using unescape_char [of p c] Cons by (simp add: option.map_comp comp_def)
qed

lemma upper_hex_chars: "d < 16 \<Longrightarrow> is_digit (upper_hex d) \<or> is_upper (upper_hex d)"
  by (auto simp: upper_hex_def is_digit_def is_upper_def)

lemma escape_chars:
  assumes "x \<in> set (escape_by p s)"
  shows "x = CHR ''%'' \<or> is_digit x \<or> is_upper x \<or> (x \<in> set s \<and> \<not> p x)"
proof -
  obtain c where c: "c \<in> set s" "x \<in> set (escape_by p [c])"
    using assms by (auto simp: escape_by_def simp del: UN_simps split: if_splits)
  have "(of_char c :: nat) < 256" by simp
  then have "of_char c div 16 < (16 :: nat)" "of_char c mod 16 < (16 :: nat)" by linarith+
  then have "is_digit (upper_hex (of_char c div 16)) \<or> is_upper (upper_hex (of_char c div 16))"
      "is_digit (upper_hex (of_char c mod 16)) \<or> is_upper (upper_hex (of_char c mod 16))"
    using upper_hex_chars [of "of_char c div 16"] upper_hex_chars [of "of_char c mod 16"] by blast+
  then show ?thesis using c by (auto simp: escape_by_def split: if_splits)
qed

text \<open>The handlers see the path that a client encoded, and the multiplexer the encoded one.\<close>

lemma setPath_encoded:
  assumes "validEncoded p" and "unescape p = Some path" and "path \<noteq> ''*''" and "p \<noteq> []"
  shows "\<exists>req'. setPath p req = Some req' \<and> url_path req' = path \<and> EscapedPath req' = p
    \<and> req_method req' = req_method req \<and> remote_addr req' = remote_addr req"
  using assms by (auto simp: setPath_def EscapedPath_def)

lemma segment_chars:
  assumes "x \<in> set (PathEscape key)"
  shows "x \<noteq> CHR ''/''" and "x \<in> set ''!$&()*+,;=:@[]%'' \<or> x = CHR 0x27 \<or> \<not> escaped_in_path x"
  using escape_chars [OF assms [unfolded PathEscape_def]]
  by (auto simp: escaped_in_segment_def escaped_in_path_def unreserved_def is_digit_def is_upper_def is_lower_def)

lemma escape_dots:
  assumes "s = ''.'' \<or> s = ''..'' \<or> s = []" and "PathEscape key = s"
  shows "key = s"
proof -
  have "unescape (PathEscape key @ []) = Some key"
    unfolding PathEscape_def by (subst unescape_escape) (simp_all add: escaped_in_segment_def unreserved_def is_digit_def is_upper_def is_lower_def)
  then show ?thesis using assms by auto
qed

lemma clean_bucket_path:
  assumes "CHR ''/'' \<notin> set e" and "e \<noteq> []" and "e \<noteq> ''.''" and "e \<noteq> ''..''"
  shows "cleanPath (''/bucket/'' @ e) = ''/bucket/'' @ e"
proof -
  have "split_on CHR ''/'' (''/bucket/'' @ e) = [[], ''bucket'', e]"
    using split_on_append [of "CHR ''/''" "[]" "''bucket/'' @ e"] split_on_append [of "CHR ''/''" "''bucket''" e]
      split_on_no_sep [OF assms(1)] by simp
  moreover have "last (''/bucket/'' @ e) \<noteq> CHR ''/''" using assms(1,2) by (metis last_appendR last_in_set)
  ultimately show ?thesis using assms(2-4) by (simp add: cleanPath_def path_Clean_def Let_def)
qed

text \<open>
  A client can name every key but the empty one, \<open>.\<close> and \<open>..\<close> by encoding it with \<open>url.PathEscape\<close>: slashes at its
  beginning or in a row survive when they are encoded.
\<close>

lemma key_reachable:
  assumes "key \<noteq> []" and "key \<noteq> ''.''" and "key \<noteq> ''..''"
  shows "\<exists>req'. setPath (''/bucket/'' @ PathEscape key) req = Some req' \<and> route_of req' = BucketRoute
    \<and> object_key req' = key \<and> req_method req' = req_method req \<and> remote_addr req' = remote_addr req"
proof -
  let ?p = "''/bucket/'' @ PathEscape key"
  have sl: "CHR ''/'' \<notin> set (PathEscape key)" using segment_chars(1) by blast
  have ne: "PathEscape key \<noteq> []" "PathEscape key \<noteq> ''.''" "PathEscape key \<noteq> ''..''"
    using escape_dots [of _ key] assms by blast+
  have pc: "escaped_in_segment CHR ''%''" by (simp add: escaped_in_segment_def unreserved_def is_digit_def is_upper_def is_lower_def)
  have "unescape (PathEscape key) = Some key"
    using unescape_escape [of escaped_in_segment key "[]"] pc by (simp add: PathEscape_def)
  then have u: "unescape ?p = Some (''/bucket/'' @ key)" by simp
  have v: "validEncoded ?p"
    using segment_chars(2) [of _ key]
    by (auto simp: validEncoded_def list_all_iff escaped_in_path_def unreserved_def is_lower_def)
  obtain req' where q: "setPath ?p req = Some req'" "url_path req' = ''/bucket/'' @ key" "EscapedPath req' = ?p"
      "req_method req' = req_method req" "remote_addr req' = remote_addr req"
    using setPath_encoded [OF v u, of req] by auto
  have c: "cleanPath ?p = ?p" by (rule clean_bucket_path [OF sl ne])
  have seg: "firstSegment (?p @ t) = (''bucket'', ''/'' @ PathEscape key @ t)" for t by (simp add: firstSegment_def)
  have m: "mux_match (?p @ t) = Some BucketRoute" for t using seg [of t] by (simp add: mux_match_def)
  have "last (PathEscape key) \<noteq> CHR ''/''" using sl ne(1) last_in_set by metis
  then have "count_list ?p CHR ''/'' = 2" "last ?p \<noteq> CHR ''/''" using sl ne(1) by (auto simp: count_notin)
  then have "slash_redirect ?p req' = None" using m [of "[]"] m [of "''/''"] by (simp add: slash_redirect_def exactMatch_def)
  then have "route_of req' = BucketRoute" using q(3) c m [of "[]"] by (simp add: route_of_def Let_def)
  moreover have "object_key req' = key" using q(2) by (simp add: object_key_def bucketPathPrefix_def)
  ultimately show ?thesis using q by blast
qed

text \<open>Which handler gets a request; a path that is sent with two slashes in a row is cleaned.\<close>

definition sent :: "string \<Rightarrow> string \<Rightarrow> request option" where
  "sent meth p = setPath p \<lparr>req_method = meth, url_path = [], url_raw_path = [], remote_addr = [], req_headers = Map.empty,
     req_body = [], content_length = 0\<rparr>"

lemma route_examples:
  "map_option route_of (sent ''GET'' ''/bucket/a/b'') = Some BucketRoute"
  "map_option route_of (sent ''GET'' ''/bucket/../health'') = Some (Redirect ''/health'')"
  "map_option route_of (sent ''GET'' ''/bucket'') = Some (Redirect ''/bucket/'')"
  "map_option route_of (sent ''PUT'' ''/bucket//a'') = Some (Redirect ''/bucket/a'')"
  "map_option route_of (sent ''PUT'' ''/bucket/%2Fa'') = Some BucketRoute"
  "map_option object_key (sent ''PUT'' ''/bucket/%2Fa'') = Some ''/a''"
  "map_option route_of (sent ''PUT'' ''/bucket%2Fa'') = Some NoRoute"
  "map_option route_of (sent ''CONNECT'' ''/bucket//a'') = Some BucketRoute"
  "sent ''GET'' ''/bucket/%'' = None"
  by code_simp+

section \<open>The program\<close>

definition default_flags :: gateway_flags where
  "default_flags = \<lparr>usePathStyle = False, hostsAllow = '''', hostsDeny = ''''\<rparr>"

text \<open>\<open>main\<close>: it exits with status 1 when the log settings, the environment or the access lists are invalid, when it cannot
  listen, and when it ends for another reason than a signal; else the requests are served with the access list of the flags.\<close>

definition s3gw_main ::
  "string option \<Rightarrow> (string \<Rightarrow> string) \<Rightarrow> gateway_flags \<Rightarrow> string option \<Rightarrow> (bool \<times> string option) option
     \<Rightarrow> (gateway_config \<Rightarrow> 'w gateway_env) \<Rightarrow> request list \<Rightarrow> 'w gateway \<Rightarrow> (outcome list \<times> 'w gateway) process" where
  "s3gw_main log_err getenv fl listen_err wait_end mk_env reqs g =
     (if log_err \<noteq> None then Exited 1
      else case configure getenv fl of
        Inl e \<Rightarrow> Exited 1
      | Inr cfg \<Rightarrow>
          if listen_err \<noteq> None then Exited 1
          else (case wait_end of
                  None \<Rightarrow> Running (serve_all (mk_env cfg) (access cfg) reqs g)
                | Some (signaled, err) \<Rightarrow> if \<not> signaled \<and> err \<noteq> None then Exited 1 else Exited 0))"

text \<open>A running gateway has its five variables and the lists of the flags; with the default flags nobody is denied.\<close>

lemma s3gw_main_running:
  assumes "s3gw_main log_err getenv fl listen_err wait_end mk_env reqs g = Running res"
  shows "\<exists>cfg. emptyEnvNames getenv = [] \<and> ParseAllowDeny (hostsAllow fl) (hostsDeny fl) = Inr (access cfg)
    \<and> res = serve_all (mk_env cfg) (access cfg) reqs g"
proof -
  obtain cfg where "configure getenv fl = Inr cfg" "res = serve_all (mk_env cfg) (access cfg) reqs g"
    using assms by (auto simp: s3gw_main_def split: if_splits sum.splits option.splits prod.splits)
  moreover from this(1) have "emptyEnvNames getenv = []" "ParseAllowDeny (hostsAllow fl) (hostsDeny fl) = Inr (access cfg)"
    by (auto simp: configure_def split: if_splits sum.splits)
  ultimately show ?thesis by blast
qed

end
