(* ===== verification/Json_Text.thy ===== *)
theory Json_Text
  imports Prelude
begin

text \<open>
  The texts of package \<open>encoding/json\<close>: syntax trees, the compact printer behind \<open>json.Marshal\<close>, the scanner behind
  \<open>json.Unmarshal\<close> and \<open>json.Decoder\<close>, and the decoding of a tree into strings, integers, slices and structs by the names
  of their fields. A number keeps its literal, since decoding into an integer depends on it. Strings are stream_bytes: the
  printer and the scanner treat UTF-8 as the package does, stream_bytes that are not valid UTF-8 become U+FFFD.

  What is printed can be read back. The locale \<open>json_codec\<close> is the contract of a type that is stored as JSON: it
  decodes what it encodes. The types of the programs that exchange JSON interpret it.
\<close>

section \<open>Trees\<close>

datatype jtree =
    TNull
  | TBool bool
  | TNum string
  | TStr string
  | TArr "jtree list"
  | TObj "(string \<times> jtree) list"

abbreviation byte_of :: "char \<Rightarrow> nat" where
  "byte_of c \<equiv> of_char c"

definition TInt :: "int \<Rightarrow> jtree" where
  "TInt i = TNum (itoa i)"

section \<open>UTF-8\<close>

definition cont_byte :: "char \<Rightarrow> bool" where
  "cont_byte c \<longleftrightarrow> 128 \<le> byte_of c \<and> byte_of c \<le> 191"

text \<open>The number of bytes of the character that a text starts with, 0 when it is not valid.\<close>

definition rune_len :: "string \<Rightarrow> nat" where
  "rune_len s =
     (case s of
        [] \<Rightarrow> 0
      | a # t \<Rightarrow>
          let n = (if byte_of a < 128 then 1 else if byte_of a < 194 then 0 else if byte_of a < 224 then 2
                   else if byte_of a < 240 then 3 else if byte_of a < 245 then 4 else 0);
              low = (if byte_of a = 224 then 160 else if byte_of a = 240 then 144 else 128);
              high = (if byte_of a = 237 then 159 else if byte_of a = 244 then 143 else 191)
          in if n \<le> 1 then n
             else if n - 1 \<le> length t \<and> low \<le> byte_of (t ! 0) \<and> byte_of (t ! 0) \<le> high
                     \<and> list_all cont_byte (take (n - 1) t) then n else 0)"

definition utf8_encode :: "nat \<Rightarrow> string" where
  "utf8_encode n = map char_of
     (if n < 128 then [n]
      else if n < 2048 then [192 + n div 64, 128 + n mod 64]
      else if n < 65536 then [224 + n div 4096, 128 + n div 64 mod 64, 128 + n mod 64]
      else [240 + n div 262144, 128 + n div 4096 mod 64, 128 + n div 64 mod 64, 128 + n mod 64])"

definition fffd :: string where
  "fffd = utf8_encode 65533"

section \<open>Printing\<close>

definition hex_digit :: "nat \<Rightarrow> char" where
  "hex_digit d = char_of (if d < 10 then 48 + d else 87 + d)"

text \<open>A byte of the ASCII range; the characters of HTML are escaped too.\<close>

definition print_ascii :: "char \<Rightarrow> string" where
  "print_ascii c =
     (if c = CHR 0x22 \<or> c = CHR 0x5C then [CHR 0x5C, c]
      else if byte_of c = 8 then [CHR 0x5C, CHR ''b''] else if byte_of c = 12 then [CHR 0x5C, CHR ''f'']
      else if byte_of c = 10 then [CHR 0x5C, CHR ''n''] else if byte_of c = 13 then [CHR 0x5C, CHR ''r'']
      else if byte_of c = 9 then [CHR 0x5C, CHR ''t'']
      else if byte_of c < 32 \<or> c = CHR ''<'' \<or> c = CHR ''>'' \<or> c = CHR ''&''
      then [CHR 0x5C, CHR ''u'', CHR ''0'', CHR ''0'', hex_digit (byte_of c div 16), hex_digit (byte_of c mod 16)]
      else [c])"

function print_chars :: "string \<Rightarrow> string" where
  "print_chars s =
     (case s of
        [] \<Rightarrow> []
      | c # t \<Rightarrow>
          if byte_of c < 128 then print_ascii c @ print_chars t
          else if rune_len s = 0 then CHR 0x5C # ''ufffd'' @ print_chars t
          else if take 3 s = utf8_encode 8232 then CHR 0x5C # ''u2028'' @ print_chars (drop 3 s)
          else if take 3 s = utf8_encode 8233 then CHR 0x5C # ''u2029'' @ print_chars (drop 3 s)
          else take (rune_len s) s @ print_chars (drop (rune_len s) s))"
  by pat_completeness auto
termination
  by (relation "measure length") (auto simp: utf8_encode_def)

declare print_chars.simps [simp del]

definition print_string :: "string \<Rightarrow> string" where
  "print_string s = CHR 0x22 # print_chars s @ [CHR 0x22]"

fun print_json :: "jtree \<Rightarrow> string" where
  "print_json TNull = ''null''"
| "print_json (TBool b) = (if b then ''true'' else ''false'')"
| "print_json (TNum l) = l"
| "print_json (TStr s) = print_string s"
| "print_json (TArr ts) = ''['' @ join '','' (map print_json ts) @ '']''"
| "print_json (TObj kvs) = ''{'' @ join '','' (map (\<lambda>(k, t). print_string k @ '':'' @ print_json t) kvs) @ ''}''"

section \<open>Scanning strings and numbers\<close>

definition json_space :: "char \<Rightarrow> bool" where
  "json_space c \<longleftrightarrow> byte_of c \<in> {9, 10, 13, 32}"

definition skip_ws :: "string \<Rightarrow> string" where
  "skip_ws s = dropWhile json_space s"

definition hex_val :: "char \<Rightarrow> nat option" where
  "hex_val c =
     (if is_digit c then Some (byte_of c - 48)
      else if 97 \<le> byte_of c \<and> byte_of c \<le> 102 then Some (byte_of c - 87)
      else if 65 \<le> byte_of c \<and> byte_of c \<le> 70 then Some (byte_of c - 55) else None)"

text \<open>A string literal between its quotes: bytes, and the code units of \<open>\u\<close> escapes.\<close>

datatype piece = Byte char | CodeUnit nat

definition escape_char :: "char \<Rightarrow> char option" where
  "escape_char e = map_of [(CHR 0x22, CHR 0x22), (CHR 0x5C, CHR 0x5C), (CHR ''/'', CHR ''/''), (CHR ''b'', char_of (8 :: nat)),
     (CHR ''f'', char_of (12 :: nat)), (CHR ''n'', char_of (10 :: nat)), (CHR ''r'', char_of (13 :: nat)), (CHR ''t'', char_of (9 :: nat))] e"

definition hex4 :: "string \<Rightarrow> nat option" where
  "hex4 s =
     (if length s < 4 then None
      else map_option (foldl (\<lambda>n d. 16 * n + d) 0) (those (map hex_val (take 4 s))))"

function scan_pieces :: "string \<Rightarrow> (piece list \<times> string) option" where
  "scan_pieces s =
     (case s of
        [] \<Rightarrow> None
      | c # t \<Rightarrow>
          if c = CHR 0x22 then Some ([], t)
          else if c = CHR 0x5C then
            (case t of
               [] \<Rightarrow> None
             | e # u \<Rightarrow>
                 if e = CHR ''u'' then
                   (case hex4 u of
                      None \<Rightarrow> None
                    | Some n \<Rightarrow> map_option (apfst ((#) (CodeUnit n))) (scan_pieces (drop 4 u)))
                 else (case escape_char e of
                         None \<Rightarrow> None
                       | Some x \<Rightarrow> map_option (apfst ((#) (Byte x))) (scan_pieces u)))
          else if byte_of c < 32 then None
          else map_option (apfst ((#) (Byte c))) (scan_pieces t))"
  by pat_completeness auto
termination
  by (relation "measure length") auto

declare scan_pieces.simps [simp del]

definition high_surrogate :: "nat \<Rightarrow> bool" where
  "high_surrogate n \<longleftrightarrow> 55296 \<le> n \<and> n < 56320"

definition low_surrogate :: "nat \<Rightarrow> bool" where
  "low_surrogate n \<longleftrightarrow> 56320 \<le> n \<and> n < 57344"

definition byte_prefix :: "piece list \<Rightarrow> string" where
  "byte_prefix ps = map (\<lambda>p. case p of Byte c \<Rightarrow> c | CodeUnit _ \<Rightarrow> CHR 0x00) (takeWhile (\<lambda>p. case p of Byte _ \<Rightarrow> True | CodeUnit _ \<Rightarrow> False) ps)"

function unquote :: "piece list \<Rightarrow> string" where
  "unquote ps =
     (case ps of
        [] \<Rightarrow> []
      | Byte c # qs \<Rightarrow>
          if byte_of c < 128 then c # unquote qs
          else let s = byte_prefix ps in
            if rune_len s = 0 then fffd @ unquote qs
            else take (rune_len s) s @ unquote (drop (rune_len s) ps)
      | CodeUnit n # qs \<Rightarrow>
          if high_surrogate n \<or> low_surrogate n then
            (case qs of
               CodeUnit k # rs \<Rightarrow>
                 if high_surrogate n \<and> low_surrogate k
                 then utf8_encode (65536 + (n - 55296) * 1024 + (k - 56320)) @ unquote rs
                 else fffd @ unquote qs
             | _ \<Rightarrow> fffd @ unquote qs)
          else utf8_encode n @ unquote qs)"
  by pat_completeness auto
termination
  by (relation "measure length") auto

declare unquote.simps [simp del]

text \<open>A string literal after its opening quote.\<close>

definition scan_string :: "string \<Rightarrow> (string \<times> string) option" where
  "scan_string s = map_option (apfst unquote) (scan_pieces s)"

definition scan_digits :: "string \<Rightarrow> (string \<times> string) option" where
  "scan_digits s =
     (let ds = takeWhile is_digit s in if ds = [] then None else Some (ds, drop (length ds) s))"

text \<open>A number: an optional minus, an integer part without leading zeros, a fraction and an exponent.\<close>

definition scan_int_part :: "string \<Rightarrow> (string \<times> string) option" where
  "scan_int_part s =
     (case s of
        [] \<Rightarrow> None
      | c # t \<Rightarrow> if c = CHR ''0'' then Some (''0'', t) else scan_digits s)"

definition scan_frac :: "string \<Rightarrow> (string \<times> string) option" where
  "scan_frac s =
     (case s of
        [] \<Rightarrow> Some ([], [])
      | c # t \<Rightarrow> if c = CHR ''.'' then map_option (apfst ((#) c)) (scan_digits t) else Some ([], s))"

definition scan_exp :: "string \<Rightarrow> (string \<times> string) option" where
  "scan_exp s =
     (case s of
        [] \<Rightarrow> Some ([], [])
      | c # t \<Rightarrow>
          if c = CHR ''e'' \<or> c = CHR ''E'' then
            (case t of
               [] \<Rightarrow> None
             | d # u \<Rightarrow> if d = CHR ''+'' \<or> d = CHR ''-'' then map_option (apfst (\<lambda>ds. c # d # ds)) (scan_digits u)
                        else map_option (apfst ((#) c)) (scan_digits t))
          else Some ([], s))"

definition scan_number :: "string \<Rightarrow> (string \<times> string) option" where
  "scan_number s =
     (let (sign, s0) = (if s \<noteq> [] \<and> hd s = CHR ''-'' then (''-'', tl s) else ([], s)) in
      case scan_int_part s0 of None \<Rightarrow> None | Some (i, s1) \<Rightarrow>
     (case scan_frac s1 of None \<Rightarrow> None | Some (f, s2) \<Rightarrow>
     (case scan_exp s2 of None \<Rightarrow> None | Some (e, s3) \<Rightarrow> Some (sign @ i @ f @ e, s3))))"

section \<open>Scanning values\<close>

text \<open>
  The value at the start of a text and what follows it. \<open>d\<close> is the number of arrays and objects that may still be opened;
  the package allows 10000. The fuel bounds the calls; twice the length of the text and one more is enough.
\<close>

definition max_depth :: nat where
  "max_depth = 10000"

definition after_ws :: "char \<Rightarrow> string \<Rightarrow> string option" where
  "after_ws c s = (case skip_ws s of [] \<Rightarrow> None | x # t \<Rightarrow> if x = c then Some t else None)"

fun scan_value :: "nat \<Rightarrow> nat \<Rightarrow> string \<Rightarrow> (jtree \<times> string) option"
  and scan_elems :: "nat \<Rightarrow> nat \<Rightarrow> string \<Rightarrow> (jtree list \<times> string) option"
  and scan_members :: "nat \<Rightarrow> nat \<Rightarrow> string \<Rightarrow> ((string \<times> jtree) list \<times> string) option" where
  "scan_value 0 d s = None"
| "scan_value (Suc n) d s =
     (case skip_ws s of
        [] \<Rightarrow> None
      | c # t \<Rightarrow>
          if c = CHR ''{'' then
            (case d of
               0 \<Rightarrow> None
             | Suc d' \<Rightarrow>
                 (case after_ws CHR ''}'' t of
                    Some u \<Rightarrow> Some (TObj [], u)
                  | None \<Rightarrow> map_option (apfst TObj) (scan_members n d' t)))
          else if c = CHR ''['' then
            (case d of
               0 \<Rightarrow> None
             | Suc d' \<Rightarrow>
                 (case after_ws CHR '']'' t of
                    Some u \<Rightarrow> Some (TArr [], u)
                  | None \<Rightarrow> map_option (apfst TArr) (scan_elems n d' t)))
          else if c = CHR 0x22 then map_option (apfst TStr) (scan_string t)
          else if has_prefix (c # t) ''true'' then Some (TBool True, drop 4 (c # t))
          else if has_prefix (c # t) ''false'' then Some (TBool False, drop 5 (c # t))
          else if has_prefix (c # t) ''null'' then Some (TNull, drop 4 (c # t))
          else map_option (apfst TNum) (scan_number (c # t)))"
| "scan_elems 0 d s = None"
| "scan_elems (Suc n) d s =
     (case scan_value n d s of
        None \<Rightarrow> None
      | Some (v, t) \<Rightarrow>
          (case after_ws CHR '']'' t of
             Some u \<Rightarrow> Some ([v], u)
           | None \<Rightarrow> (case after_ws CHR '','' t of
                        None \<Rightarrow> None
                      | Some u \<Rightarrow> map_option (apfst ((#) v)) (scan_elems n d u))))"
| "scan_members 0 d s = None"
| "scan_members (Suc n) d s =
     (case after_ws CHR 0x22 s of None \<Rightarrow> None | Some t0 \<Rightarrow>
     (case scan_string t0 of None \<Rightarrow> None | Some (k, t1) \<Rightarrow>
     (case after_ws CHR '':'' t1 of None \<Rightarrow> None | Some t2 \<Rightarrow>
     (case scan_value n d t2 of
        None \<Rightarrow> None
      | Some (v, t) \<Rightarrow>
          (case after_ws CHR ''}'' t of
             Some u \<Rightarrow> Some ([(k, v)], u)
           | None \<Rightarrow> (case after_ws CHR '','' t of
                        None \<Rightarrow> None
                      | Some u \<Rightarrow> map_option (apfst ((#) (k, v))) (scan_members n d u)))))))"

definition scan_first :: "string \<Rightarrow> (jtree \<times> string) option" where
  "scan_first s = scan_value (2 * length s + 1) max_depth s"

text \<open>\<open>json.Unmarshal\<close> takes the whole text.\<close>

definition parse_json :: "string \<Rightarrow> jtree option" where
  "parse_json s = (case scan_first s of None \<Rightarrow> None | Some (t, rest) \<Rightarrow> if skip_ws rest = [] then Some t else None)"

text \<open>
  \<open>Decoder.Decode\<close> takes the first value of a stream: the stream_bytes that can be read and the error, if any, that ends
  them. An array or object ends with its bracket; the end of any other value shows only at the next byte or at the end of
  the stream.
\<close>

record stream =
  stream_bytes :: string
  stream_error :: "string option"

definition decode_first :: "stream \<Rightarrow> jtree option" where
  "decode_first s =
     (case scan_first (stream_bytes s) of
        None \<Rightarrow> None
      | Some (t, rest) \<Rightarrow>
          if stream_error s = None \<or> rest \<noteq> [] then Some t
          else (case t of TArr _ \<Rightarrow> Some t | TObj _ \<Rightarrow> Some t | _ \<Rightarrow> None))"

section \<open>Decoding into Go values\<close>

text \<open>A decoder changes the value that is there; \<^term>\<open>None\<close> is a type error. A null changes nothing.\<close>

type_synonym 'r decoder = "jtree \<Rightarrow> 'r \<Rightarrow> 'r option"

definition dec_string :: "string decoder" where
  "dec_string t old = (case t of TNull \<Rightarrow> Some old | TStr s \<Rightarrow> Some s | _ \<Rightarrow> None)"

definition dec_integer :: "int decoder" where
  "dec_integer t old = (case t of TNull \<Rightarrow> Some old | TNum l \<Rightarrow> atoi l | _ \<Rightarrow> None)"

text \<open>A slice is decoded anew; a null makes it nil.\<close>

definition dec_slice :: "'r decoder \<Rightarrow> 'r \<Rightarrow> 'r list decoder" where
  "dec_slice dec zero t old =
     (case t of TNull \<Rightarrow> Some [] | TArr ts \<Rightarrow> those (map (\<lambda>t. dec t zero) ts) | _ \<Rightarrow> None)"

text \<open>Where a nil slice differs from an empty one, nil is \<^term>\<open>None\<close>.\<close>

definition dec_nilable :: "'r decoder \<Rightarrow> 'r \<Rightarrow> 'r list option decoder" where
  "dec_nilable dec zero t old = (if t = TNull then Some None else map_option Some (dec_slice dec zero t []))"

text \<open>The folding of names: letters to one case, the long s (U+017F) to s and the Kelvin sign (U+212A) to k. No other
  character folds to a letter of a name of a field.\<close>

fun fold_name :: "string \<Rightarrow> string" where
  "fold_name [] = []"
| "fold_name (c # cs) =
     (if c = CHR 0xC5 \<and> take 1 cs = [CHR 0xBF] then CHR ''s'' # fold_name (drop 1 cs)
      else if c = CHR 0xE2 \<and> take 2 cs = [CHR 0x84, CHR 0xAA] then CHR ''k'' # fold_name (drop 2 cs)
      else lower_char c # fold_name cs)"

text \<open>A struct: each key of the object finds the field of that name, else one of the same folded name; other keys are
  ignored.\<close>

definition find_field :: "(string \<times> 'a) list \<Rightarrow> string \<Rightarrow> 'a option" where
  "find_field fs k =
     (case map_of fs k of
        Some f \<Rightarrow> Some f
      | None \<Rightarrow> map_option snd (find (\<lambda>(n, f). fold_name n = fold_name k) fs))"

fun dec_members :: "(string \<times> 'r decoder) list \<Rightarrow> (string \<times> jtree) list \<Rightarrow> 'r \<Rightarrow> 'r option" where
  "dec_members fs [] r = Some r"
| "dec_members fs ((k, t) # kvs) r =
     (case find_field fs k of
        None \<Rightarrow> dec_members fs kvs r
      | Some dec \<Rightarrow> (case dec t r of None \<Rightarrow> None | Some r' \<Rightarrow> dec_members fs kvs r'))"

definition dec_struct :: "(string \<times> 'r decoder) list \<Rightarrow> 'r decoder" where
  "dec_struct fs t r = (case t of TNull \<Rightarrow> Some r | TObj kvs \<Rightarrow> dec_members fs kvs r | _ \<Rightarrow> None)"

text \<open>A field: how it is read and written, and the decoder of its type.\<close>

definition struct_field :: "('r \<Rightarrow> 'a) \<Rightarrow> ('a \<Rightarrow> 'r \<Rightarrow> 'r) \<Rightarrow> 'a decoder \<Rightarrow> 'r decoder" where
  "struct_field get put dec t r = map_option (\<lambda>a. put a r) (dec t (get r))"

section \<open>Facts: strings\<close>

lemma skip_ws_le: "length (skip_ws s) \<le> length s"
  by (simp add: skip_ws_def length_dropWhile_le)

lemma skip_ws_Cons [simp]: "\<not> json_space c \<Longrightarrow> skip_ws (c # s) = c # s"
  by (simp add: skip_ws_def)

lemma after_ws_shorter: "after_ws c s = Some t \<Longrightarrow> length t < length s"
  using skip_ws_le [of s] by (auto simp: after_ws_def split: list.splits if_splits)

lemma after_ws_Cons [simp]: "\<not> json_space x \<Longrightarrow> after_ws c (x # s) = (if x = c then Some s else None)"
  by (simp add: after_ws_def)

lemma json_space_ascii [simp]:
  "\<not> json_space CHR ''['' \<and> \<not> json_space CHR '']'' \<and> \<not> json_space CHR ''{'' \<and> \<not> json_space CHR ''}''
   \<and> \<not> json_space CHR '','' \<and> \<not> json_space CHR '':'' \<and> \<not> json_space CHR 0x22"
  by (simp add: json_space_def)

text \<open>Every ASCII byte is read back from what is printed for it.\<close>

lemma hex_val_digit: "d < 16 \<Longrightarrow> hex_val (hex_digit d) = Some d"
  by (auto simp: hex_val_def hex_digit_def is_digit_def)

lemma scan_plain:
  "c \<noteq> CHR 0x22 \<Longrightarrow> c \<noteq> CHR 0x5C \<Longrightarrow> 32 \<le> byte_of c \<Longrightarrow>
   scan_pieces (c # s) = map_option (apfst ((#) (Byte c))) (scan_pieces s)"
  by (simp add: scan_pieces.simps [of "c # s"])

lemma scan_escape:
  "e \<noteq> CHR ''u'' \<Longrightarrow> escape_char e = Some x \<Longrightarrow>
   scan_pieces (CHR 0x5C # e # s) = map_option (apfst ((#) (Byte x))) (scan_pieces s)"
  by (simp add: scan_pieces.simps [of "CHR 0x5C # e # s"])

lemma scan_hex:
  "a < 16 \<Longrightarrow> b < 16 \<Longrightarrow>
   scan_pieces (CHR 0x5C # CHR ''u'' # CHR ''0'' # CHR ''0'' # hex_digit a # hex_digit b # s)
     = map_option (apfst ((#) (CodeUnit (16 * a + b)))) (scan_pieces s)"
  by (subst scan_pieces.simps) (simp add: hex4_def hex_val_digit, simp add: hex_val_def is_digit_def)

text \<open>The pieces of a printed ASCII text: some bytes come as code units.\<close>

definition piece_of :: "char \<Rightarrow> piece" where
  "piece_of c = (if byte_of c < 32 \<and> byte_of c \<notin> {8, 9, 10, 12, 13} \<or> c \<in> {CHR ''<'', CHR ''>'', CHR ''&''}
     then CodeUnit (byte_of c) else Byte c)"

lemma scan_print_ascii:
  assumes "byte_of c < 128"
  shows "scan_pieces (print_ascii c @ s) = map_option (apfst ((#) (piece_of c))) (scan_pieces s)"
proof -
  have hex: "scan_pieces (CHR 0x5C # CHR ''u'' # CHR ''0'' # CHR ''0'' # hex_digit (byte_of c div 16) # hex_digit (byte_of c mod 16) # s)
      = map_option (apfst ((#) (CodeUnit (byte_of c)))) (scan_pieces s)"
    using assms by (subst scan_hex) simp_all
  consider (q) "c = CHR 0x22 \<or> c = CHR 0x5C" | (ctl) "byte_of c \<in> {8, 9, 10, 12, 13}"
    | (hex) "byte_of c < 32 \<and> byte_of c \<notin> {8, 9, 10, 12, 13} \<or> c \<in> {CHR ''<'', CHR ''>'', CHR ''&''}"
    | (plain) "32 \<le> byte_of c" "c \<notin> {CHR 0x22, CHR 0x5C, CHR ''<'', CHR ''>'', CHR ''&''}"
    by fastforce
  then show ?thesis
  proof cases
    case q
    then show ?thesis by (auto simp: print_ascii_def piece_of_def scan_escape escape_char_def)
  next
    case ctl
    moreover from ctl have "c \<notin> {CHR 0x22, CHR 0x5C, CHR ''<'', CHR ''>'', CHR ''&''}" by auto
    moreover have "c = char_of (byte_of c)" by simp
    ultimately show ?thesis
      by (auto simp: print_ascii_def piece_of_def scan_escape escape_char_def simp del: char_of_char)
  next
    case hex
    then show ?thesis using \<open>scan_pieces _ = _\<close> by (auto simp: print_ascii_def piece_of_def)
  next
    case plain
    then show ?thesis by (simp add: print_ascii_def piece_of_def scan_plain)
  qed
qed

lemma unquote_pieces: "list_all (\<lambda>c. byte_of c < 128) s \<Longrightarrow> unquote (map piece_of s) = s"
proof (induction s)
  case (Cons c s)
  show ?case
  proof (cases "piece_of c")
    case (Byte d)
    then show ?thesis using Cons by (simp add: unquote.simps [of "_ # _"] piece_of_def split: if_splits)
  next
    case (CodeUnit n)
    then have "n = byte_of c" by (simp add: piece_of_def split: if_splits)
    then show ?thesis
      using Cons CodeUnit by (simp add: unquote.simps [of "_ # _"] high_surrogate_def low_surrogate_def utf8_encode_def)
  qed
qed (simp add: unquote.simps)

lemma scan_print_chars:
  "list_all (\<lambda>c. byte_of c < 128) s \<Longrightarrow> scan_pieces (print_chars s @ CHR 0x22 # rest) = Some (map piece_of s, rest)"
proof (induction s)
  case Nil
  then show ?case by (simp add: print_chars.simps scan_pieces.simps)
next
  case (Cons c s)
  then show ?case by (simp add: print_chars.simps [of "c # s"] scan_print_ascii)
qed

lemma scan_print_string:
  "list_all (\<lambda>c. byte_of c < 128) s \<Longrightarrow> scan_string (print_chars s @ CHR 0x22 # rest) = Some (s, rest)"
  by (simp add: scan_string_def scan_print_chars unquote_pieces)

section \<open>Facts: values\<close>

text \<open>What may follow a value in a text.\<close>

definition delimited :: "string \<Rightarrow> bool" where
  "delimited s \<longleftrightarrow> s = [] \<or> hd s \<in> {CHR '','', CHR '']'', CHR ''}''}"

lemma scan_digits_append:
  "list_all is_digit ds \<Longrightarrow> ds \<noteq> [] \<Longrightarrow> delimited rest \<Longrightarrow> scan_digits (ds @ rest) = Some (ds, rest)"
proof -
  assume ds: "list_all is_digit ds" "ds \<noteq> []" and "delimited rest"
  then have "rest = [] \<or> \<not> is_digit (hd rest)" by (auto simp: delimited_def is_digit_def)
  then have "takeWhile is_digit rest = []" by (cases rest) auto
  moreover have "takeWhile is_digit (ds @ rest) = ds @ takeWhile is_digit rest"
    using ds(1) by (simp add: takeWhile_append2 list_all_iff)
  ultimately show ?thesis using ds(2) by (simp add: scan_digits_def)
qed

lemma show_nat_zero: "show_nat 0 = ''0''"
  by code_simp

lemma show_nat_head: "0 < n \<Longrightarrow> hd (show_nat n) \<noteq> CHR ''0''"
proof (induction n rule: show_nat.induct)
  case (1 n)
  show ?case
  proof (cases "n < 10")
    case True
    have "of_char (digit_char n) \<noteq> (48 :: nat)" using True 1(2) by (simp add: digit_char_def)
    then show ?thesis using True by (auto simp: show_nat.simps [of n])
  next
    case False
    then show ?thesis using 1 by (simp add: show_nat.simps [of n])
  qed
qed

lemma scan_number_itoa:
  assumes "delimited rest"
  shows "scan_number (itoa i @ rest) = Some (itoa i, rest)"
proof -
  have int: "scan_int_part (show_nat n @ rest) = Some (show_nat n, rest)" for n
  proof (cases "n = 0")
    case False
    have "show_nat n \<noteq> [] \<and> hd (show_nat n) \<noteq> CHR ''0''" using show_nat_head False by simp
    then obtain c cs where c: "show_nat n = c # cs" "c \<noteq> CHR ''0''" by (cases "show_nat n") auto
    then show ?thesis
      using scan_digits_append [OF show_nat_digits _ assms, of n] by (simp add: scan_int_part_def)
  qed (simp add: scan_int_part_def show_nat_zero)
  have "hd (show_nat n @ rest) \<noteq> CHR ''-''" for n
    using show_nat_digits [of n] by (cases "show_nat n") (auto simp: is_digit_def)
  moreover have "scan_frac rest = Some ([], rest)" "scan_exp rest = Some ([], rest)"
    using assms by (auto simp: delimited_def scan_frac_def scan_exp_def split: list.splits)
  ultimately show ?thesis by (simp add: scan_number_def itoa_def int)
qed

text \<open>Trees whose texts are ASCII, whose numbers are integers of 64 bits, and whose nesting is at most \<open>d\<close>.\<close>

definition ascii :: "string \<Rightarrow> bool" where
  "ascii s \<longleftrightarrow> list_all (\<lambda>c. byte_of c < 128) s"

fun printable :: "nat \<Rightarrow> jtree \<Rightarrow> bool" where
  "printable d (TNum l) \<longleftrightarrow> (case atoi l of None \<Rightarrow> False | Some i \<Rightarrow> l = itoa i)"
| "printable d (TStr s) \<longleftrightarrow> ascii s"
| "printable d (TArr ts) \<longleftrightarrow> 0 < d \<and> list_all (printable (d - 1)) ts"
| "printable d (TObj kvs) \<longleftrightarrow> 0 < d \<and> list_all (\<lambda>(k, t). ascii k \<and> printable (d - 1) t) kvs"
| "printable d _ \<longleftrightarrow> True"

lemma itoa_head: "\<exists>c s. itoa i = c # s \<and> (is_digit c \<or> c = CHR ''-'')"
proof -
  have "\<exists>c s. show_nat n = c # s \<and> is_digit c" for n
    using show_nat_digits [of n] by (cases "show_nat n") auto
  then show ?thesis unfolding itoa_def by (metis)
qed

lemma print_head:
  "printable d t \<Longrightarrow> \<exists>c s. print_json t = c # s \<and> \<not> json_space c \<and> c \<notin> {CHR '']'', CHR ''}'', CHR '',''}"
proof (cases t)
  case (TNum l)
  assume "printable d t"
  then obtain i where "l = itoa i" using TNum by (auto split: option.splits)
  then show ?thesis using itoa_head [of i] TNum by (auto simp: json_space_def is_digit_def)
qed (auto simp: print_string_def json_space_def)

lemma join_Cons: "join sep (x # xs) = x @ (if xs = [] then [] else sep @ join sep xs)"
  by (cases xs) simp_all

text \<open>The value of a printed tree is read back, and what follows it is left.\<close>

definition reads_back :: "nat \<Rightarrow> jtree \<Rightarrow> bool" where
  "reads_back d t \<longleftrightarrow> (\<forall>n rest. 2 * length (print_json t) < n \<longrightarrow> delimited rest
     \<longrightarrow> scan_value n d (print_json t @ rest) = Some (t, rest))"

lemma scan_elems_print:
  assumes "list_all (\<lambda>t. printable d t \<and> reads_back d t) ts" and "ts \<noteq> []"
    and "2 * length (join '','' (map print_json ts)) + 1 < n"
  shows "scan_elems n d (join '','' (map print_json ts) @ CHR '']'' # rest) = Some (ts, rest)"
  using assms
proof (induction ts arbitrary: n)
  case (Cons t ts)
  obtain m where n: "n = Suc m" using Cons.prems(3) by (cases n) simp_all
  let ?more = "(if ts = [] then [] else CHR '','' # join '','' (map print_json ts)) @ CHR '']'' # rest"
  have "delimited ?more" by (simp add: delimited_def)
  then have v: "scan_value m d (print_json t @ ?more) = Some (t, ?more)"
    using Cons.prems n unfolding reads_back_def by (simp add: join_Cons)
  show ?case
  proof (cases "ts = []")
    case True
    then show ?thesis using v n by simp
  next
    case False
    then have "scan_elems m d (join '','' (map print_json ts) @ CHR '']'' # rest) = Some (ts, rest)"
      using Cons.IH [of m] Cons.prems n by (simp add: join_Cons)
    then show ?thesis using v n False by (simp add: join_Cons)
  qed
qed simp

lemma scan_members_print:
  assumes "list_all (\<lambda>(k, t). ascii k \<and> printable d t \<and> reads_back d t) kvs" and "kvs \<noteq> []"
    and "2 * length (join '','' (map (\<lambda>(k, t). print_string k @ '':'' @ print_json t) kvs)) + 1 < n"
  shows "scan_members n d (join '','' (map (\<lambda>(k, t). print_string k @ '':'' @ print_json t) kvs) @ CHR ''}'' # rest)
    = Some (kvs, rest)"
  using assms
proof (induction kvs arbitrary: n)
  case (Cons kv kvs)
  obtain k t where kv: "kv = (k, t)" by fastforce
  obtain m where n: "n = Suc m" using Cons.prems(3) by (cases n) simp_all
  let ?join = "\<lambda>kvs. join '','' (map (\<lambda>(k, t). print_string k @ '':'' @ print_json t) kvs)"
  let ?more = "(if kvs = [] then [] else CHR '','' # ?join kvs) @ CHR ''}'' # rest"
  have "delimited ?more" by (simp add: delimited_def)
  then have v: "scan_value m d (print_json t @ ?more) = Some (t, ?more)"
    using Cons.prems n kv unfolding reads_back_def by (simp add: join_Cons)
  have k: "scan_string (print_chars k @ CHR 0x22 # CHR '':'' # print_json t @ ?more) = Some (k, CHR '':'' # print_json t @ ?more)"
    using Cons.prems(1) kv by (intro scan_print_string) (simp add: ascii_def)
  show ?case
  proof (cases "kvs = []")
    case True
    then show ?thesis using v k n kv by (simp add: print_string_def)
  next
    case False
    then have "scan_members m d (?join kvs @ CHR ''}'' # rest) = Some (kvs, rest)"
      using Cons.IH [of m] Cons.prems n kv by (simp add: join_Cons)
    then show ?thesis using v k n kv False by (simp add: join_Cons print_string_def)
  qed
qed simp

lemma reads_backI:
  assumes "\<And>m rest. delimited rest \<Longrightarrow> scan_value (Suc m) d (print_json t @ rest) = Some (t, rest)"
  shows "reads_back d t"
  using assms unfolding reads_back_def by (metis Suc_diff_1 less_nat_zero_code neq0_conv)

lemma reads_back_arr:
  assumes ok: "list_all (\<lambda>t. printable e t \<and> reads_back e t) ts"
  shows "reads_back (Suc e) (TArr ts)"
  unfolding reads_back_def
proof (intro allI impI)
  fix n rest
  assume n: "2 * length (print_json (TArr ts)) < n" and "delimited rest"
  then obtain m where m: "n = Suc m" by (cases n) simp_all
  show "scan_value n (Suc e) (print_json (TArr ts) @ rest) = Some (TArr ts, rest)"
  proof (cases ts)
    case (Cons u us)
    then have "after_ws CHR '']'' (join '','' (map print_json ts) @ CHR '']'' # rest) = None"
      using print_head [of e u] ok by (auto simp: join_Cons)
    moreover have "scan_elems m e (join '','' (map print_json ts) @ CHR '']'' # rest) = Some (ts, rest)"
      using scan_elems_print [OF ok, of m] n m Cons by simp
    ultimately show ?thesis using m by simp
  qed (simp add: m)
qed

lemma reads_back_obj:
  assumes ok: "list_all (\<lambda>(k, t). ascii k \<and> printable e t \<and> reads_back e t) kvs"
  shows "reads_back (Suc e) (TObj kvs)"
  unfolding reads_back_def
proof (intro allI impI)
  fix n rest
  let ?join = "join '','' (map (\<lambda>(k, t). print_string k @ '':'' @ print_json t) kvs)"
  assume n: "2 * length (print_json (TObj kvs)) < n" and "delimited rest"
  then obtain m where m: "n = Suc m" by (cases n) simp_all
  show "scan_value n (Suc e) (print_json (TObj kvs) @ rest) = Some (TObj kvs, rest)"
  proof (cases kvs)
    case (Cons kv more)
    then have "after_ws CHR ''}'' (?join @ CHR ''}'' # rest) = None"
      by (auto simp: join_Cons print_string_def split: prod.split)
    moreover have "scan_members m e (?join @ CHR ''}'' # rest) = Some (kvs, rest)"
      using scan_members_print [OF ok, of m] n m Cons by simp
    ultimately show ?thesis using m by simp
  qed (simp add: m)
qed

lemma scan_value_print: "printable d t \<Longrightarrow> reads_back d t"
proof (induction t arbitrary: d)
  case (TNum l)
  then obtain i where l: "l = itoa i" by (auto split: option.splits)
  obtain c s where c: "itoa i = c # s" "is_digit c \<or> c = CHR ''-''" using itoa_head by blast
  then have "\<not> json_space c" "c \<notin> {CHR ''{'', CHR ''['', CHR 0x22, CHR ''t'', CHR ''f'', CHR ''n''}"
    by (auto simp: json_space_def is_digit_def)
  then have "scan_value (Suc m) d (itoa i @ rest) = map_option (apfst TNum) (scan_number (itoa i @ rest))" for m rest
    unfolding c by (simp add: has_prefix_def)
  then show ?case by (intro reads_backI) (simp only: l print_json.simps scan_number_itoa, simp)
next
  case (TArr ts)
  then obtain e where "d = Suc e" "list_all (\<lambda>t. printable e t \<and> reads_back e t) ts"
    by (cases d) (auto simp: list_all_iff)
  then show ?case using reads_back_arr by simp
next
  case (TObj kvs)
  then obtain e where "d = Suc e" "list_all (\<lambda>(k, t). ascii k \<and> printable e t \<and> reads_back e t) kvs"
    by (cases d) (fastforce simp: list_all_iff)+
  then show ?case using reads_back_obj by simp
next
  case (TStr s)
  then have "scan_string (print_chars s @ CHR 0x22 # rest) = Some (s, rest)" for rest
    by (intro scan_print_string) (simp add: ascii_def)
  then have "scan_value (Suc m) d (print_string s @ rest) = Some (TStr s, rest)" for m rest
    by (simp add: print_string_def)
  then show ?case by (intro reads_backI) (simp only: print_json.simps)
next
  case TNull
  have "scan_value (Suc m) d (''null'' @ rest) = Some (TNull, rest)" for m rest
    by (simp add: has_prefix_def json_space_def)
  then show ?case by (intro reads_backI) (simp only: print_json.simps)
next
  case (TBool b)
  have "scan_value (Suc m) d ((if b then ''true'' else ''false'') @ rest) = Some (TBool b, rest)" for m rest
    by (simp add: has_prefix_def json_space_def)
  then show ?case by (intro reads_backI) (simp only: print_json.simps)
qed

lemma scan_first_print: "printable max_depth t \<Longrightarrow> scan_first (print_json t) = Some (t, [])"
  using scan_value_print [of max_depth t] unfolding scan_first_def reads_back_def delimited_def
  by (metis append_Nil2 less_add_one)

lemma parse_print: "printable max_depth t \<Longrightarrow> parse_json (print_json t) = Some t"
  by (simp add: parse_json_def scan_first_print skip_ws_def)

section \<open>Facts: the fuel\<close>

lemma scan_pieces_shorter: "scan_pieces s = Some (ps, r) \<Longrightarrow> length r < length s"
proof (induction s arbitrary: ps rule: measure_induct_rule [of length])
  case (less s)
  obtain c t where s: "s = c # t" using less.prems by (cases s) (simp_all add: scan_pieces.simps)
  from less.prems consider "r = t" | ps' where "scan_pieces t = Some (ps', r)"
    | e u ps' where "t = e # u" "scan_pieces u = Some (ps', r)"
    | e u ps' where "t = e # u" "scan_pieces (drop 4 u) = Some (ps', r)"
    unfolding s by (subst (asm) scan_pieces.simps) (auto split: if_splits list.splits option.splits)
  then show ?case
  proof cases
    case 2
    then have "length r < length t" using less.IH [of t ps'] s by simp
    then show ?thesis using s by simp
  next
    case 3
    then have "length r < length u" using less.IH [of u ps'] s by simp
    then show ?thesis using s 3 by simp
  next
    case 4
    then have "length r < length (drop 4 u)" using less.IH [of "drop 4 u" ps'] s by simp
    then show ?thesis using s 4 by simp
  qed (simp add: s)
qed

lemma scan_string_shorter: "scan_string s = Some (x, r) \<Longrightarrow> length r < length s"
  by (auto simp: scan_string_def dest: scan_pieces_shorter)

lemma scan_digits_shorter: "scan_digits s = Some (x, r) \<Longrightarrow> length r < length s"
  by (cases s) (auto simp: scan_digits_def Let_def split: if_splits)

lemma scan_number_shorter: "scan_number s = Some (x, r) \<Longrightarrow> length r < length s"
proof -
  have i: "length r < length s" if "scan_int_part s = Some (x, r)" for s x r
    using that by (auto simp: scan_int_part_def split: list.splits if_splits dest: scan_digits_shorter)
  have f: "length r \<le> length s" if "scan_frac s = Some (x, r)" for s x r
    using that by (fastforce simp: scan_frac_def split: list.splits if_splits dest: scan_digits_shorter)
  have e: "length r \<le> length s" if "scan_exp s = Some (x, r)" for s x r
    using that by (fastforce simp: scan_exp_def split: list.splits if_splits dest: scan_digits_shorter)
  assume "scan_number s = Some (x, r)"
  then obtain a s1 b s2 c where n: "scan_int_part (if s \<noteq> [] \<and> hd s = CHR ''-'' then tl s else s) = Some (a, s1)"
      "scan_frac s1 = Some (b, s2)" "scan_exp s2 = Some (c, r)"
    by (auto simp: scan_number_def Let_def split: option.splits if_splits)
  have "length (if s \<noteq> [] \<and> hd s = CHR ''-'' then tl s else s) \<le> length s" by simp
  with i [OF n(1)] f [OF n(2)] e [OF n(3)] show ?thesis by linarith
qed

lemma scan_shorter:
  "scan_value n d s = Some (t, r) \<Longrightarrow> length r < length s"
  "scan_elems n d s = Some (ts, r) \<Longrightarrow> length r < length s"
  "scan_members n d s = Some (kvs, r) \<Longrightarrow> length r < length s"
proof (induction n d s and n d s and n d s arbitrary: t r and ts r and kvs r
    rule: scan_value_scan_elems_scan_members.induct)
  case (2 n d s)
  show ?case
  proof (cases "skip_ws s")
    case (Cons c u)
    then have u: "length u < length s" using skip_ws_le [of s] by simp
    have members: "length r \<le> length u" if "d = Suc e" "c = CHR ''{''" "after_ws CHR ''}'' u = None"
        "scan_members n e u = Some (kvs, r)" for e kvs
      using 2(1) [OF Cons that(2,1,3,4)] by simp
    have elems: "length r \<le> length u" if "d = Suc e" "c = CHR ''[''" "after_ws CHR '']'' u = None"
        "scan_elems n e u = Some (ts, r)" for e ts
      using 2(2) [OF Cons _ that(2,1,3,4)] that(2) by simp
    from 2(3) Cons consider "length r \<le> length u" | "r = drop 4 (c # u)" | "r = drop 5 (c # u)"
      using members elems
      by (auto split: if_splits nat.splits option.splits dest!: after_ws_shorter scan_string_shorter scan_number_shorter)
    then show ?thesis using u by cases simp_all
  qed (use 2 in simp)
next
  case (4 n d s)
  then show ?case by (fastforce split: option.splits dest: after_ws_shorter)
next
  case (6 n d s)
  then show ?case by (fastforce split: option.splits dest!: after_ws_shorter scan_string_shorter)
qed simp_all

text \<open>More fuel than \<open>scan_first\<close> gives changes nothing.\<close>

lemma scan_more_fuel:
  "(\<forall>d s. 2 * length s < n \<longrightarrow> scan_value (Suc n) d s = scan_value n d s)
   \<and> (\<forall>d s. 2 * length s + 1 < n \<longrightarrow> scan_elems (Suc n) d s = scan_elems n d s)
   \<and> (\<forall>d s. 2 * length s + 1 < n \<longrightarrow> scan_members (Suc n) d s = scan_members n d s)"
proof (induction n)
  case (Suc n)
  have val: "scan_value (Suc (Suc n)) d s = scan_value (Suc n) d s" if "2 * length s < Suc n" for d s
  proof (cases "skip_ws s")
    case (Cons c u)
    then have "2 * length u + 1 < n" using skip_ws_le [of s] that by simp
    then have "scan_elems (Suc n) e u = scan_elems n e u" "scan_members (Suc n) e u = scan_members n e u" for e
      using Suc by blast+
    then show ?thesis unfolding scan_value.simps(2) [of "Suc n"] scan_value.simps(2) [of n] Cons list.case by (simp only:)
  qed simp
  have elems: "scan_elems (Suc (Suc n)) d s = scan_elems (Suc n) d s" if "2 * length s + 1 < Suc n" for d s
  proof -
    have v: "scan_value (Suc n) d s = scan_value n d s" using Suc that by simp
    have "scan_elems (Suc n) d u = scan_elems n d u" if "scan_value n d s = Some (x, t)" "after_ws CHR '','' t = Some u" for x t u
    proof -
      have "length u < length s" using scan_shorter(1) [OF that(1)] after_ws_shorter [OF that(2)] by simp
      then show ?thesis using Suc \<open>2 * length s + 1 < Suc n\<close> by simp
    qed
    then show ?thesis unfolding scan_elems.simps(2) [of "Suc n"] scan_elems.simps(2) [of n] v
      by (auto split: option.split prod.split simp del: scan_elems.simps scan_members.simps scan_value.simps)
  qed
  have members: "scan_members (Suc (Suc n)) d s = scan_members (Suc n) d s" if "2 * length s + 1 < Suc n" for d s
  proof -
    have v: "scan_value (Suc n) d t2 = scan_value n d t2"
      and m: "scan_value n d t2 = Some (x, t) \<Longrightarrow> after_ws CHR '','' t = Some u \<Longrightarrow> scan_members (Suc n) d u = scan_members n d u"
      if "after_ws CHR 0x22 s = Some t0" "scan_string t0 = Some (k, t1)" "after_ws CHR '':'' t1 = Some t2" for t0 k t1 t2 x t u
    proof -
      have t2: "length t2 < length s"
        using after_ws_shorter [OF that(1)] scan_string_shorter [OF that(2)] after_ws_shorter [OF that(3)] by simp
      then show "scan_value (Suc n) d t2 = scan_value n d t2" using Suc \<open>2 * length s + 1 < Suc n\<close> by simp
      assume r: "scan_value n d t2 = Some (x, t)" "after_ws CHR '','' t = Some u"
      have "length u < length s" using t2 scan_shorter(1) [OF r(1)] after_ws_shorter [OF r(2)] by simp
      then show "scan_members (Suc n) d u = scan_members n d u" using Suc \<open>2 * length s + 1 < Suc n\<close> by simp
    qed
    then show ?thesis unfolding scan_members.simps(2) [of "Suc n"] scan_members.simps(2) [of n]
      by (auto split: option.split prod.split simp del: scan_elems.simps scan_members.simps scan_value.simps)
  qed
  show ?case using val elems members by blast
qed simp

lemma scan_first_fuel: "2 * length s < n \<Longrightarrow> scan_value n max_depth s = scan_first s"
proof (induction n)
  case (Suc n)
  show ?case
  proof (cases "n = 2 * length s")
    case False
    then have "scan_value (Suc n) max_depth s = scan_value n max_depth s" using Suc.prems scan_more_fuel [of n] by simp
    then show ?thesis using Suc False by simp
  qed (simp add: scan_first_def)
qed simp

section \<open>Types stored as JSON\<close>

text \<open>\<open>json.Marshal\<close> does not fail on structs of strings, integers and slices of them.\<close>

definition json_Marshal :: "jtree \<Rightarrow> (string, string) result" where
  "json_Marshal t = Inr (print_json t)"

definition go_unmarshal :: "'a decoder \<Rightarrow> 'a \<Rightarrow> string \<Rightarrow> (string, 'a) result" where
  "go_unmarshal dec zero s =
     (case parse_json s of
        None \<Rightarrow> Inl ''invalid JSON''
      | Some t \<Rightarrow> (case dec t zero of None \<Rightarrow> Inl ''cannot go_unmarshal into Go value'' | Some x \<Rightarrow> Inr x))"

definition go_decode :: "'a decoder \<Rightarrow> 'a \<Rightarrow> stream \<Rightarrow> (string, 'a) result" where
  "go_decode dec zero s =
     (case decode_first s of
        None \<Rightarrow> Inl (case stream_error s of Some e \<Rightarrow> e | None \<Rightarrow> ''invalid JSON'')
      | Some t \<Rightarrow> (case dec t zero of None \<Rightarrow> Inl ''cannot go_unmarshal into Go value'' | Some x \<Rightarrow> Inr x))"

text \<open>A nil slice prints as null.\<close>

definition enc_slice :: "('a \<Rightarrow> jtree) \<Rightarrow> 'a list \<Rightarrow> jtree" where
  "enc_slice enc xs = (if xs = [] then TNull else TArr (map enc xs))"

definition enc_nilable :: "('a \<Rightarrow> jtree) \<Rightarrow> 'a list option \<Rightarrow> jtree" where
  "enc_nilable enc xs = (case xs of None \<Rightarrow> TNull | Some xs \<Rightarrow> TArr (map enc xs))"

lemma printable_mono: "printable d t \<Longrightarrow> d \<le> e \<Longrightarrow> printable e t"
proof (induction t arbitrary: d e)
  case (TArr ts)
  then show ?case by (cases e) (fastforce simp: list_all_iff intro: TArr.IH)+
next
  case (TObj kvs)
  then show ?case by (cases e) (fastforce simp: list_all_iff intro: TObj.IH)+
qed simp_all

lemma decode_first_print: "printable 100 (TObj kvs) \<Longrightarrow> decode_first \<lparr>stream_bytes = print_json (TObj kvs), stream_error = e\<rparr> = Some (TObj kvs)"
  using printable_mono [of 100 "TObj kvs" max_depth] scan_first_print [of "TObj kvs"]
  by (simp add: decode_first_def max_depth_def del: print_json.simps printable.simps)

lemma parse_print_shallow: "printable 100 t \<Longrightarrow> parse_json (print_json t) = Some t"
  using printable_mono [of 100 t max_depth] by (simp add: parse_print max_depth_def)

lemma atoi_itoa: "int64_range i \<Longrightarrow> atoi (itoa i) = Some i"
proof -
  assume r: "int64_range i"
  have "\<exists>c s. show_nat n = c # s \<and> c \<noteq> CHR ''-'' \<and> c \<noteq> CHR ''+''" for n
    using show_nat_digits [of n] by (cases "show_nat n") (auto simp: is_digit_def)
  then obtain c s where c: "show_nat (nat i) = c # s" "c \<noteq> CHR ''-''" "c \<noteq> CHR ''+''" by blast
  show ?thesis
  proof (cases "i < 0")
    case True
    then show ?thesis using r show_nat_digits by (simp add: atoi_def itoa_def Let_def)
  next
    case False
    then have "(case show_nat (nat i) of [] \<Rightarrow> show_nat (nat i) | c # cs \<Rightarrow> if c = CHR ''-'' \<or> c = CHR ''+'' then cs else show_nat (nat i))
        = show_nat (nat i)" "\<not> (case show_nat (nat i) of [] \<Rightarrow> False | c # _ \<Rightarrow> c = CHR ''-'')"
      using c by simp_all
    then show ?thesis using r show_nat_digits False by (simp add: atoi_def itoa_def Let_def)
  qed
qed

lemma atoi_range: "atoi s = Some i \<Longrightarrow> int64_range i"
  by (auto simp: atoi_def Let_def split: if_splits)

lemma printable_TInt [simp]: "int64_range i \<Longrightarrow> printable d (TInt i)"
  by (simp add: TInt_def atoi_itoa)

lemma dec_int_TInt [simp]: "int64_range i \<Longrightarrow> dec_integer (TInt i) old = Some i"
  by (simp add: TInt_def dec_integer_def atoi_itoa)

locale json_codec =
  fixes enc :: "'a \<Rightarrow> jtree" and dec :: "'a decoder" and zero :: 'a and ok :: "'a \<Rightarrow> bool"
  assumes enc_printable: "ok x \<Longrightarrow> printable 9 (enc x)"
    and dec_enc: "ok x \<Longrightarrow> dec (enc x) zero = Some x"
begin

lemma parse_enc: "ok x \<Longrightarrow> parse_json (print_json (enc x)) = Some (enc x)"
  using printable_mono [OF enc_printable, of x 100] by (simp add: parse_print_shallow)

lemma text_roundtrip: "ok x \<Longrightarrow> go_unmarshal dec zero (print_json (enc x)) = Inr x"
  by (simp add: go_unmarshal_def parse_enc dec_enc)

lemma those_dec: "list_all ok xs \<Longrightarrow> those (map (\<lambda>x. dec (enc x) zero) xs) = Some xs"
  by (induction xs) (simp_all add: dec_enc)

lemma slice_roundtrip:
  assumes "list_all ok xs"
  shows "go_unmarshal (dec_slice dec zero) [] (print_json (enc_slice enc xs)) = Inr xs"
proof -
  have "printable 10 (enc_slice enc xs)" using assms enc_printable by (auto simp: enc_slice_def list_all_iff)
  then have "printable 100 (enc_slice enc xs)" by (rule printable_mono) simp
  then have "parse_json (print_json (enc_slice enc xs)) = Some (enc_slice enc xs)" by (rule parse_print_shallow)
  then show ?thesis
    using those_dec [OF assms] by (simp add: go_unmarshal_def dec_slice_def enc_slice_def o_def)
qed

end

end
