(* ===== verification/Machines_Endpoints.thy ===== *)
theory Machines_Endpoints
  imports Go_Net Json_Text "HOL-Library.Char_ord" "HOL-Library.List_Lexorder"
begin

text \<open>
  The one-shot program machines-endpoints: the machines of sabakan (\<open>sabakan.go\<close>), the target ports and addresses
  (\<open>monitoring_endpoints.go\<close>), the BMC ConfigMaps (\<open>bmc_configmap.go\<close>), the Service, EndpointSlices and
  ConfigMaps it applies (\<open>k8sresource.go\<close>) and \<open>subMain\<close>.

  The Kubernetes API is a record of functions on an abstract cluster state; what the code relies on
  (server-side apply replaces the named object, a list returns the labelled objects, a delete removes the
  object) is the predicate \<open>slices_api\<close> over an abstraction of the cluster to its EndpointSlices. The HTTP exchange
  with sabakan, \<open>validation.IsDNS1123Label\<close>, the indented printer of the dry run and the name of sabakan's retired state are
  arguments. Strings are ordered bytewise, as \<open>strings.Compare\<close> orders them.
\<close>

section \<open>Machines\<close>

record Machine =
  IPv4 :: "string list"
  Serial :: string
  Rack :: int
  IndexInRack :: int
  Role :: string
  BMC_IPv4 :: string
  State :: string

definition isRetired :: "string \<Rightarrow> Machine \<Rightarrow> bool" where
  "isRetired retired m \<longleftrightarrow> State m = retired"

definition isBootServer :: "Machine \<Rightarrow> bool" where
  "isBootServer m \<longleftrightarrow> Role m = ''boot''"

definition hasIPv4 :: "Machine \<Rightarrow> bool" where
  "hasIPv4 m \<longleftrightarrow> 0 < length (IPv4 m)"

datatype me_error =
    BadSpec string | BadPort string | ZeroPort string | BadName string "string list"
  | DupName string | DupPort string | BadMax int | BadAddress string
  | SabakanErr string | KubeErr string | ChunkPanic

section \<open>Sabakan\<close>

definition graphQLQuery :: string where
  "graphQLQuery = concat (map (\<lambda>line. line @ [CHR 0x0A])
     ['''', ''query search {'', ''  searchMachines(having: null, notHaving: null) {'', ''    spec {'', ''      ipv4'',
      ''      serial'', ''      rack'', ''      indexInRack'', ''      role'', ''      bmc {'', ''        ipv4'', ''      }'',
      ''    }'', ''    status {'', ''      state'', ''    }'', ''  }'', ''}''])"

text \<open>The fields of a machine in sabakan's answer. \<open>Spec\<close>, \<open>BMC\<close> and \<open>Status\<close> have no tags; the answer names them in lower
  case. The structs within a machine are decoded into the fields of the record.\<close>

definition zero_machine :: Machine where
  "zero_machine = \<lparr>IPv4 = [], Serial = [], Rack = 0, IndexInRack = 0, Role = [], BMC_IPv4 = [], State = []\<rparr>"

definition spec_fields :: "(string \<times> Machine decoder) list" where
  "spec_fields =
     [(''ipv4'', struct_field IPv4 (\<lambda>a r. r\<lparr>IPv4 := a\<rparr>) (dec_slice dec_string [])),
      (''serial'', struct_field Serial (\<lambda>a r. r\<lparr>Serial := a\<rparr>) dec_string),
      (''rack'', struct_field Rack (\<lambda>a r. r\<lparr>Rack := a\<rparr>) dec_integer),
      (''indexInRack'', struct_field IndexInRack (\<lambda>a r. r\<lparr>IndexInRack := a\<rparr>) dec_integer),
      (''role'', struct_field Role (\<lambda>a r. r\<lparr>Role := a\<rparr>) dec_string),
      (''BMC'', dec_struct [(''ipv4'', struct_field BMC_IPv4 (\<lambda>a r. r\<lparr>BMC_IPv4 := a\<rparr>) dec_string)])]"

definition machine_fields :: "(string \<times> Machine decoder) list" where
  "machine_fields =
     [(''Spec'', dec_struct spec_fields),
      (''Status'', dec_struct [(''state'', struct_field State (\<lambda>a r. r\<lparr>State := a\<rparr>) dec_string)])]"

record sabakan_result =
  Machines :: "Machine list"
  Errors :: "string list"

definition result_fields :: "(string \<times> sabakan_result decoder) list" where
  "result_fields =
     [(''data'', dec_struct [(''searchMachines'', struct_field Machines (\<lambda>a r. r\<lparr>Machines := a\<rparr>)
         (dec_slice (dec_struct machine_fields) zero_machine))]),
      (''errors'', struct_field Errors (\<lambda>a r. r\<lparr>Errors := a\<rparr>)
         (dec_slice (dec_struct [(''message'', dec_string)]) []))]"

text \<open>
  \<open>getMachines\<close>: \<open>query\<close> is the HTTP exchange, a POST of a body to an endpoint; its result is the status and the stream
  of the answer. \<open>slices.SortFunc\<close> is not stable, so the order of machines with the same
  serial is up to the argument \<open>sort_func\<close>.
\<close>

definition getMachines ::
  "(string \<Rightarrow> string \<Rightarrow> (string, nat \<times> stream) result) \<Rightarrow> (Machine list \<Rightarrow> Machine list) \<Rightarrow> string
     \<Rightarrow> (me_error, Machine list) result" where
  "getMachines query sort_func address =
     (let endpoint = ''http://'' @ address @ ''/graphql'' in
      case json_Marshal (TObj [(''query'', TStr graphQLQuery)]) of Inl e \<Rightarrow> Inl (SabakanErr e) | Inr data \<Rightarrow>
     (case query endpoint data of Inl e \<Rightarrow> Inl (SabakanErr e) | Inr (code, body) \<Rightarrow>
        if code \<noteq> 200 then Inl (SabakanErr (stream_bytes body))
        else (case go_decode (dec_struct result_fields) \<lparr>Machines = [], Errors = []\<rparr> body of
                Inl e \<Rightarrow> Inl (SabakanErr e)
              | Inr result \<Rightarrow>
                  if 0 < length (Errors result) then Inl (SabakanErr (concat (Errors result)))
                  else Inr (sort_func (Machines result)))))"

section \<open>Targets\<close>

record namedPort =
  pname :: string
  port :: nat

definition defaultMaxEndpointsPerSlice :: int where
  "defaultMaxEndpointsPerSlice = 100"

definition targetAllServersName :: string where
  "targetAllServersName = ''all-servers-targets''"

definition targetBootServersName :: string where
  "targetBootServersName = ''boot-servers-targets''"

definition validateMaxEndpointsPerSlice :: "int \<Rightarrow> (me_error, unit) result" where
  "validateMaxEndpointsPerSlice n = (if n \<le> 0 \<or> 1000 < n then Inl (BadMax n) else Inr ())"

text \<open>The loop of \<open>parseNamedPorts\<close>, with the sets of names and ports seen so far.\<close>

fun parse_ports ::
  "(string \<Rightarrow> string list) \<Rightarrow> string list \<Rightarrow> string set \<Rightarrow> nat set \<Rightarrow> namedPort list
     \<Rightarrow> (me_error, namedPort list) result" where
  "parse_ports dns [] seenNames seenPorts ports = Inr ports"
| "parse_ports dns (spec # specs) seenNames seenPorts ports =
     (case str_cut CHR '':'' spec of
        None \<Rightarrow> Inl (BadSpec spec)
      | Some (portStr, name) \<Rightarrow>
          (case parse_uint 16 portStr of
             None \<Rightarrow> Inl (BadPort spec)
           | Some p \<Rightarrow>
               if p = 0 then Inl (ZeroPort spec)
               else if 0 < length (dns name) then Inl (BadName name (dns name))
               else if name \<in> seenNames then Inl (DupName name)
               else if p \<in> seenPorts then Inl (DupPort spec)
               else parse_ports dns specs (insert name seenNames) (insert p seenPorts)
                      (ports @ [\<lparr>pname = name, port = p\<rparr>])))"

text \<open>The names are distinct, so the sort has one result.\<close>

definition parseNamedPorts :: "(string \<Rightarrow> string list) \<Rightarrow> string list \<Rightarrow> (me_error, namedPort list) result" where
  "parseNamedPorts dns specs =
     (case parse_ports dns specs {} {} [] of Inl e \<Rightarrow> Inl e | Inr ports \<Rightarrow> Inr (sort_key pname ports))"

definition parseMachineIPv4 :: "Machine \<Rightarrow> ip option" where
  "parseMachineIPv4 m = ParseIP (IPv4 m ! 0)"

fun allServerIPs :: "string \<Rightarrow> Machine list \<Rightarrow> ip list" where
  "allServerIPs retired [] = []"
| "allServerIPs retired (m # ms) =
     (if isRetired retired m \<or> \<not> hasIPv4 m then allServerIPs retired ms
      else (case parseMachineIPv4 m of
              None \<Rightarrow> allServerIPs retired ms
            | Some x \<Rightarrow> x # allServerIPs retired ms))"

fun bootServerIPs :: "string \<Rightarrow> Machine list \<Rightarrow> ip list" where
  "bootServerIPs retired [] = []"
| "bootServerIPs retired (m # ms) =
     (if isRetired retired m \<or> \<not> hasIPv4 m \<or> \<not> isBootServer m then bootServerIPs retired ms
      else (case parseMachineIPv4 m of
              None \<Rightarrow> bootServerIPs retired ms
            | Some x \<Rightarrow> x # bootServerIPs retired ms))"

section \<open>BMC ConfigMaps\<close>

definition bmcReverseProxyConfigMapName :: string where
  "bmcReverseProxyConfigMapName = ''bmc-reverse-proxy''"

definition bmcLogCollectorConfigMapName :: string where
  "bmcLogCollectorConfigMapName = ''bmc-log-collector''"

definition bmc_hostname :: "Machine \<Rightarrow> string" where
  "bmc_hostname m =
     (if isBootServer m then ''boot-'' @ itoa (Rack m)
      else ''rack'' @ itoa (Rack m) @ ''-'' @ Role m @ itoa (IndexInRack m))"

fun proxy_addresses :: "Machine list \<Rightarrow> (string \<rightharpoonup> string) \<Rightarrow> (string \<rightharpoonup> string)" where
  "proxy_addresses [] addresses = addresses"
| "proxy_addresses (m # ms) addresses =
     (if BMC_IPv4 m = [] \<or> \<not> hasIPv4 m then proxy_addresses ms addresses
      else proxy_addresses ms
        (((addresses(bmc_hostname m \<mapsto> BMC_IPv4 m))
           (replace_all CHR ''.'' ''-'' (IPv4 m ! 0) \<mapsto> BMC_IPv4 m))
           (Serial m \<mapsto> BMC_IPv4 m)))"

definition bmcReverseProxyConfigMapData :: "Machine list \<Rightarrow> (string \<rightharpoonup> string)" where
  "bmcReverseProxyConfigMapData ms = proxy_addresses ms Map.empty"

record machineSerialAndIP =
  ms_Serial :: string
  ms_BmcIP :: string
  ms_NodeIP :: string

definition log_collector_machines :: "Machine list \<Rightarrow> machineSerialAndIP list" where
  "log_collector_machines ms =
     map (\<lambda>m. \<lparr>ms_Serial = Serial m, ms_BmcIP = BMC_IPv4 m, ms_NodeIP = IPv4 m ! 0\<rparr>)
       (filter (\<lambda>m. \<not> (BMC_IPv4 m = [] \<or> \<not> hasIPv4 m)) ms)"

definition serial_ip_json :: "machineSerialAndIP \<Rightarrow> jtree" where
  "serial_ip_json m = TObj [(''serial'', TStr (ms_Serial m)), (''bmc_ipv4'', TStr (ms_BmcIP m)), (''node_ipv4'', TStr (ms_NodeIP m))]"

definition bmcLogCollectorConfigMapData :: "Machine list \<Rightarrow> (me_error, string \<rightharpoonup> string) result" where
  "bmcLogCollectorConfigMapData ms =
     (case json_Marshal (enc_slice serial_ip_json (log_collector_machines ms)) of
        Inl e \<Rightarrow> Inl (KubeErr e)
      | Inr j \<Rightarrow> Inr [''machineslist.json'' \<mapsto> j])"

section \<open>Kubernetes resources\<close>

definition labelAppManagedByKey :: string where
  "labelAppManagedByKey = ''app.kubernetes.io/managed-by''"

definition labelAppNameKey :: string where
  "labelAppNameKey = ''app.kubernetes.io/name''"

definition labelManagedByValue :: string where
  "labelManagedByValue = ''machines-endpoints.cybozu.io''"

text \<open>\<open>discoveryv1.LabelManagedBy\<close> and \<open>discoveryv1.LabelServiceName\<close>.\<close>

definition LabelManagedBy :: string where
  "LabelManagedBy = ''endpointslice.kubernetes.io/managed-by''"

definition LabelServiceName :: string where
  "LabelServiceName = ''kubernetes.io/service-name''"

record Service =
  svc_name :: string
  svc_labels :: "(string \<times> string) list"
  svc_ports :: "(namedPort \<times> nat) list"
  cluster_ip :: string

record EndpointSlice =
  sl_name :: string
  sl_labels :: "(string \<times> string) list"
  address_type :: string
  endpoints :: "string list"
  sl_ports :: "namedPort list"

datatype resource = RService Service | RSlice EndpointSlice | RConfigMap string "string \<rightharpoonup> string"

datatype kube_err = NotFound | OtherErr string

record 'w k8s_api =
  kube_namespace :: "(string, string) result"
  apply_service :: "string \<Rightarrow> Service \<Rightarrow> 'w \<Rightarrow> (string, unit) result \<times> 'w"
  apply_slice :: "string \<Rightarrow> EndpointSlice \<Rightarrow> 'w \<Rightarrow> (string, unit) result \<times> 'w"
  list_slices :: "string \<Rightarrow> (string \<times> string) list \<Rightarrow> 'w \<Rightarrow> (string, EndpointSlice list) result"
  delete_slice :: "string \<Rightarrow> string \<Rightarrow> 'w \<Rightarrow> (kube_err, unit) result \<times> 'w"
  apply_configmap :: "string \<Rightarrow> string \<Rightarrow> (string \<rightharpoonup> string) \<Rightarrow> 'w \<Rightarrow> (string, unit) result \<times> 'w"

text \<open>The cluster and the standard output.\<close>

record 'w me_state =
  cluster :: 'w
  stdout :: "string list"

record k8sClient =
  dryRun :: bool
  marshal_indent :: "resource \<Rightarrow> (string, string) result"

definition printResource :: "k8sClient \<Rightarrow> resource \<Rightarrow> 'w me_state \<Rightarrow> (me_error, unit) result \<times> 'w me_state" where
  "printResource c r st =
     (case marshal_indent c r of
        Inl e \<Rightarrow> (Inl (KubeErr e), st)
      | Inr b \<Rightarrow> (Inr (), st\<lparr>stdout := stdout st @ [b]\<rparr>))"

text \<open>Printing in a dry run, else the API call.\<close>

definition print_or_apply ::
  "k8sClient \<Rightarrow> resource \<Rightarrow> ('w \<Rightarrow> (string, unit) result \<times> 'w) \<Rightarrow> 'w me_state
     \<Rightarrow> (me_error, unit) result \<times> 'w me_state" where
  "print_or_apply c r call st =
     (if dryRun c then printResource c r st
      else (case call (cluster st) of
              (Inl e, w) \<Rightarrow> (Inl (KubeErr e), st\<lparr>cluster := w\<rparr>)
            | (Inr _, w) \<Rightarrow> (Inr (), st\<lparr>cluster := w\<rparr>)))"

definition applyConfigMap ::
  "k8sClient \<Rightarrow> 'w k8s_api \<Rightarrow> string \<Rightarrow> (string \<rightharpoonup> string) \<Rightarrow> 'w me_state \<Rightarrow> (me_error, unit) result \<times> 'w me_state" where
  "applyConfigMap c api name data st =
     (case kube_namespace api of
        Inl e \<Rightarrow> (Inl (KubeErr e), st)
      | Inr ns \<Rightarrow> print_or_apply c (RConfigMap name data) (apply_configmap api ns name data) st)"

definition service_apply :: "string \<Rightarrow> namedPort list \<Rightarrow> Service" where
  "service_apply name ports =
     \<lparr>svc_name = name,
      svc_labels = [(labelAppManagedByKey, labelManagedByValue), (labelAppNameKey, name)],
      svc_ports = map (\<lambda>p. (p, port p)) ports, cluster_ip = ''None''\<rparr>"

definition slice_labels :: "string \<Rightarrow> (string \<times> string) list" where
  "slice_labels name = [(LabelManagedBy, labelManagedByValue), (LabelServiceName, name)]"

definition slice_name :: "string \<Rightarrow> nat \<Rightarrow> string" where
  "slice_name name i = name @ ''-'' @ show_nat i"

definition slice_apply :: "string \<Rightarrow> namedPort list \<Rightarrow> nat \<Rightarrow> ip list \<Rightarrow> EndpointSlice" where
  "slice_apply name ports i ips =
     \<lparr>sl_name = slice_name name i, sl_labels = slice_labels name, address_type = ''IPv4'',
      endpoints = map ip_string ips, sl_ports = ports\<rparr>"

fun apply_slices ::
  "k8sClient \<Rightarrow> 'w k8s_api \<Rightarrow> string \<Rightarrow> string \<Rightarrow> namedPort list \<Rightarrow> ip list list \<Rightarrow> nat \<Rightarrow> string list
     \<Rightarrow> 'w me_state \<Rightarrow> (me_error, string list) result \<times> 'w me_state" where
  "apply_slices c api ns name ports [] sliceIndex sliceNames st = (Inr sliceNames, st)"
| "apply_slices c api ns name ports (ips # chunks) sliceIndex sliceNames st =
     (let s = slice_apply name ports sliceIndex ips in
      case print_or_apply c (RSlice s) (apply_slice api ns s) st of
        (Inl e, st1) \<Rightarrow> (Inl e, st1)
      | (Inr _, st1) \<Rightarrow>
          apply_slices c api ns name ports chunks (sliceIndex + 1) (sliceNames @ [sl_name s]) st1)"

fun delete_slices ::
  "'w k8s_api \<Rightarrow> string \<Rightarrow> string list \<Rightarrow> EndpointSlice list \<Rightarrow> 'w me_state
     \<Rightarrow> (me_error, unit) result \<times> 'w me_state" where
  "delete_slices api ns sliceNames [] st = (Inr (), st)"
| "delete_slices api ns sliceNames (s # items) st =
     (if sl_name s \<in> set sliceNames then delete_slices api ns sliceNames items st
      else (case delete_slice api ns (sl_name s) (cluster st) of
              (Inl (OtherErr e), w) \<Rightarrow> (Inl (KubeErr e), st\<lparr>cluster := w\<rparr>)
            | (_, w) \<Rightarrow> delete_slices api ns sliceNames items (st\<lparr>cluster := w\<rparr>)))"

text \<open>\<open>slices.Chunk\<close> panics for a size below one; \<open>subMain\<close> rules it out.\<close>

definition updateTargetEndpoints ::
  "k8sClient \<Rightarrow> 'w k8s_api \<Rightarrow> string \<Rightarrow> ip list \<Rightarrow> int \<Rightarrow> namedPort list \<Rightarrow> 'w me_state
     \<Rightarrow> (me_error, unit) result \<times> 'w me_state" where
  "updateTargetEndpoints c api name ips maxEndpoints ports st =
     (case kube_namespace api of
        Inl e \<Rightarrow> (Inl (KubeErr e), st)
      | Inr ns \<Rightarrow>
          let svc = service_apply name ports in
          (case print_or_apply c (RService svc) (apply_service api ns svc) st of
             (Inl e, st1) \<Rightarrow> (Inl e, st1)
           | (Inr _, st1) \<Rightarrow>
               if maxEndpoints < 1 then (Inl ChunkPanic, st1)
               else (case apply_slices c api ns name ports (chunk (nat maxEndpoints) ips) 0 [] st1 of
                       (Inl e, st2) \<Rightarrow> (Inl e, st2)
                     | (Inr sliceNames, st2) \<Rightarrow>
                         if dryRun c then (Inr (), st2)
                         else (case list_slices api ns (slice_labels name) (cluster st2) of
                                 Inl e \<Rightarrow> (Inl (KubeErr e), st2)
                               | Inr items \<Rightarrow> delete_slices api ns sliceNames items st2))))"

section \<open>The program\<close>

record flags =
  flgSabakanAddress :: string
  flgAllServersPorts :: "string list"
  flgBootServersPorts :: "string list"
  flgMaxEndpointsPerSlice :: int
  flgBMCReverseProxyConfigMap :: bool
  flgBMCLogCollectorConfigMap :: bool
  flgDryRun :: bool

text \<open>What the program finds outside: sabakan, the API server and the library functions it calls.\<close>

record 'w me_world =
  query :: "string \<Rightarrow> string \<Rightarrow> (string, nat \<times> stream) result"
  sort_func :: "Machine list \<Rightarrow> Machine list"
  retired :: string
  dns_label :: "string \<Rightarrow> string list"
  kube_config :: "(string, 'w k8s_api) result"
  marshal_res :: "resource \<Rightarrow> (string, string) result"

text \<open>A step that is left out, or run; the next steps run only after it succeeded.\<close>

definition and_then ::
  "(me_error, unit) result \<times> 's \<Rightarrow> ('s \<Rightarrow> (me_error, unit) result \<times> 's) \<Rightarrow> (me_error, unit) result \<times> 's" where
  "and_then r f = (case r of (Inl e, st) \<Rightarrow> (Inl e, st) | (Inr _, st) \<Rightarrow> f st)"

definition newKubernetesClient :: "'w me_world \<Rightarrow> bool \<Rightarrow> (me_error, k8sClient \<times> 'w k8s_api) result" where
  "newKubernetesClient env dry =
     (case kube_config env of
        Inl e \<Rightarrow> Inl (KubeErr e)
      | Inr api \<Rightarrow> Inr (\<lparr>dryRun = dry, marshal_indent = marshal_res env\<rparr>, api))"

text \<open>The updates, in order, once the flags are checked and the machines are known.\<close>

definition apply_all ::
  "'w me_world \<Rightarrow> flags \<Rightarrow> k8sClient \<Rightarrow> 'w k8s_api \<Rightarrow> namedPort list \<Rightarrow> namedPort list \<Rightarrow> Machine list
     \<Rightarrow> 'w me_state \<Rightarrow> (me_error, unit) result \<times> 'w me_state" where
  "apply_all env fl c api allPorts bootPorts machines st =
     and_then (and_then (and_then
       (if 0 < length allPorts
        then updateTargetEndpoints c api targetAllServersName (allServerIPs (retired env) machines)
               (flgMaxEndpointsPerSlice fl) allPorts st
        else (Inr (), st))
       (\<lambda>st. if 0 < length bootPorts
             then updateTargetEndpoints c api targetBootServersName (bootServerIPs (retired env) machines)
                    (flgMaxEndpointsPerSlice fl) bootPorts st
             else (Inr (), st)))
       (\<lambda>st. if flgBMCReverseProxyConfigMap fl
             then applyConfigMap c api bmcReverseProxyConfigMapName (bmcReverseProxyConfigMapData machines) st
             else (Inr (), st)))
       (\<lambda>st. if flgBMCLogCollectorConfigMap fl
             then (case bmcLogCollectorConfigMapData machines of
                     Inl e \<Rightarrow> (Inl e, st)
                   | Inr data \<Rightarrow> applyConfigMap c api bmcLogCollectorConfigMapName data st)
             else (Inr (), st))"

definition subMain :: "'w me_world \<Rightarrow> flags \<Rightarrow> 'w me_state \<Rightarrow> (me_error, unit) result \<times> 'w me_state" where
  "subMain env fl st =
     (case parseNamedPorts (dns_label env) (flgAllServersPorts fl) of Inl e \<Rightarrow> (Inl e, st) | Inr allPorts \<Rightarrow>
     (case parseNamedPorts (dns_label env) (flgBootServersPorts fl) of Inl e \<Rightarrow> (Inl e, st) | Inr bootPorts \<Rightarrow>
     (case validateMaxEndpointsPerSlice (flgMaxEndpointsPerSlice fl) of Inl e \<Rightarrow> (Inl e, st) | Inr _ \<Rightarrow>
     (case SplitHostPort (flgSabakanAddress fl) of
        None \<Rightarrow> (Inl (BadAddress (flgSabakanAddress fl)), st)
      | Some (host, prt) \<Rightarrow>
          if host = [] \<or> prt = [] then (Inl (BadAddress (flgSabakanAddress fl)), st)
          else
     (case getMachines (query env) (sort_func env) (flgSabakanAddress fl) of Inl e \<Rightarrow> (Inl e, st) | Inr machines \<Rightarrow>
     (case newKubernetesClient env (flgDryRun fl) of Inl e \<Rightarrow> (Inl e, st) | Inr (c, api) \<Rightarrow>
        apply_all env fl c api allPorts bootPorts machines st))))))"

section \<open>Port lists: facts\<close>

definition spec_port :: "(string \<Rightarrow> string list) \<Rightarrow> string \<Rightarrow> namedPort \<Rightarrow> bool" where
  "spec_port dns spec p \<longleftrightarrow>
     (\<exists>a. str_cut CHR '':'' spec = Some (a, pname p) \<and> parse_uint 16 a = Some (port p))
       \<and> port p \<noteq> 0 \<and> dns (pname p) = []"

lemma parse_ports_iff:
  "parse_ports dns specs N P acc = Inr ps \<longleftrightarrow>
     (\<exists>qs. list_all2 (spec_port dns) specs qs \<and> distinct (map pname qs) \<and> distinct (map port qs)
        \<and> set (map pname qs) \<inter> N = {} \<and> set (map port qs) \<inter> P = {} \<and> ps = acc @ qs)"
proof (induction specs arbitrary: N P acc)
  case Nil
  then show ?case by auto
next
  case (Cons spec specs)
  show ?case
  proof (cases "\<exists>q. spec_port dns spec q \<and> pname q \<notin> N \<and> port q \<notin> P")
    case True
    then obtain q :: namedPort and a where q: "str_cut CHR '':'' spec = Some (a, pname q)" "parse_uint 16 a = Some (port q)"
        "port q \<noteq> 0" "dns (pname q) = []" "pname q \<notin> N" "port q \<notin> P"
      unfolding spec_port_def by blast
    have only: "spec_port dns spec r \<longleftrightarrow> r = q" for r using q by (auto simp: spec_port_def)
    have "parse_ports dns (spec # specs) N P acc
        = parse_ports dns specs (insert (pname q) N) (insert (port q) P) (acc @ [q])"
      using q by (cases q) simp
    also have "\<dots> = Inr ps \<longleftrightarrow> (\<exists>qs. list_all2 (spec_port dns) (spec # specs) qs \<and> distinct (map pname qs)
        \<and> distinct (map port qs) \<and> set (map pname qs) \<inter> N = {} \<and> set (map port qs) \<inter> P = {} \<and> ps = acc @ qs)"
      unfolding Cons.IH list_all2_Cons1 only using q(5,6) by auto
    finally show ?thesis .
  next
    case False
    have no: "n \<in> N \<or> p \<in> P"
      if "str_cut CHR '':'' spec = Some (a, n)" "parse_uint 16 a = Some p" "p \<noteq> 0" "dns n = []" for a n p
    proof -
      have "spec_port dns spec \<lparr>pname = n, port = p\<rparr>" using that by (simp add: spec_port_def)
      then show ?thesis using False by (metis namedPort.select_convs)
    qed
    have "parse_ports dns (spec # specs) N P acc \<noteq> Inr ps"
      using no by (auto split: option.splits)
    moreover have "\<not> (\<exists>qs. list_all2 (spec_port dns) (spec # specs) qs
        \<and> set (map pname qs) \<inter> N = {} \<and> set (map port qs) \<inter> P = {})"
      using False by (auto simp: list_all2_Cons1)
    ultimately show ?thesis by blast
  qed
qed

lemma slice_name_inj [simp]: "slice_name n i = slice_name n j \<longleftrightarrow> i = j"
  by (simp add: slice_name_def)

lemma sort_ports_iff:
  fixes qs ps :: "namedPort list"
  shows "distinct (map pname qs) \<and> distinct (map port qs) \<and> ps = sort_key pname qs \<longleftrightarrow>
    mset qs = mset ps \<and> distinct (map port ps) \<and> sorted_wrt (<) (map pname ps)"
proof
  assume h: "distinct (map pname qs) \<and> distinct (map port qs) \<and> ps = sort_key pname qs"
  then have "mset (map port ps) = mset (map port qs)" "mset (map pname ps) = mset (map pname qs)" by simp_all
  then have "distinct (map port ps)" "distinct (map pname ps)" using h mset_eq_imp_distinct_iff by blast+
  then show "mset qs = mset ps \<and> distinct (map port ps) \<and> sorted_wrt (<) (map pname ps)"
    using h by (simp add: strict_sorted_iff)
next
  assume h: "mset qs = mset ps \<and> distinct (map port ps) \<and> sorted_wrt (<) (map pname ps)"
  then have "mset (map port ps) = mset (map port qs)" "mset (map pname ps) = mset (map pname qs)" by simp_all
  then have d: "distinct (map port qs)" "distinct (map pname qs)"
    using h mset_eq_imp_distinct_iff by (metis, metis strict_sorted_iff)
  then have "sort_key pname qs = ps"
    using h by (intro sort_key_inj_key_eq) (auto simp: distinct_map strict_sorted_iff)
  then show "distinct (map pname qs) \<and> distinct (map port qs) \<and> ps = sort_key pname qs" using d by simp
qed

section \<open>EndpointSlices: facts\<close>

text \<open>What the code relies on of the API server, over the EndpointSlices of a namespace by name.\<close>

definition has_labels :: "(string \<times> string) list \<Rightarrow> EndpointSlice \<Rightarrow> bool" where
  "has_labels sel s \<longleftrightarrow> set sel \<subseteq> set (sl_labels s)"

definition slices_api :: "'w k8s_api \<Rightarrow> string \<Rightarrow> ('w \<Rightarrow> (string \<rightharpoonup> EndpointSlice)) \<Rightarrow> bool" where
  "slices_api api ns view \<longleftrightarrow>
     (\<forall>w svc. view (snd (apply_service api ns svc w)) = view w)
   \<and> (\<forall>w s w'. apply_slice api ns s w = (Inr (), w') \<longrightarrow> view w' = (view w)(sl_name s \<mapsto> s))
   \<and> (\<forall>w sel items. list_slices api ns sel w = Inr items \<longrightarrow>
        set (map sl_name items) = {n. \<exists>s. view w n = Some s \<and> has_labels sel s})
   \<and> (\<forall>w n r w'. delete_slice api ns n w = (r, w') \<and> r \<in> {Inr (), Inl NotFound} \<longrightarrow> view w' = (view w)(n := None))"

text \<open>The slices of a target, by name.\<close>

fun target_slices :: "string \<Rightarrow> namedPort list \<Rightarrow> nat \<Rightarrow> ip list list \<Rightarrow> (string \<rightharpoonup> EndpointSlice)" where
  "target_slices name ports i [] = Map.empty"
| "target_slices name ports i (c # cs) =
     (target_slices name ports (Suc i) cs)(slice_name name i \<mapsto> slice_apply name ports i c)"

lemma target_slices_name:
  "target_slices name ports i cs (slice_name name k) =
     (if i \<le> k \<and> k < i + length cs then Some (slice_apply name ports k (cs ! (k - i))) else None)"
  by (induction name ports i cs rule: target_slices.induct) (auto simp: nth_Cons')

lemma target_slices_dom:
  "target_slices name ports i cs n \<noteq> None \<longleftrightarrow> n \<in> slice_name name ` {i ..< i + length cs}"
  by (induction name ports i cs rule: target_slices.induct) (auto simp: image_iff)

lemma target_slices_labelled:
  "target_slices name ports i cs n = Some s \<Longrightarrow> has_labels (slice_labels name) s"
  by (induction name ports i cs rule: target_slices.induct)
    (auto simp: has_labels_def slice_apply_def split: if_splits)

lemma map_add_upd_swap: "k \<notin> dom t \<Longrightarrow> (f(k \<mapsto> s)) ++ t = f ++ (t(k \<mapsto> s))"
  by (auto simp: fun_eq_iff map_add_def split: option.splits)

lemma apply_slices_effect:
  assumes "slices_api api ns view" and "\<not> dryRun c"
    and "apply_slices c api ns name ports cs i names st = (Inr names', st')"
  shows "names' = names @ map (slice_name name) [i ..< i + length cs]
     \<and> view (cluster st') = view (cluster st) ++ target_slices name ports i cs"
  using assms(3)
proof (induction cs arbitrary: i names st)
  case Nil
  then show ?case by simp
next
  case (Cons ips cs)
  define s where "s = slice_apply name ports i ips"
  obtain w where w: "apply_slice api ns s (cluster st) = (Inr (), w)"
      "apply_slices c api ns name ports cs (i + 1) (names @ [sl_name s]) (st\<lparr>cluster := w\<rparr>) = (Inr names', st')"
    using Cons.prems assms(2) by (auto simp: print_or_apply_def s_def Let_def split: prod.splits sum.splits)
  have nm: "sl_name s = slice_name name i" by (simp add: s_def slice_apply_def)
  have v: "view w = (view (cluster st))(sl_name s \<mapsto> s)" using assms(1) w(1) by (auto simp: slices_api_def)
  have "slice_name name i \<notin> dom (target_slices name ports (Suc i) cs)"
    using target_slices_dom [of name ports "Suc i" cs "slice_name name i"] by auto
  then have "view w ++ target_slices name ports (Suc i) cs = view (cluster st) ++ target_slices name ports i (ips # cs)"
    unfolding v nm target_slices.simps s_def [symmetric] by (rule map_add_upd_swap)
  moreover have "map (slice_name name) [i ..< i + length (ips # cs)]
      = slice_name name i # map (slice_name name) [i + 1 ..< i + 1 + length cs]"
    by (simp add: upt_conv_Cons del: upt_Suc)
  ultimately show ?case
    using Cons.IH [OF w(2)] nm by (simp del: upt_Suc target_slices.simps)
qed

lemma delete_slices_effect:
  assumes "slices_api api ns view" and "delete_slices api ns names items st = (Inr (), st')"
  shows "view (cluster st') = (\<lambda>n. if n \<in> set (map sl_name items) - set names then None else view (cluster st) n)"
  using assms(2)
proof (induction items arbitrary: st)
  case Nil
  then show ?case by auto
next
  case (Cons s items)
  show ?case
  proof (cases "sl_name s \<in> set names")
    case True
    then show ?thesis using Cons by (auto simp: fun_eq_iff)
  next
    case False
    then obtain r w where w: "delete_slice api ns (sl_name s) (cluster st) = (r, w)" "r \<in> {Inr (), Inl NotFound}"
        "delete_slices api ns names items (st\<lparr>cluster := w\<rparr>) = (Inr (), st')"
      using Cons.prems by (auto split: prod.splits sum.splits kube_err.splits)
    have "view w = (view (cluster st))(sl_name s := None)" using assms(1) w(1,2) unfolding slices_api_def by blast
    then show ?thesis using Cons.IH [OF w(3)] False by (auto simp: fun_eq_iff)
  qed
qed

lemma updateTargetEndpoints_steps:
  assumes "updateTargetEndpoints c api name ips maxE ports st = (Inr (), st')" and "\<not> dryRun c"
    and "kube_namespace api = Inr ns"
  shows "\<exists>st1 st2 names items. 1 \<le> maxE
     \<and> cluster st1 = snd (apply_service api ns (service_apply name ports) (cluster st))
     \<and> apply_slices c api ns name ports (chunk (nat maxE) ips) 0 [] st1 = (Inr names, st2)
     \<and> list_slices api ns (slice_labels name) (cluster st2) = Inr items
     \<and> delete_slices api ns names items st2 = (Inr (), st')"
proof -
  obtain r st1 where a: "print_or_apply c (RService (service_apply name ports))
      (apply_service api ns (service_apply name ports)) st = (r, st1)" by fastforce
  then have "cluster st1 = snd (apply_service api ns (service_apply name ports) (cluster st))"
    using assms(2) by (auto simp: print_or_apply_def split: prod.splits sum.splits)
  then show ?thesis
    using assms a by (auto simp: updateTargetEndpoints_def Let_def split: sum.splits if_splits prod.splits)
qed

text \<open>With an API server that accepts every call the update succeeds.\<close>

definition api_up :: "'w k8s_api \<Rightarrow> string \<Rightarrow> bool" where
  "api_up api ns \<longleftrightarrow> kube_namespace api = Inr ns \<and> (\<forall>s w. fst (apply_service api ns s w) = Inr ())
     \<and> (\<forall>s w. fst (apply_slice api ns s w) = Inr ()) \<and> (\<forall>sel w. \<exists>items. list_slices api ns sel w = Inr items)
     \<and> (\<forall>n w. fst (delete_slice api ns n w) = Inr ())"

lemma apply_slices_up:
  "api_up api ns \<Longrightarrow> \<not> dryRun c \<Longrightarrow> \<exists>names. fst (apply_slices c api ns name ports cs i ns0 st) = Inr names"
proof (induction cs arbitrary: i ns0 st)
  case (Cons ips cs)
  define s where "s = slice_apply name ports i ips"
  have "fst (apply_slice api ns s (cluster st)) = Inr ()" using Cons.prems by (simp add: api_up_def)
  then obtain w where "apply_slice api ns s (cluster st) = (Inr (), w)" by (metis prod.collapse)
  then show ?case using Cons by (simp add: print_or_apply_def s_def [symmetric] Let_def)
qed simp

lemma delete_slices_up: "api_up api ns \<Longrightarrow> fst (delete_slices api ns names items st) = Inr ()"
proof (induction items arbitrary: st)
  case (Cons s items)
  have "fst (delete_slice api ns (sl_name s) (cluster st)) = Inr ()" using Cons.prems by (simp add: api_up_def)
  then obtain w where "delete_slice api ns (sl_name s) (cluster st) = (Inr (), w)" by (metis prod.collapse)
  then show ?case using Cons by simp
qed simp

lemma updateTargetEndpoints_up:
  assumes "api_up api ns" and "\<not> dryRun c" and "1 \<le> maxE"
  shows "fst (updateTargetEndpoints c api name ips maxE ports st) = Inr ()"
proof -
  have "fst (apply_service api ns (service_apply name ports) (cluster st)) = Inr ()" using assms(1) by (simp add: api_up_def)
  then obtain w where w: "apply_service api ns (service_apply name ports) (cluster st) = (Inr (), w)" by (metis prod.collapse)
  obtain names where "fst (apply_slices c api ns name ports (chunk (nat maxE) ips) 0 [] (st\<lparr>cluster := w\<rparr>)) = Inr names"
    using apply_slices_up [OF assms(1,2)] by blast
  then obtain st2 where st2: "apply_slices c api ns name ports (chunk (nat maxE) ips) 0 [] (st\<lparr>cluster := w\<rparr>) = (Inr names, st2)"
    by (metis prod.collapse)
  obtain items where "list_slices api ns (slice_labels name) (cluster st2) = Inr items"
    using assms(1) unfolding api_up_def by blast
  then show ?thesis
    using assms w st2 delete_slices_up [OF assms(1), of names items st2]
    by (simp add: updateTargetEndpoints_def print_or_apply_def api_up_def Let_def)
qed

section \<open>Dry runs\<close>

lemma print_or_apply_dry:
  "if dryRun c then cluster (snd (print_or_apply c r call st)) = cluster st
   else stdout (snd (print_or_apply c r call st)) = stdout st"
  by (auto simp: print_or_apply_def printResource_def split: sum.splits prod.splits)

text \<open>A step that is confined: it leaves the cluster alone in a dry run and the output alone otherwise.\<close>

definition confined :: "bool \<Rightarrow> 'w me_state \<Rightarrow> 'w me_state \<Rightarrow> bool" where
  "confined dry st st' \<longleftrightarrow> (if dry then cluster st' = cluster st else stdout st' = stdout st)"

lemma confined_refl [simp]: "confined d st st"
  by (simp add: confined_def)

lemma confined_trans [trans]: "confined d a b \<Longrightarrow> confined d b c \<Longrightarrow> confined d a c"
  by (auto simp: confined_def split: if_splits)

lemma confined_print: "print_or_apply c r call st = (x, st') \<Longrightarrow> confined (dryRun c) st st'"
  using print_or_apply_dry [of c r call st] by (cases "dryRun c") (simp_all add: confined_def)

lemma confined_apply_slices:
  "apply_slices c api ns name ports cs i names st = (x, st') \<Longrightarrow> confined (dryRun c) st st'"
proof (induction cs arbitrary: i names st)
  case (Cons ips cs)
  then show ?case
    by (auto simp: Let_def dest: confined_print intro: confined_trans split: prod.splits sum.splits)
qed simp

lemma confined_delete_slices:
  "delete_slices api ns names items st = (x, st') \<Longrightarrow> confined False st st'"
proof (induction items arbitrary: st)
  case (Cons s items)
  then show ?case
    by (fastforce simp: confined_def split: if_splits prod.splits sum.splits kube_err.splits)
qed simp

lemma confined_applyConfigMap: "applyConfigMap c api name d st = (x, st') \<Longrightarrow> confined (dryRun c) st st'"
  by (auto simp: applyConfigMap_def split: sum.splits dest: confined_print)

lemma confined_updateTargetEndpoints:
  "updateTargetEndpoints c api name ips k ports st = (x, st') \<Longrightarrow> confined (dryRun c) st st'"
  by (auto simp: updateTargetEndpoints_def Let_def
      dest!: confined_print confined_apply_slices confined_delete_slices intro: confined_trans
      split: sum.splits prod.splits if_splits) (blast intro: confined_trans)

lemma confined_and_then:
  assumes "confined d st (snd r)" and "\<And>s. confined d s (snd (f s))"
  shows "confined d st (snd (and_then r f))"
  using assms(1) confined_trans [OF assms(1) assms(2)]
  by (auto simp: and_then_def split: prod.splits sum.splits)

lemma confined_apply_all: "confined (dryRun c) st (snd (apply_all env fl c api ap bp ms st))"
  unfolding apply_all_def
  by (intro confined_and_then)
    (auto intro: confined_updateTargetEndpoints confined_applyConfigMap surjective_pairing split: sum.splits)

section \<open>BMC names\<close>

definition has_bmc :: "Machine \<Rightarrow> bool" where
  "has_bmc m \<longleftrightarrow> BMC_IPv4 m \<noteq> [] \<and> hasIPv4 m"

text \<open>The names under which the BMC of a machine is published.\<close>

definition bmc_keys :: "Machine \<Rightarrow> string set" where
  "bmc_keys m = {bmc_hostname m, replace_all CHR ''.'' ''-'' (IPv4 m ! 0), Serial m}"

lemma proxy_addresses_notin:
  "\<not> (\<exists>m \<in> set ms. has_bmc m \<and> k \<in> bmc_keys m) \<Longrightarrow> proxy_addresses ms a k = a k"
  by (induction ms a rule: proxy_addresses.induct) (auto simp: has_bmc_def bmc_keys_def)

lemma proxy_addresses_in:
  assumes "\<exists>m \<in> set ms. has_bmc m \<and> k \<in> bmc_keys m"
    and "\<And>m. m \<in> set ms \<Longrightarrow> has_bmc m \<Longrightarrow> k \<in> bmc_keys m \<Longrightarrow> BMC_IPv4 m = addr"
  shows "proxy_addresses ms a k = Some addr"
  using assms
proof (induction ms arbitrary: a)
  case (Cons m ms)
  show ?case
  proof (cases "\<exists>m1 \<in> set ms. has_bmc m1 \<and> k \<in> bmc_keys m1")
    case True
    have "proxy_addresses ms a' k = Some addr" for a'
      by (rule Cons.IH [OF True]) (use Cons.prems(2) in simp)
    then show ?thesis by simp
  next
    case False
    then have m: "has_bmc m" "k \<in> bmc_keys m" using Cons.prems(1) by auto
    then have "BMC_IPv4 m = addr" using Cons.prems(2) by simp
    then show ?thesis
      using proxy_addresses_notin [OF False] m by (auto simp: has_bmc_def bmc_keys_def)
  qed
qed simp

section \<open>Properties\<close>

text \<open>
  C14. \<open>parseNamedPorts\<close> accepts a list of texts exactly when each is a decimal port between 1 and 65535, a colon
  and a valid name, with no name and no port twice; the result lists these ports by strictly increasing
  name, whatever the order of the input.
\<close>

theorem parseNamedPorts_iff:
  "parseNamedPorts dns specs = Inr ps \<longleftrightarrow>
     sorted_wrt (<) (map pname ps) \<and> distinct (map port ps)
     \<and> (\<exists>qs. mset qs = mset ps \<and> list_all2 (spec_port dns) specs qs)"
proof -
  have "parseNamedPorts dns specs = Inr ps \<longleftrightarrow> (\<exists>qs. parse_ports dns specs {} {} [] = Inr qs \<and> ps = sort_key pname qs)"
    by (auto simp: parseNamedPorts_def split: sum.splits)
  also have "\<dots> \<longleftrightarrow>
      (\<exists>qs. list_all2 (spec_port dns) specs qs \<and> distinct (map pname qs) \<and> distinct (map port qs) \<and> ps = sort_key pname qs)"
    by (auto simp: parse_ports_iff)
  also have "\<dots> \<longleftrightarrow> (\<exists>qs. list_all2 (spec_port dns) specs qs \<and> mset qs = mset ps \<and> distinct (map port ps)
      \<and> sorted_wrt (<) (map pname ps))"
    by (simp only: sort_ports_iff)
  finally show ?thesis by blast
qed

text \<open>
  C15. When \<open>updateTargetEndpoints\<close> succeeds outside a dry run, the EndpointSlices of the namespace are the numbered
  slices of the target, each with one chunk of the addresses; every other slice with the target's labels
  is gone and the slices without them are untouched. No slice has more than the allowed endpoints,
  and together they list every address once and in order.
\<close>

theorem updateTargetEndpoints_exact:
  assumes "updateTargetEndpoints c api name ips maxE ports st = (Inr (), st')" and "\<not> dryRun c"
    and "kube_namespace api = Inr ns" and "slices_api api ns view"
  shows "view (cluster st') = (\<lambda>n. case target_slices name ports 0 (chunk (nat maxE) ips) n of
        Some s \<Rightarrow> Some s
      | None \<Rightarrow> if \<exists>s. view (cluster st) n = Some s \<and> has_labels (slice_labels name) s then None
                else view (cluster st) n)
    \<and> concat (chunk (nat maxE) ips) = ips \<and> \<not> (\<exists>c \<in> set (chunk (nat maxE) ips). maxE < int (length c))"
proof -
  obtain st1 st2 names items where s: "1 \<le> maxE"
      "cluster st1 = snd (apply_service api ns (service_apply name ports) (cluster st))"
      "apply_slices c api ns name ports (chunk (nat maxE) ips) 0 [] st1 = (Inr names, st2)"
      "list_slices api ns (slice_labels name) (cluster st2) = Inr items"
      "delete_slices api ns names items st2 = (Inr (), st')"
    using updateTargetEndpoints_steps [OF assms(1-3)] by blast
  let ?t = "target_slices name ports 0 (chunk (nat maxE) ips)"
  have v1: "view (cluster st1) = view (cluster st)" using assms(4) s(2) by (simp add: slices_api_def)
  have v2: "view (cluster st2) = view (cluster st) ++ ?t" and nm: "set names = dom ?t"
    using apply_slices_effect [OF assms(4,2) s(3)] v1 target_slices_dom [of name ports 0 "chunk (nat maxE) ips"]
    by (auto simp: set_eq_iff image_iff Bex_def)
  have it: "set (map sl_name items) = {n. \<exists>s. view (cluster st2) n = Some s \<and> has_labels (slice_labels name) s}"
    using assms(4) s(4) by (simp add: slices_api_def)
  have "view (cluster st') n = (case ?t n of Some s \<Rightarrow> Some s
      | None \<Rightarrow> if \<exists>s. view (cluster st) n = Some s \<and> has_labels (slice_labels name) s then None
                else view (cluster st) n)" for n
    unfolding delete_slices_effect [OF assms(4) s(5)] it nm v2
    by (cases "?t n") (auto simp: map_add_def)
  moreover have "concat (chunk (nat maxE) ips) = ips" using s(1) by (simp add: concat_chunk)
  moreover have "int (length c) \<le> maxE" if "c \<in> set (chunk (nat maxE) ips)" for c
    using chunk_size [OF that] s(1) by linarith
  ultimately show ?thesis by (auto simp: not_less)
qed

text \<open>
  A run of the program is confined: a dry run leaves the cluster as it is, whatever happens, and another run
  prints nothing.
\<close>

theorem subMain_confined:
  "if flgDryRun fl then cluster (snd (subMain env fl st)) = cluster st
   else stdout (snd (subMain env fl st)) = stdout st"
proof -
  have "confined (flgDryRun fl) st (snd (subMain env fl st))"
  proof (cases "newKubernetesClient env (flgDryRun fl)")
    case (Inr ca)
    then have "dryRun (fst ca) = flgDryRun fl" by (auto simp: newKubernetesClient_def split: sum.splits)
    then show ?thesis
      using confined_apply_all [of "fst ca" st env fl "snd ca"] Inr
      by (auto simp: subMain_def case_prod_unfold split: sum.splits option.splits)
  qed (auto simp: subMain_def split: sum.splits option.splits)
  then show ?thesis by (simp add: confined_def)
qed

section \<open>Examples\<close>

text \<open>An API server that keeps the slices in a list; a later entry with the same name is hidden.\<close>

definition demo_view :: "EndpointSlice list \<Rightarrow> (string \<rightharpoonup> EndpointSlice)" where
  "demo_view w = map_of (map (\<lambda>s. (sl_name s, s)) w)"

definition demo_api :: "EndpointSlice list k8s_api" where
  "demo_api = \<lparr>kube_namespace = Inr ''ns'', apply_service = (\<lambda>_ _ w. (Inr (), w)),
     apply_slice = (\<lambda>_ s w. (Inr (), s # w)),
     list_slices = (\<lambda>_ sel w. Inr (filter (\<lambda>s. demo_view w (sl_name s) = Some s \<and> has_labels sel s) w)),
     delete_slice = (\<lambda>_ n w. (Inr (), filter (\<lambda>s. sl_name s \<noteq> n) w)),
     apply_configmap = (\<lambda>_ _ _ w. (Inr (), w))\<rparr>"

lemma demo_view_name: "demo_view w n = Some s \<Longrightarrow> sl_name s = n \<and> s \<in> set w"
  by (auto simp: demo_view_def dest!: map_of_SomeD)

lemma demo_view_delete: "demo_view (filter (\<lambda>s. sl_name s \<noteq> n) w) = (demo_view w)(n := None)"
  by (induction w) (auto simp: demo_view_def fun_eq_iff)

lemma demo_slices_api: "slices_api demo_api ns demo_view"
proof -
  have "sl_name ` {x \<in> set w. demo_view w (sl_name x) = Some x \<and> has_labels sel x}
      = {n. \<exists>s. demo_view w n = Some s \<and> has_labels sel s}" for w sel
  proof (intro set_eqI iffI)
    fix n assume "n \<in> {n. \<exists>s. demo_view w n = Some s \<and> has_labels sel s}"
    then obtain s where "demo_view w n = Some s" "has_labels sel s" by blast
    with demo_view_name [OF this(1)] show "n \<in> sl_name ` {x \<in> set w. demo_view w (sl_name x) = Some x \<and> has_labels sel x}"
      by (intro image_eqI [of _ _ s]) simp_all
  qed blast
  then have "set (map sl_name (filter (\<lambda>s. demo_view w (sl_name s) = Some s \<and> has_labels sel s) w))
      = {n. \<exists>s. demo_view w n = Some s \<and> has_labels sel s}" for w sel
    by simp
  moreover have "demo_view (s # w) = (demo_view w)(sl_name s \<mapsto> s)" for s w by (simp add: demo_view_def)
  ultimately show ?thesis
    unfolding slices_api_def demo_api_def by (simp only: k8s_api.simps) (simp add: demo_view_delete)
qed

definition demo_client :: k8sClient where
  "demo_client = \<lparr>dryRun = False, marshal_indent = (\<lambda>_. Inr [])\<rparr>"

definition demo_ips :: "ip list" where
  "demo_ips = [[10, 0, 0, 1], [10, 0, 0, 2], [10, 0, 0, 3]]"

definition demo_ports :: "namedPort list" where
  "demo_ports = [\<lparr>pname = ''http'', port = 80\<rparr>]"

definition demo_cluster :: "EndpointSlice list me_state" where
  "demo_cluster = \<lparr>cluster = [slice_apply ''t'' demo_ports 7 demo_ips, slice_apply ''other'' demo_ports 0 []], stdout = []\<rparr>"

theorem updateTargetEndpoints_exact_witness:
  "\<exists>st'. updateTargetEndpoints demo_client demo_api ''t'' demo_ips 2 demo_ports demo_cluster = (Inr (), st')
    \<and> demo_view (cluster st') = (\<lambda>n. case target_slices ''t'' demo_ports 0 (chunk (nat 2) demo_ips) n of
        Some s \<Rightarrow> Some s
      | None \<Rightarrow> if \<exists>s. demo_view (cluster demo_cluster) n = Some s \<and> has_labels (slice_labels ''t'') s then None
                else demo_view (cluster demo_cluster) n)"
proof -
  have "fst (updateTargetEndpoints demo_client demo_api ''t'' demo_ips 2 demo_ports demo_cluster) = Inr ()"
    by (rule updateTargetEndpoints_up [of _ "''ns''"]) (simp_all add: api_up_def demo_api_def demo_client_def)
  then obtain st' where r: "updateTargetEndpoints demo_client demo_api ''t'' demo_ips 2 demo_ports demo_cluster = (Inr (), st')"
    by (metis prod.collapse)
  have "\<not> dryRun demo_client" "kube_namespace demo_api = Inr ''ns''" by (simp_all add: demo_client_def demo_api_def)
  then show ?thesis using r updateTargetEndpoints_exact [OF r _ _ demo_slices_api] by blast
qed

section \<open>The program\<close>

text \<open>\<open>main\<close> exits with status 1 on an error of \<open>subMain\<close>.\<close>

definition me_main :: "'w me_world \<Rightarrow> flags \<Rightarrow> 'w me_state \<Rightarrow> unit process \<times> 'w me_state" where
  "me_main world fl st =
     (case subMain world fl st of (Inl e, st') \<Rightarrow> (Exited 1, st') | (Inr _, st') \<Rightarrow> (Exited 0, st'))"

section \<open>Sabakan's answers\<close>

text \<open>A machine as sabakan prints it, and the machines that have a printable form.\<close>

definition machine_answer :: "Machine \<Rightarrow> jtree" where
  "machine_answer m =
     TObj [(''spec'', TObj [(''ipv4'', TArr (map TStr (IPv4 m))), (''serial'', TStr (Serial m)), (''rack'', TInt (Rack m)),
         (''indexInRack'', TInt (IndexInRack m)), (''role'', TStr (Role m)), (''bmc'', TObj [(''ipv4'', TStr (BMC_IPv4 m))])]),
       (''status'', TObj [(''state'', TStr (State m))])]"

definition machine_printable :: "Machine \<Rightarrow> bool" where
  "machine_printable m \<longleftrightarrow> list_all ascii (IPv4 m) \<and> ascii (Serial m) \<and> ascii (Role m) \<and> ascii (BMC_IPv4 m)
     \<and> ascii (State m) \<and> int64_range (Rack m) \<and> int64_range (IndexInRack m)"

lemma those_Some: "those (map Some xs) = Some xs"
  by (induction xs) simp_all

lemmas answer_defs = dec_struct_def find_field_def struct_field_def dec_slice_def

lemma fold_names:
  "fold_name ''Spec'' = ''spec''" "fold_name ''spec'' = ''spec''" "fold_name ''Status'' = ''status''" "fold_name ''status'' = ''status''"
  "fold_name ''BMC'' = ''bmc''" "fold_name ''bmc'' = ''bmc''" "fold_name ''ipv4'' = ''ipv4''" "fold_name ''serial'' = ''serial''"
  "fold_name ''rack'' = ''rack''" "fold_name ''indexInRack'' = ''indexinrack''" "fold_name ''role'' = ''role''"
  by code_simp+

interpretation answer: json_codec machine_answer "dec_struct machine_fields" zero_machine machine_printable
proof
  fix m
  assume ok: "machine_printable m"
  then show "printable 9 (machine_answer m)"
    by (simp add: machine_printable_def machine_answer_def ascii_def list_all_iff)
  have int: "dec_integer (TInt (Rack m)) old = Some (Rack m)" "dec_integer (TInt (IndexInRack m)) old = Some (IndexInRack m)" for old
    using ok by (simp_all add: machine_printable_def)
  have spec: "find_field spec_fields ''bmc'' = Some (dec_struct [(''ipv4'', struct_field BMC_IPv4 (\<lambda>a r. r\<lparr>BMC_IPv4 := a\<rparr>) dec_string)])"
      "find_field spec_fields ''ipv4'' = Some (struct_field IPv4 (\<lambda>a r. r\<lparr>IPv4 := a\<rparr>) (dec_slice dec_string []))"
      "find_field spec_fields ''serial'' = Some (struct_field Serial (\<lambda>a r. r\<lparr>Serial := a\<rparr>) dec_string)"
      "find_field spec_fields ''rack'' = Some (struct_field Rack (\<lambda>a r. r\<lparr>Rack := a\<rparr>) dec_integer)"
      "find_field spec_fields ''indexInRack'' = Some (struct_field IndexInRack (\<lambda>a r. r\<lparr>IndexInRack := a\<rparr>) dec_integer)"
      "find_field spec_fields ''role'' = Some (struct_field Role (\<lambda>a r. r\<lparr>Role := a\<rparr>) dec_string)"
    by (simp_all add: spec_fields_def find_field_def fold_names del: fold_name.simps)
  have "find_field machine_fields ''spec'' = Some (dec_struct spec_fields)" "find_field machine_fields ''status''
      = Some (dec_struct [(''state'', struct_field State (\<lambda>a r. r\<lparr>State := a\<rparr>) dec_string)])"
    by (simp_all add: machine_fields_def find_field_def fold_names del: fold_name.simps)
  moreover have "dec_struct spec_fields (TObj [(''ipv4'', TArr (map TStr (IPv4 m))), (''serial'', TStr (Serial m)), (''rack'', TInt (Rack m)),
         (''indexInRack'', TInt (IndexInRack m)), (''role'', TStr (Role m)), (''bmc'', TObj [(''ipv4'', TStr (BMC_IPv4 m))])]) zero_machine
      = Some (m\<lparr>State := []\<rparr>)"
    by (simp add: dec_struct_def spec struct_field_def dec_slice_def o_def dec_string_def those_Some int zero_machine_def)
      (simp add: find_field_def struct_field_def dec_string_def)
  ultimately show "dec_struct machine_fields (machine_answer m) zero_machine = Some m"
    by (simp add: machine_answer_def answer_defs dec_string_def)
qed

definition sabakan_answer :: "Machine list \<Rightarrow> string" where
  "sabakan_answer ms = print_json (TObj [(''data'', TObj [(''searchMachines'', TArr (map machine_answer ms))])])"

text \<open>The machines of an answer are those it was printed from, whatever happens to the stream after it.\<close>

lemma getMachines_answer:
  assumes "list_all machine_printable ms"
    and "q (''http://'' @ address @ ''/graphql'') (print_json (TObj [(''query'', TStr graphQLQuery)]))
      = Inr (200, \<lparr>stream_bytes = sabakan_answer ms, stream_error = e\<rparr>)"
  shows "getMachines q sf address = Inr (sf ms)"
proof -
  let ?data = "TObj [(''searchMachines'', TArr (map machine_answer ms))]"
  have "printable 12 (TObj [(''data'', ?data)])"
    using assms(1) printable_mono [OF answer.enc_printable] by (simp add: list_all_iff ascii_def)
  then have "printable 100 (TObj [(''data'', ?data)])" by (rule printable_mono) simp
  from decode_first_print [OF this] have "decode_first \<lparr>stream_bytes = sabakan_answer ms, stream_error = e\<rparr> = Some (TObj [(''data'', ?data)])"
    unfolding sabakan_answer_def .
  moreover have "dec_struct result_fields (TObj [(''data'', ?data)]) \<lparr>Machines = [], Errors = []\<rparr> = Some \<lparr>Machines = ms, Errors = []\<rparr>"
    using answer.those_dec [OF assms(1)] by (simp add: result_fields_def answer_defs o_def)
  ultimately show ?thesis using assms(2) by (simp add: getMachines_def json_Marshal_def go_decode_def)
qed

section \<open>Addresses of the wrong family\<close>

text \<open>\<open>net.ParseIP\<close> takes addresses of both families, so an IPv6 text in the field \<open>ipv4\<close> is not skipped as a bad record but
  listed as an endpoint of a slice with the address type IPv4.\<close>

lemma ipv6_endpoint_listed: "map length (allServerIPs ''RETIRED'' [zero_machine\<lparr>IPv4 := [''::1'']\<rparr>]) = [16]"
proof -
  have "map_option length (ParseIP ''::1'') = Some 16" by code_simp
  then show ?thesis by (auto simp: parseMachineIPv4_def isRetired_def hasIPv4_def zero_machine_def)
qed

end
