(* ===== verification/Collector_Data.thy ===== *)
theory Collector_Data
  imports Json_Text
begin

text \<open>
  The data of bmc-log-collector and its JSON: the records of the event log (\<open>log-collector.go\<close>), the pointer files
  (\<open>log-pointer.go\<close>), the machine list (\<open>machines-list.go\<close>) and the user file (\<open>bmc-user.go\<close>), with the names that the
  struct tags give to their fields. Pointers and machines are read back from their texts.
\<close>

section \<open>Data\<close>

record SystemEventLog =
  Od_Id :: string
  Od_Type :: string
  Create :: string
  Description :: string
  EntryCode :: string
  EntryType :: string
  GeneratorId :: string
  Id :: string
  Message :: string
  MessageArgs :: "string list option"
  OdCnt_MessageArgs :: int
  MessageId :: string
  Name :: string
  SensorNumber :: int
  SensorType :: string
  Severity :: string
  Serial :: string
  NodeIP :: string
  BmcIP :: string

record RedfishJsonSchema =
  rf_Name :: string
  rf_Count :: int
  rf_Context :: string
  rf_Id :: string
  rf_Type :: string
  rf_Description :: string
  Sel :: "SystemEventLog list"

record LastPointer =
  LastReadId :: int
  LastError :: string
  LastHttpStatusCode :: int
  FirstCreateTime :: int

definition zero_pointer :: LastPointer where
  "zero_pointer = \<lparr>LastReadId = 0, LastError = [], LastHttpStatusCode = 0, FirstCreateTime = 0\<rparr>"

record Machine =
  m_Serial :: string
  m_BmcIP :: string
  m_NodeIP :: string

record BMCPassword =
  Raw :: string
  Hash :: string
  Salt :: string

record Credentials =
  Password :: BMCPassword

record UserConfig =
  Root :: Credentials
  Repair :: Credentials
  Power :: Credentials
  Support :: Credentials

section \<open>The names of the fields in JSON\<close>

definition ptr_fields :: "(string \<times> LastPointer decoder) list" where
  "ptr_fields =
     [(''LastReadId'', struct_field LastReadId (\<lambda>a r. r\<lparr>LastReadId := a\<rparr>) dec_integer),
      (''LastError'', struct_field LastError (\<lambda>a r. r\<lparr>LastError := a\<rparr>) dec_string),
      (''LastHttpStatusCode'', struct_field LastHttpStatusCode (\<lambda>a r. r\<lparr>LastHttpStatusCode := a\<rparr>) dec_integer),
      (''FirstCreateTime'', struct_field FirstCreateTime (\<lambda>a r. r\<lparr>FirstCreateTime := a\<rparr>) dec_integer)]"

definition ptr_json :: "LastPointer \<Rightarrow> jtree" where
  "ptr_json lp = TObj [(''LastReadId'', TInt (LastReadId lp)), (''LastError'', TStr (LastError lp)),
      (''LastHttpStatusCode'', TInt (LastHttpStatusCode lp)), (''FirstCreateTime'', TInt (FirstCreateTime lp))]"

definition zero_sel :: SystemEventLog where
  "zero_sel = \<lparr>Od_Id = [], Od_Type = [], Create = [], Description = [], EntryCode = [], EntryType = [], 
     GeneratorId = [], Id = [], Message = [], MessageArgs = None, OdCnt_MessageArgs = 0, MessageId = [], Name = [], 
     SensorNumber = 0, SensorType = [], Severity = [], Serial = [], NodeIP = [], BmcIP = []\<rparr>"

definition sel_fields :: "(string \<times> SystemEventLog decoder) list" where
  "sel_fields =
     [(''@odata.id'', struct_field Od_Id (\<lambda>a r. r\<lparr>Od_Id := a\<rparr>) dec_string),
      (''@odata.type'', struct_field Od_Type (\<lambda>a r. r\<lparr>Od_Type := a\<rparr>) dec_string),
      (''Created'', struct_field Create (\<lambda>a r. r\<lparr>Create := a\<rparr>) dec_string),
      (''Description'', struct_field Description (\<lambda>a r. r\<lparr>Description := a\<rparr>) dec_string),
      (''EntryCode'', struct_field EntryCode (\<lambda>a r. r\<lparr>EntryCode := a\<rparr>) dec_string),
      (''EntryType'', struct_field EntryType (\<lambda>a r. r\<lparr>EntryType := a\<rparr>) dec_string),
      (''GeneratorId'', struct_field GeneratorId (\<lambda>a r. r\<lparr>GeneratorId := a\<rparr>) dec_string),
      (''Id'', struct_field Id (\<lambda>a r. r\<lparr>Id := a\<rparr>) dec_string),
      (''Message'', struct_field Message (\<lambda>a r. r\<lparr>Message := a\<rparr>) dec_string),
      (''MessageArgs'', struct_field MessageArgs (\<lambda>a r. r\<lparr>MessageArgs := a\<rparr>) (dec_nilable dec_string [])),
      (''MessageArgs@odata.count'', struct_field OdCnt_MessageArgs (\<lambda>a r. r\<lparr>OdCnt_MessageArgs := a\<rparr>) dec_integer),
      (''MessageId'', struct_field MessageId (\<lambda>a r. r\<lparr>MessageId := a\<rparr>) dec_string),
      (''Name'', struct_field Name (\<lambda>a r. r\<lparr>Name := a\<rparr>) dec_string),
      (''SensorNumber'', struct_field SensorNumber (\<lambda>a r. r\<lparr>SensorNumber := a\<rparr>) dec_integer),
      (''SensorType'', struct_field SensorType (\<lambda>a r. r\<lparr>SensorType := a\<rparr>) dec_string),
      (''Severity'', struct_field Severity (\<lambda>a r. r\<lparr>Severity := a\<rparr>) dec_string),
      (''Serial'', struct_field Serial (\<lambda>a r. r\<lparr>Serial := a\<rparr>) dec_string),
      (''NodeIP'', struct_field NodeIP (\<lambda>a r. r\<lparr>NodeIP := a\<rparr>) dec_string),
      (''BmcIP'', struct_field BmcIP (\<lambda>a r. r\<lparr>BmcIP := a\<rparr>) dec_string)]"

definition sel_json :: "SystemEventLog \<Rightarrow> jtree" where
  "sel_json v = TObj [(''@odata.id'', TStr (Od_Id v)), (''@odata.type'', TStr (Od_Type v)), (''Created'', TStr (Create v)),
      (''Description'', TStr (Description v)), (''EntryCode'', TStr (EntryCode v)), (''EntryType'', TStr (EntryType v)),
      (''GeneratorId'', TStr (GeneratorId v)), (''Id'', TStr (Id v)), (''Message'', TStr (Message v)),
      (''MessageArgs'', enc_nilable TStr (MessageArgs v)), (''MessageArgs@odata.count'', TInt (OdCnt_MessageArgs v)),
      (''MessageId'', TStr (MessageId v)), (''Name'', TStr (Name v)), (''SensorNumber'', TInt (SensorNumber v)), (''SensorType'', TStr (SensorType v)),
      (''Severity'', TStr (Severity v)), (''Serial'', TStr (Serial v)), (''NodeIP'', TStr (NodeIP v)),
      (''BmcIP'', TStr (BmcIP v))]"

definition redfish_fields :: "(string \<times> RedfishJsonSchema decoder) list" where
  "redfish_fields =
     [(''Name'', struct_field rf_Name (\<lambda>a r. r\<lparr>rf_Name := a\<rparr>) dec_string),
      (''Members@odata.count'', struct_field rf_Count (\<lambda>a r. r\<lparr>rf_Count := a\<rparr>) dec_integer),
      (''@odata.context'', struct_field rf_Context (\<lambda>a r. r\<lparr>rf_Context := a\<rparr>) dec_string),
      (''@odata.id'', struct_field rf_Id (\<lambda>a r. r\<lparr>rf_Id := a\<rparr>) dec_string),
      (''@odata.type'', struct_field rf_Type (\<lambda>a r. r\<lparr>rf_Type := a\<rparr>) dec_string),
      (''Descriptionta'', struct_field rf_Description (\<lambda>a r. r\<lparr>rf_Description := a\<rparr>) dec_string),
      (''Members'', struct_field Sel (\<lambda>a r. r\<lparr>Sel := a\<rparr>) (dec_slice (dec_struct sel_fields) zero_sel))]"

definition zero_redfish :: RedfishJsonSchema where
  "zero_redfish = \<lparr>rf_Name = [], rf_Count = 0, rf_Context = [], rf_Id = [], rf_Type = [], rf_Description = [], Sel = []\<rparr>"

definition zero_machine :: Machine where
  "zero_machine = \<lparr>m_Serial = [], m_BmcIP = [], m_NodeIP = []\<rparr>"

definition machine_fields :: "(string \<times> Machine decoder) list" where
  "machine_fields =
     [(''serial'', struct_field m_Serial (\<lambda>a r. r\<lparr>m_Serial := a\<rparr>) dec_string),
      (''bmc_ipv4'', struct_field m_BmcIP (\<lambda>a r. r\<lparr>m_BmcIP := a\<rparr>) dec_string),
      (''node_ipv4'', struct_field m_NodeIP (\<lambda>a r. r\<lparr>m_NodeIP := a\<rparr>) dec_string)]"

definition password_fields :: "(string \<times> BMCPassword decoder) list" where
  "password_fields =
     [(''raw'', struct_field Raw (\<lambda>a r. r\<lparr>Raw := a\<rparr>) dec_string),
      (''hash'', struct_field Hash (\<lambda>a r. r\<lparr>Hash := a\<rparr>) dec_string),
      (''salt'', struct_field Salt (\<lambda>a r. r\<lparr>Salt := a\<rparr>) dec_string)]"

definition credentials_fields :: "(string \<times> Credentials decoder) list" where
  "credentials_fields = [(''password'', struct_field Password (\<lambda>a r. r\<lparr>Password := a\<rparr>) (dec_struct password_fields))]"

definition user_fields :: "(string \<times> UserConfig decoder) list" where
  "user_fields =
     [(''root'', struct_field Root (\<lambda>a r. r\<lparr>Root := a\<rparr>) (dec_struct credentials_fields)),
      (''repair'', struct_field Repair (\<lambda>a r. r\<lparr>Repair := a\<rparr>) (dec_struct credentials_fields)),
      (''power'', struct_field Power (\<lambda>a r. r\<lparr>Power := a\<rparr>) (dec_struct credentials_fields)),
      (''support'', struct_field Support (\<lambda>a r. r\<lparr>Support := a\<rparr>) (dec_struct credentials_fields))]"

definition zero_user :: UserConfig where
  "zero_user = (let c = \<lparr>Password = \<lparr>Raw = [], Hash = [], Salt = []\<rparr>\<rparr> in \<lparr>Root = c, Repair = c, Power = c, Support = c\<rparr>)"

section \<open>The calls of encoding/json\<close>

definition marshal_ptr :: "LastPointer \<Rightarrow> (string, string) result" where
  "marshal_ptr lp = json_Marshal (ptr_json lp)"

definition unmarshal_ptr :: "string \<Rightarrow> (string, LastPointer) result" where
  "unmarshal_ptr = go_unmarshal (dec_struct ptr_fields) zero_pointer"

definition marshal_sel :: "SystemEventLog \<Rightarrow> (string, string) result" where
  "marshal_sel v = json_Marshal (sel_json v)"

definition unmarshal_redfish :: "string \<Rightarrow> (string, RedfishJsonSchema) result" where
  "unmarshal_redfish = go_unmarshal (dec_struct redfish_fields) zero_redfish"

definition unmarshal_machines :: "string \<Rightarrow> (string, Machine list) result" where
  "unmarshal_machines = go_unmarshal (dec_slice (dec_struct machine_fields) zero_machine) []"

definition decode_user :: "string \<Rightarrow> (string, UserConfig) result" where
  "decode_user s = go_decode (dec_struct user_fields) zero_user \<lparr>stream_bytes = s, stream_error = None\<rparr>"

section \<open>Pointers and machines\<close>

lemmas decode_defs = dec_struct_def find_field_def struct_field_def dec_string_def

definition ptr_ok :: "LastPointer \<Rightarrow> bool" where
  "ptr_ok lp \<longleftrightarrow> ascii (LastError lp) \<and> int64_range (LastReadId lp) \<and> int64_range (LastHttpStatusCode lp)
     \<and> int64_range (FirstCreateTime lp)"

interpretation pointer: json_codec ptr_json "dec_struct ptr_fields" zero_pointer ptr_ok
proof
  fix lp
  assume "ptr_ok lp"
  then show "printable 9 (ptr_json lp)" by (simp add: ptr_ok_def ptr_json_def ascii_def)
  show "dec_struct ptr_fields (ptr_json lp) zero_pointer = Some lp"
    using \<open>ptr_ok lp\<close> by (simp add: ptr_ok_def ptr_json_def ptr_fields_def decode_defs)
qed

lemma ptr_ok_zero [simp]: "ptr_ok zero_pointer"
  by (simp add: ptr_ok_def zero_pointer_def ascii_def int64_range_def)

lemma ptr_roundtrip: "ptr_ok lp \<Longrightarrow> marshal_ptr lp = Inr j \<Longrightarrow> unmarshal_ptr j = Inr lp"
  using pointer.text_roundtrip by (auto simp: marshal_ptr_def unmarshal_ptr_def json_Marshal_def)

text \<open>A list of machines as a program would write it with the names the collector expects.\<close>

definition machine_json :: "Machine \<Rightarrow> jtree" where
  "machine_json m = TObj [(''serial'', TStr (m_Serial m)), (''bmc_ipv4'', TStr (m_BmcIP m)), (''node_ipv4'', TStr (m_NodeIP m))]"

definition machine_ok :: "Machine \<Rightarrow> bool" where
  "machine_ok m \<longleftrightarrow> ascii (m_Serial m) \<and> ascii (m_BmcIP m) \<and> ascii (m_NodeIP m)"

interpretation machine: json_codec machine_json "dec_struct machine_fields" zero_machine machine_ok
proof
  fix m
  assume "machine_ok m"
  then show "printable 9 (machine_json m)" by (simp add: machine_ok_def machine_json_def ascii_def)
  show "dec_struct machine_fields (machine_json m) zero_machine = Some m"
    by (simp add: machine_json_def machine_fields_def decode_defs)
qed

lemma machines_roundtrip:
  "list_all machine_ok ms \<Longrightarrow> unmarshal_machines (print_json (enc_slice machine_json ms)) = Inr ms"
  unfolding unmarshal_machines_def by (rule machine.slice_roundtrip)

end
