(* ===== verification/Log_Collector.thy ===== *)
theory Log_Collector
  imports Collector_Data
begin

text \<open>
  The BMC log collector: pointer files (\<open>log-pointer.go\<close>), one scrape of the system event log of a
  machine (\<open>log-collector.go\<close>, \<open>request-to-bmc.go\<close>), the machine list and user files, the counters
  of \<open>metrics.go\<close> and the body of the scraping loop of \<open>main.go\<close>.

  The pointer directory is a map from paths to file contents; every system call can fail, as a record of
  fault oracles says. \<open>time.Parse\<close> and the HTTP client are arguments; the JSON is that of Collector_Data. The log writer is
  the interface \<open>bmcLogWriter\<close>, a locale below, which \<open>logProd\<close> implements.
\<close>

section \<open>The collector\<close>

record selCollector =
  machinesListDir :: string
  rfSelPath :: string
  ptrDir :: string
  username :: string
  password :: string

section \<open>File system\<close>

type_synonym files = "string \<rightharpoonup> string"

text \<open>
  The faults of one run of the system calls, per path. \<open>write_fault p = Some n\<close>: the write stores
  \<open>n\<close> bytes and then fails. \<open>stat_fault\<close>: the call fails with an error other than not-exist.
\<close>

record fs_env =
  stat_fault :: "string \<Rightarrow> bool"
  create_fault :: "string \<Rightarrow> string option"
  write_fault :: "string \<Rightarrow> (nat \<times> string) option"
  sync_fault :: "string \<Rightarrow> string option"
  rename_fault :: "string \<Rightarrow> string option"
  open_fault :: "string \<Rightarrow> string option"
  read_fault :: "string \<Rightarrow> string option"
  remove_fault :: "string \<Rightarrow> string option"
  readdir_fault :: "string \<Rightarrow> string option"

text \<open>\<open>path.Join\<close> of a clean directory and a name without slashes, and \<open>filepath.Base\<close> and
  \<open>filepath.Dir\<close> of such a path.\<close>

definition path_join :: "string \<Rightarrow> string \<Rightarrow> string" where
  "path_join d n = d @ ''/'' @ n"

definition path_base :: "string \<Rightarrow> string" where
  "path_base p = rev (takeWhile (\<lambda>c. c \<noteq> CHR ''/'') (rev p))"

definition path_dir :: "string \<Rightarrow> string" where
  "path_dir p = rev (tl (dropWhile (\<lambda>c. c \<noteq> CHR ''/'') (rev p)))"

definition plain_name :: "string \<Rightarrow> bool" where
  "plain_name n \<longleftrightarrow> n \<noteq> [] \<and> n \<noteq> ''.'' \<and> n \<noteq> ''..'' \<and> CHR ''/'' \<notin> set n"

definition fs_create :: "fs_env \<Rightarrow> files \<Rightarrow> string \<Rightarrow> (string, unit) result \<times> files" where
  "fs_create env fs p =
     (case create_fault env p of Some e \<Rightarrow> (Inl e, fs) | None \<Rightarrow> (Inr (), fs(p \<mapsto> [])))"

text \<open>\<open>WriteString\<close> on a file just created at \<open>p\<close>.\<close>

definition fs_write :: "fs_env \<Rightarrow> files \<Rightarrow> string \<Rightarrow> string \<Rightarrow> (string, unit) result \<times> files" where
  "fs_write env fs p s =
     (case write_fault env p of
        Some (n, e) \<Rightarrow> (Inl e, fs(p \<mapsto> take n s))
      | None \<Rightarrow> (Inr (), fs(p \<mapsto> s)))"

definition fs_rename :: "fs_env \<Rightarrow> files \<Rightarrow> string \<Rightarrow> string \<Rightarrow> (string, unit) result \<times> files" where
  "fs_rename env fs p q =
     (case rename_fault env p of
        Some e \<Rightarrow> (Inl e, fs)
      | None \<Rightarrow> (case fs p of
                    None \<Rightarrow> (Inl ''no such file or directory'', fs)
                  | Some s \<Rightarrow> (Inr (), (fs(p := None))(q \<mapsto> s))))"

definition fs_read :: "fs_env \<Rightarrow> files \<Rightarrow> string \<Rightarrow> (string, string) result" where
  "fs_read env fs p =
     (case open_fault env p of
        Some e \<Rightarrow> Inl e
      | None \<Rightarrow> (case fs p of
                    None \<Rightarrow> Inl ''no such file or directory''
                  | Some s \<Rightarrow> (case read_fault env p of Some e \<Rightarrow> Inl e | None \<Rightarrow> Inr s)))"

section \<open>Pointer files\<close>

text \<open>\<open>time.Parse\<close> for the format RFC 3339, with the Unix time of the result.\<close>

type_synonym time_parser = "string \<Rightarrow> (string, int) result"

definition checkAndCreatePointerFile ::
  "fs_env \<Rightarrow> files \<Rightarrow> string \<Rightarrow> (string, unit) result \<times> files" where
  "checkAndCreatePointerFile env fs p =
     (if \<not> (fs p = None \<and> \<not> stat_fault env p) then (Inr (), fs)
      else (case marshal_ptr zero_pointer of
              Inl e \<Rightarrow> (Inl e, fs)
            | Inr j \<Rightarrow>
                (case fs_create env fs p of
                   (Inl e, fs1) \<Rightarrow> (Inl e, fs1)
                 | (Inr _, fs1) \<Rightarrow> fs_write env fs1 p j)))"

definition tmp_path :: "string \<Rightarrow> string" where
  "tmp_path p = path_dir p @ ''/_'' @ path_base p"

definition updateLastPointer ::
  "fs_env \<Rightarrow> files \<Rightarrow> LastPointer \<Rightarrow> string \<Rightarrow> (string, unit) result \<times> files" where
  "updateLastPointer env fs lptr p =
     (case marshal_ptr lptr of
        Inl e \<Rightarrow> (Inl e, fs)
      | Inr j \<Rightarrow>
          let tmpPath = tmp_path p in
          (case fs_create env fs tmpPath of
             (Inl e, fs1) \<Rightarrow> (Inl e, fs1)
           | (Inr _, fs1) \<Rightarrow>
               (case fs_write env fs1 tmpPath j of
                  (Inl e, fs2) \<Rightarrow> (Inl e, fs2)
                | (Inr _, fs2) \<Rightarrow>
                    (case sync_fault env tmpPath of
                       Some e \<Rightarrow> (Inl e, fs2)
                     | None \<Rightarrow> fs_rename env fs2 tmpPath p))))"

definition readLastPointer :: "fs_env \<Rightarrow> files \<Rightarrow> string \<Rightarrow> (string, LastPointer) result" where
  "readLastPointer env fs p =
     (case fs_read env fs p of Inl e \<Rightarrow> Inl e | Inr s \<Rightarrow> unmarshal_ptr s)"

section \<open>Requests\<close>

text \<open>\<open>http.NewRequest\<close>, the client's \<open>Do\<close> for a user, a password and a URL, and reading the body.\<close>

record http_client =
  new_request :: "string \<Rightarrow> (string, unit) result"
  http_do :: "string \<Rightarrow> string \<Rightarrow> string \<Rightarrow> (string, int \<times> (string, string) result) result"

text \<open>The result is \<open>(buf, statusCode, err)\<close>; a nil error is \<^term>\<open>None\<close>.\<close>

definition requestToBmc ::
  "http_client \<Rightarrow> string \<Rightarrow> string \<Rightarrow> string \<Rightarrow> string \<times> int \<times> string option" where
  "requestToBmc cl user pw url =
     (case new_request cl url of
        Inl e \<Rightarrow> ([], 0, Some e)
      | Inr _ \<Rightarrow>
          (case http_do cl user pw url of
             Inl e \<Rightarrow> ([], 0, Some e)
           | Inr (code, Inl e) \<Rightarrow> ([], code, Some e)
           | Inr (code, Inr buf) \<Rightarrow> (buf, code, None)))"

section \<open>State of the collector\<close>

datatype log_msg =
    CantCheck string | CantRead string | TcpFailed string string | HttpFailed int string
  | WriteFailed string string | BadJSON string | NoSEL string | BadTime string | BadId string string
  | MarshalFailed string | OutputFailed string | CantReadList string | RemoveFailed string string
  | DeleteFailed string

record 'o lc_state =
  ptrs :: files
  counterRequestFailed :: "string \<rightharpoonup> nat"
  counterRequestSuccess :: "string \<rightharpoonup> nat"
  out :: 'o
  slog :: "log_msg list"

definition ctr_inc :: "(string \<rightharpoonup> nat) \<Rightarrow> string \<Rightarrow> (string \<rightharpoonup> nat)" where
  "ctr_inc m s = m(s \<mapsto> (case m s of None \<Rightarrow> 1 | Some n \<Rightarrow> n + 1))"

definition slog_error :: "log_msg \<Rightarrow> 'o lc_state \<Rightarrow> 'o lc_state" where
  "slog_error e st = st\<lparr>slog := slog st @ [e]\<rparr>"

definition deleteMetrics :: "string \<Rightarrow> 'o lc_state \<Rightarrow> 'o lc_state" where
  "deleteMetrics s st = st\<lparr>counterRequestSuccess := (counterRequestSuccess st)(s := None),
                          counterRequestFailed := (counterRequestFailed st)(s := None)\<rparr>"

text \<open>\<open>bmcLogWriter.write(stringJson, serial)\<close>.\<close>

type_synonym 'o writer = "string \<Rightarrow> string \<Rightarrow> 'o \<Rightarrow> (string, unit) result \<times> 'o"

text \<open>The production writer \<open>logProd\<close>: \<open>log.Print\<close> adds a line to the standard output.\<close>

definition logProd_write :: "string list writer" where
  "logProd_write s serial ls = (Inr (), ls @ [s])"

section \<open>One scrape\<close>

text \<open>Storing a pointer at the end of a scrape, with the error message of a failed update.\<close>

definition save_pointer :: "fs_env \<Rightarrow> LastPointer \<Rightarrow> string \<Rightarrow> string \<Rightarrow> 'o lc_state \<Rightarrow> 'o lc_state" where
  "save_pointer env lptr p serial st =
     (case updateLastPointer env (ptrs st) lptr p of
        (Inl e, fs) \<Rightarrow> slog_error (WriteFailed e serial) (st\<lparr>ptrs := fs\<rparr>)
      | (Inr _, fs) \<Rightarrow> st\<lparr>ptrs := fs\<rparr>)"

text \<open>\<open>json.Marshal\<close> of an event, then \<open>write\<close>. A failure of either is logged, nothing more; after
  a failed \<open>Marshal\<close> the empty text is written.\<close>

definition emit :: "'o writer \<Rightarrow> string \<Rightarrow> SystemEventLog \<Rightarrow> 'o lc_state \<Rightarrow> 'o lc_state" where
  "emit w serial v st =
     (let (j, st1) = (case marshal_sel v of
                        Inl _ \<Rightarrow> ([], slog_error (MarshalFailed serial) st)
                      | Inr j \<Rightarrow> (j, st))
      in (case w j serial (out st1) of
            (Inl _, ou) \<Rightarrow> slog_error (OutputFailed serial) (st1\<lparr>out := ou\<rparr>)
          | (Inr _, ou) \<Rightarrow> st1\<lparr>out := ou\<rparr>))"

definition tag_event :: "Machine \<Rightarrow> SystemEventLog \<Rightarrow> SystemEventLog" where
  "tag_event m v = v\<lparr>Serial := m_Serial m, BmcIP := m_BmcIP m, NodeIP := m_NodeIP m\<rparr>"

text \<open>The loop over the events, oldest first, with the variable \<open>lastPtr\<close>.\<close>

fun sel_loop ::
  "'o writer \<Rightarrow> Machine \<Rightarrow> int \<Rightarrow> SystemEventLog list \<Rightarrow> LastPointer \<Rightarrow> 'o lc_state
     \<Rightarrow> LastPointer \<times> 'o lc_state" where
  "sel_loop w m first [] lp st = (lp, st)"
| "sel_loop w m first (v # vs) lp st =
     (case atoi (Id v) of
        None \<Rightarrow> sel_loop w m first vs lp (slog_error (BadId (Id v) (m_Serial m)) st)
      | Some currentId \<Rightarrow>
          let v' = tag_event m v in
          if LastReadId lp < currentId then
            sel_loop w m first vs (lp\<lparr>LastReadId := currentId\<rparr>) (emit w (m_Serial m) v' st)
          else if FirstCreateTime lp \<noteq> first then
            sel_loop w m first vs (lp\<lparr>LastReadId := currentId\<rparr>) (emit w (m_Serial m) v' st)
          else sel_loop w m first vs lp st)"

text \<open>What follows a response with status 200.\<close>

definition handle_response ::
  "time_parser \<Rightarrow> 'o writer \<Rightarrow> fs_env \<Rightarrow> Machine \<Rightarrow> string \<Rightarrow> LastPointer \<Rightarrow> string \<Rightarrow> 'o lc_state \<Rightarrow> 'o lc_state" where
  "handle_response tm w env m p lastPtr buf st =
     (case unmarshal_redfish buf of
        Inl _ \<Rightarrow> slog_error (BadJSON (m_Serial m)) st
      | Inr resp \<Rightarrow>
          if Sel resp = [] then slog_error (NoSEL (m_Serial m)) st
          else (case tm (Create (last (Sel resp))) of
                  Inl _ \<Rightarrow> slog_error (BadTime (m_Serial m)) st
                | Inr first \<Rightarrow>
                    let (lp, st1) = sel_loop w m first (rev (Sel resp)) lastPtr st
                    in save_pointer env (lp\<lparr>FirstCreateTime := first\<rparr>) p (m_Serial m) st1))"

definition bmcUrl :: "selCollector \<Rightarrow> Machine \<Rightarrow> string" where
  "bmcUrl c m = ''https://'' @ m_BmcIP m @ rfSelPath c"

text \<open>The request and what follows it, once the pointer has been read.\<close>

definition request_and_handle ::
  "time_parser \<Rightarrow> 'o writer \<Rightarrow> fs_env \<Rightarrow> http_client \<Rightarrow> selCollector \<Rightarrow> Machine \<Rightarrow> string \<Rightarrow> LastPointer
     \<Rightarrow> 'o lc_state \<Rightarrow> 'o lc_state" where
  "request_and_handle tm w env cl c m p lastPtr st =
     (case requestToBmc cl (username c) (password c) (bmcUrl c m) of
        (_, _, Some e) \<Rightarrow>
          let st1 = st\<lparr>counterRequestFailed := ctr_inc (counterRequestFailed st) (m_Serial m)\<rparr>;
              st2 = (if LastError lastPtr \<noteq> e then slog_error (TcpFailed e (m_Serial m)) st1 else st1)
          in save_pointer env (lastPtr\<lparr>LastHttpStatusCode := 0, LastError := e\<rparr>) p (m_Serial m) st2
      | (buf, code, None) \<Rightarrow>
          if code \<noteq> 200 then
            let st1 = st\<lparr>counterRequestFailed := ctr_inc (counterRequestFailed st) (m_Serial m)\<rparr>;
                st2 = (if code \<noteq> LastHttpStatusCode lastPtr
                       then slog_error (HttpFailed code (m_Serial m)) st1 else st1)
            in save_pointer env (lastPtr\<lparr>LastHttpStatusCode := code, LastError := []\<rparr>) p (m_Serial m) st2
          else
            handle_response tm w env m p lastPtr buf
              (st\<lparr>counterRequestSuccess := ctr_inc (counterRequestSuccess st) (m_Serial m)\<rparr>))"

definition collectSystemEventLog ::
  "time_parser \<Rightarrow> 'o writer \<Rightarrow> fs_env \<Rightarrow> http_client \<Rightarrow> selCollector \<Rightarrow> Machine \<Rightarrow> 'o lc_state \<Rightarrow> 'o lc_state" where
  "collectSystemEventLog tm w env cl c m st =
     (let p = path_join (ptrDir c) (m_Serial m) in
      case checkAndCreatePointerFile env (ptrs st) p of
        (Inl e, fs) \<Rightarrow> slog_error (CantCheck (m_Serial m)) (st\<lparr>ptrs := fs\<rparr>)
      | (Inr _, fs) \<Rightarrow>
          (case readLastPointer env fs p of
             Inl e \<Rightarrow> slog_error (CantRead (m_Serial m)) (st\<lparr>ptrs := fs\<rparr>)
           | Inr lastPtr \<Rightarrow> request_and_handle tm w env cl c m p lastPtr (st\<lparr>ptrs := fs\<rparr>)))"

section \<open>The scraping loop\<close>

definition readMachineList :: "fs_env \<Rightarrow> files \<Rightarrow> string \<Rightarrow> (string, Machine list) result" where
  "readMachineList env fs p = (case fs_read env fs p of Inl e \<Rightarrow> Inl e | Inr s \<Rightarrow> unmarshal_machines s)"

definition LoadBMCUserConfig :: "fs_env \<Rightarrow> files \<Rightarrow> string \<Rightarrow> (string, UserConfig) result" where
  "LoadBMCUserConfig env fs p = (case fs_read env fs p of Inl e \<Rightarrow> Inl e | Inr s \<Rightarrow> decode_user s)"

text \<open>The collector that \<open>main\<close> sets up from the flags and the user file.\<close>

definition main_collector :: "string \<Rightarrow> string \<Rightarrow> string \<Rightarrow> UserConfig \<Rightarrow> selCollector" where
  "main_collector machineList pointerDir userId user =
     \<lparr>machinesListDir = machineList,
      rfSelPath = ''/redfish/v1/Managers/iDRAC.Embedded.1/LogServices/Sel/Entries'',
      ptrDir = pointerDir, username = userId, password = Raw (Password (Support user))\<rparr>"

text \<open>
  One directory entry: the name and whether it is a directory. \<open>entries\<close> is what \<open>os.ReadDir\<close> lists.
\<close>

definition drop_pointer :: "fs_env \<Rightarrow> string \<Rightarrow> string \<Rightarrow> 'o lc_state \<Rightarrow> 'o lc_state" where
  "drop_pointer env dir n st =
     (let p = path_join dir n;
          st1 = (case remove_fault env p of
                   Some e \<Rightarrow> slog_error (RemoveFailed e p) st
                 | None \<Rightarrow> st\<lparr>ptrs := (ptrs st)(p := None)\<rparr>)
      in deleteMetrics n st1)"

fun delete_loop ::
  "fs_env \<Rightarrow> string \<Rightarrow> string set \<Rightarrow> (string \<times> bool) list \<Rightarrow> 'o lc_state \<Rightarrow> 'o lc_state" where
  "delete_loop env dir keep [] st = st"
| "delete_loop env dir keep ((n, isdir) # es) st =
     (if isdir then delete_loop env dir keep es st
      else if n \<notin> keep then delete_loop env dir keep es (drop_pointer env dir n st)
      else delete_loop env dir keep es st)"

definition deletePtrFileDisappearedSerial ::
  "fs_env \<Rightarrow> (string \<times> bool) list \<Rightarrow> string \<Rightarrow> Machine list \<Rightarrow> 'o lc_state
     \<Rightarrow> (string, unit) result \<times> 'o lc_state" where
  "deletePtrFileDisappearedSerial env entries dir ms st =
     (let machineExist = set (map m_Serial ms) in
      case readdir_fault env dir of
        Some e \<Rightarrow> (Inl e, st)
      | None \<Rightarrow> (Inr (), delete_loop env dir machineExist entries st))"

text \<open>
  The body of the loop for one tick. The workers of the machines run concurrently and are waited for
  before the files are cleaned up; \<open>ms'\<close> is the order in which they take effect, a permutation of the
  list, and \<open>listdir\<close> reads the directory afterwards. The result is \<^term>\<open>None\<close> when the loop returns.
\<close>

definition scrape_tick ::
  "time_parser \<Rightarrow> 'o writer \<Rightarrow> fs_env \<Rightarrow> (Machine \<Rightarrow> http_client) \<Rightarrow> selCollector
     \<Rightarrow> (string, Machine list) result \<Rightarrow> (Machine list \<Rightarrow> Machine list) \<Rightarrow> (files \<Rightarrow> (string \<times> bool) list)
     \<Rightarrow> 'o lc_state \<Rightarrow> 'o lc_state option" where
  "scrape_tick tm w env cl c machines sched listdir st =
     (case machines of
        Inl e \<Rightarrow> None
      | Inr ms \<Rightarrow>
          let st1 = fold (\<lambda>m. collectSystemEventLog tm w env (cl m) c m) (sched ms) st
          in (case deletePtrFileDisappearedSerial env (listdir (ptrs st1)) (ptrDir c) ms st1 of
                (Inl e, st2) \<Rightarrow> Some (slog_error (DeleteFailed e) st2)
              | (Inr _, st2) \<Rightarrow> Some st2))"

section \<open>Pointer files: facts\<close>

lemma path_base_join [simp]: "CHR ''/'' \<notin> set n \<Longrightarrow> path_base (path_join d n) = n"
  by (simp add: path_base_def path_join_def takeWhile_append)

lemma path_dir_join [simp]: "CHR ''/'' \<notin> set n \<Longrightarrow> path_dir (path_join d n) = d"
  by (simp add: path_dir_def path_join_def dropWhile_append)

lemma path_join_inj [simp]: "path_join d a = path_join d b \<longleftrightarrow> a = b"
  by (simp add: path_join_def)

lemma tmp_path_join: "CHR ''/'' \<notin> set n \<Longrightarrow> tmp_path (path_join d n) = path_join d (CHR ''_'' # n)"
  by (simp add: tmp_path_def) (simp add: path_join_def)

lemma tmp_path_ne: "CHR ''/'' \<notin> set n \<Longrightarrow> tmp_path (path_join d n) \<noteq> path_join d n"
  by (simp add: tmp_path_join)

lemmas fs_defs = fs_create_def fs_write_def fs_rename_def fs_read_def

lemma updateLastPointer_ok:
  assumes "updateLastPointer env fs lp p = (Inr (), fs')" and "tmp_path p \<noteq> p"
  shows "\<exists>j. marshal_ptr lp = Inr j \<and> fs' = (fs(tmp_path p := None))(p \<mapsto> j)"
  using assms by (auto simp: updateLastPointer_def fs_defs Let_def split: sum.splits option.splits)

lemma updateLastPointer_err:
  assumes "updateLastPointer env fs lp p = (Inl e, fs')" and "tmp_path p \<noteq> p"
  shows "fs' p = fs p \<and> (\<forall>q. q \<noteq> tmp_path p \<longrightarrow> fs' q = fs q)"
  using assms by (auto simp: updateLastPointer_def fs_defs Let_def split: sum.splits option.splits)

lemma updateLastPointer_frame:
  assumes "q \<noteq> p" and "q \<noteq> tmp_path p"
  shows "snd (updateLastPointer env fs lp p) q = fs q"
  using assms by (auto simp: updateLastPointer_def fs_defs Let_def split: sum.splits option.splits)

text \<open>No call fails.\<close>

definition quiet_fs :: "fs_env \<Rightarrow> bool" where
  "quiet_fs env \<longleftrightarrow> stat_fault env = (\<lambda>_. False) \<and> create_fault env = (\<lambda>_. None) \<and> write_fault env = (\<lambda>_. None)
     \<and> sync_fault env = (\<lambda>_. None) \<and> rename_fault env = (\<lambda>_. None) \<and> open_fault env = (\<lambda>_. None)
     \<and> read_fault env = (\<lambda>_. None) \<and> remove_fault env = (\<lambda>_. None) \<and> readdir_fault env = (\<lambda>_. None)"

lemma updateLastPointer_quiet:
  assumes "quiet_fs env" and "marshal_ptr lp = Inr j" and "tmp_path p \<noteq> p"
  shows "updateLastPointer env fs lp p = (Inr (), (fs(tmp_path p := None))(p \<mapsto> j))"
  using assms by (auto simp: quiet_fs_def updateLastPointer_def fs_defs Let_def)

lemma checkAndCreate_quiet:
  assumes "quiet_fs env" and "marshal_ptr zero_pointer = Inr j"
  shows "checkAndCreatePointerFile env fs p = (Inr (), if fs p = None then fs(p \<mapsto> j) else fs)"
  using assms by (auto simp: quiet_fs_def checkAndCreatePointerFile_def fs_defs)

text \<open>The pointer stored at a path, as the next scrape will see it: a missing file counts as zero.\<close>

definition stored_pointer :: "files \<Rightarrow> string \<Rightarrow> LastPointer option" where
  "stored_pointer fs p =
     (case fs p of
        None \<Rightarrow> Some zero_pointer
      | Some s \<Rightarrow> (case unmarshal_ptr s of Inl _ \<Rightarrow> None | Inr lp \<Rightarrow> Some lp))"

text \<open>Unix times are 64-bit numbers.\<close>

definition time_ok :: "time_parser \<Rightarrow> bool" where
  "time_ok tm \<longleftrightarrow> (\<forall>s t. tm s = Inr t \<longrightarrow> int64_range t)"

text \<open>The errors of the HTTP client are ASCII texts, its status codes 64-bit numbers.\<close>

definition ascii_client :: "http_client \<Rightarrow> bool" where
  "ascii_client cl \<longleftrightarrow> (\<forall>user pw url. case requestToBmc cl user pw url of
     (buf, code, err) \<Rightarrow> int64_range code \<and> (case err of None \<Rightarrow> True | Some e \<Rightarrow> ascii e))"

lemma save_pointer_quiet:
  assumes "quiet_fs env" and "tmp_path p \<noteq> p" and "ptr_ok lp"
  shows "stored_pointer (ptrs (save_pointer env lp p serial st)) p = Some lp
     \<and> out (save_pointer env lp p serial st) = out st"
proof -
  obtain j where "marshal_ptr lp = Inr j" "unmarshal_ptr j = Inr lp"
    using assms(3) ptr_roundtrip by (auto simp: marshal_ptr_def json_Marshal_def)
  then show ?thesis
    using assms by (simp add: save_pointer_def updateLastPointer_quiet stored_pointer_def)
qed

section \<open>The log writer interface\<close>

text \<open>What the collector expects of a \<open>bmcLogWriter\<close>: a write succeeds and adds one line. \<open>lines\<close> are the
  lines that an observer of the machines \<open>seen\<close> finds in the output; writes for other machines add nothing to them.\<close>

locale bmc_log_writer =
  fixes wr :: "'o writer" and lines :: "'o \<Rightarrow> string list" and seen :: "string \<Rightarrow> bool"
  assumes wr_ok: "fst (wr s serial x) = Inr ()"
    and wr_lines: "seen serial \<Longrightarrow> lines (snd (wr s serial x)) = lines x @ [s]"
    and wr_hidden: "\<not> seen serial \<Longrightarrow> lines (snd (wr s serial x)) = lines x"

text \<open>The text written for an event.\<close>

definition event_text :: "Machine \<Rightarrow> SystemEventLog \<Rightarrow> string" where
  "event_text m v = (case marshal_sel (tag_event m v) of Inl _ \<Rightarrow> [] | Inr j \<Rightarrow> j)"

definition event_id :: "SystemEventLog \<Rightarrow> int" where
  "event_id v = (case atoi (Id v) of None \<Rightarrow> 0 | Some i \<Rightarrow> i)"

definition id_ok :: "SystemEventLog \<Rightarrow> bool" where
  "id_ok v \<longleftrightarrow> atoi (Id v) \<noteq> None"

lemma emit_ptrs [simp]: "ptrs (emit w serial v st) = ptrs st"
  by (simp add: emit_def slog_error_def split: sum.splits prod.splits)

lemma sel_loop_ptrs: "ptrs (snd (sel_loop w m first vs lp st)) = ptrs st"
  by (induction vs arbitrary: lp st) (auto simp: Let_def slog_error_def split: option.splits)

lemma sel_loop_ok: "ptr_ok lp \<Longrightarrow> ptr_ok (fst (sel_loop w m first vs lp st))"
  by (induction vs arbitrary: lp st) (auto simp: Let_def ptr_ok_def dest: atoi_range split: option.splits)

lemma sel_loop_first: "FirstCreateTime (fst (sel_loop w m first vs lp st)) = FirstCreateTime lp"
  by (induction vs arbitrary: lp st) (auto simp: Let_def split: option.splits)

context bmc_log_writer
begin

lemma emit_lines:
  assumes "seen serial"
  shows "lines (out (emit wr serial (tag_event m v) st)) = lines (out st) @ [event_text m v]"
proof (cases "marshal_sel (tag_event m v)")
  case (Inl e)
  then show ?thesis
    using wr_ok [of "[]" serial "out st"] wr_lines [OF assms, of "[]" "out st"]
    by (auto simp: emit_def event_text_def slog_error_def split: prod.splits sum.splits)
next
  case (Inr j)
  then show ?thesis
    using wr_ok [of j serial "out st"] wr_lines [OF assms, of j "out st"]
    by (auto simp: emit_def event_text_def slog_error_def split: prod.splits sum.splits)
qed

lemma emit_hidden: "\<not> seen serial \<Longrightarrow> lines (out (emit wr serial v st)) = lines (out st)"
  using wr_hidden [of serial] by (auto simp: emit_def slog_error_def Let_def case_prod_unfold split: sum.split)

lemma sel_loop_hidden:
  "\<not> seen (m_Serial m) \<Longrightarrow> lines (out (snd (sel_loop wr m first vs lp st))) = lines (out st)"
  by (induction vs arbitrary: lp st) (auto simp: Let_def emit_hidden slog_error_def split: option.splits)

text \<open>Without a reset the loop writes the events above the last id.\<close>

lemma sel_loop_no_reset:
  assumes "seen (m_Serial m)" and "FirstCreateTime lp = first" and "list_all id_ok vs"
    and "sorted_wrt (\<lambda>a b. event_id a < event_id b) vs"
  shows "lines (out (snd (sel_loop wr m first vs lp st)))
           = lines (out st) @ map (event_text m) (filter (\<lambda>v. LastReadId lp < event_id v) vs)
     \<and> LastReadId (fst (sel_loop wr m first vs lp st)) = fold (\<lambda>v i. max i (event_id v)) vs (LastReadId lp)"
  using assms
proof (induction vs arbitrary: lp st)
  case Nil
  then show ?case by simp
next
  case (Cons v vs)
  obtain i where i: "atoi (Id v) = Some i" using Cons.prems(3) by (auto simp: id_ok_def)
  then have ev: "event_id v = i" by (simp add: event_id_def)
  have later: "filter (\<lambda>u. i < event_id u) vs = vs" using Cons.prems(4) ev by (simp add: filter_id_conv)
  show ?case
  proof (cases "LastReadId lp < i")
    case True
    have same: "filter (\<lambda>u. LastReadId lp < event_id u) vs = vs"
      using later True by (auto simp: filter_id_conv)
    show ?thesis
      using Cons.IH [of "lp\<lparr>LastReadId := i\<rparr>" "emit wr (m_Serial m) (tag_event m v) st"] Cons.prems True
      by (simp add: i ev later same emit_lines Let_def max_def)
  next
    case False
    then show ?thesis
      using Cons.IH [of lp st] Cons.prems by (simp add: i ev Let_def max_def)
  qed
qed

text \<open>After a reset it writes every event.\<close>

lemma sel_loop_reset:
  assumes "seen (m_Serial m)" and "FirstCreateTime lp \<noteq> first" and "list_all id_ok vs"
  shows "lines (out (snd (sel_loop wr m first vs lp st))) = lines (out st) @ map (event_text m) vs
     \<and> LastReadId (fst (sel_loop wr m first vs lp st)) = (if vs = [] then LastReadId lp else event_id (last vs))"
  using assms
proof (induction vs arbitrary: lp st)
  case Nil
  then show ?case by simp
next
  case (Cons v vs)
  obtain i where i: "atoi (Id v) = Some i" using Cons.prems(3) by (auto simp: id_ok_def)
  then have ev: "event_id v = i" by (simp add: event_id_def)
  show ?case
    using Cons.IH [of "lp\<lparr>LastReadId := i\<rparr>" "emit wr (m_Serial m) (tag_event m v) st"] Cons.prems
    by (simp add: i ev emit_lines Let_def)
qed

end

section \<open>Histories of scrapes\<close>

text \<open>
  What a scrape gets to see: \<open>None\<close> when the request fails or its answer is unusable, else the creation
  time of the oldest event and the events, oldest first.
\<close>

type_synonym sel_log = "SystemEventLog list"

definition fetched :: "time_parser \<Rightarrow> selCollector \<Rightarrow> Machine \<Rightarrow> http_client \<Rightarrow> (int \<times> sel_log) option" where
  "fetched tm c m cl =
     (case requestToBmc cl (username c) (password c) (bmcUrl c m) of
        (_, _, Some _) \<Rightarrow> None
      | (buf, code, None) \<Rightarrow>
          if code \<noteq> 200 then None
          else (case unmarshal_redfish buf of
                  Inl _ \<Rightarrow> None
                | Inr resp \<Rightarrow>
                    if Sel resp = [] then None
                    else (case tm (Create (last (Sel resp))) of
                            Inl _ \<Rightarrow> None | Inr t \<Rightarrow> Some (t, rev (Sel resp)))))"

text \<open>
  A history of a BMC: its log only grows (with increasing positive ids) until it is reset, which changes the
  time of the first event. \<open>t\<close> and \<open>L\<close> are the state at the previous successful scrape.
\<close>

fun bmc_history :: "int \<Rightarrow> sel_log \<Rightarrow> (int \<times> sel_log) option list \<Rightarrow> bool" where
  "bmc_history t L [] \<longleftrightarrow> True"
| "bmc_history t L (None # rs) \<longleftrightarrow> bmc_history t L rs"
| "bmc_history t L (Some (t', L') # rs) \<longleftrightarrow>
     list_all id_ok L' \<and>
     (if t' = t then prefix L L' \<and> sorted_wrt (\<lambda>a b. event_id a < event_id b) L' \<and> list_all (\<lambda>v. 0 < event_id v) L'
      else True) \<and> bmc_history t' L' rs"

text \<open>The events that are new in each answer.\<close>

fun new_events :: "int \<Rightarrow> sel_log \<Rightarrow> (int \<times> sel_log) option list \<Rightarrow> sel_log" where
  "new_events t L [] = []"
| "new_events t L (None # rs) = new_events t L rs"
| "new_events t L (Some (t', L') # rs) =
     (if t' = t then drop (length L) L' else L') @ new_events t' L' rs"

text \<open>Where an answer moves the position.\<close>

definition moved :: "int \<Rightarrow> sel_log \<Rightarrow> (int \<times> sel_log) option \<Rightarrow> int \<times> sel_log" where
  "moved t L r = (case r of None \<Rightarrow> (t, L) | Some x \<Rightarrow> x)"

lemma history_step:
  "bmc_history t L (r # rs) \<longleftrightarrow> bmc_history t L [r] \<and> bmc_history (fst (moved t L r)) (snd (moved t L r)) rs"
  by (cases r) (auto simp: moved_def)

lemma new_events_step:
  "new_events t L (r # rs) = new_events t L [r] @ new_events (fst (moved t L r)) (snd (moved t L r)) rs"
  by (cases r) (auto simp: moved_def)

definition last_id :: "sel_log \<Rightarrow> int" where
  "last_id L = (if L = [] then 0 else event_id (last L))"

lemma fold_max_sorted:
  "sorted_wrt (\<lambda>a b. event_id a < event_id b) vs \<Longrightarrow>
     fold (\<lambda>v i. max i (event_id v)) vs i = (if vs = [] then i else max i (event_id (last vs)))"
proof (induction vs arbitrary: i)
  case (Cons v vs)
  show ?case
  proof (cases "vs = []")
    case False
    then have "event_id v < event_id (last vs)" using Cons.prems by simp
    then have "max (max i (event_id v)) (event_id (last vs)) = max i (event_id (last vs))" by linarith
    then show ?thesis using Cons.IH [of "max i (event_id v)"] Cons.prems False by simp
  qed simp
qed simp

lemma sorted_prefix_filter:
  assumes "prefix L L'" and "sorted_wrt (\<lambda>a b. event_id a < event_id b) L'" and "list_all (\<lambda>v. 0 < event_id v) L'"
  shows "filter (\<lambda>v. last_id L < event_id v) L' = drop (length L) L'"
proof -
  obtain M where M: "L' = L @ M" using assms(1) by (auto simp: prefix_def)
  have above: "filter (\<lambda>v. last_id L < event_id v) M = M"
  proof (cases "L = []")
    case True
    then show ?thesis using assms(3) M by (auto simp: last_id_def filter_id_conv list_all_iff)
  next
    case False
    then show ?thesis
      using assms(2) M by (auto simp: last_id_def filter_id_conv sorted_wrt_append)
  qed
  have "event_id v \<le> last_id L" if "v \<in> set L" for v
  proof -
    have "L = butlast L @ [last L]" using that by (cases L) auto
    then have "sorted_wrt (\<lambda>a b. event_id a < event_id b) (butlast L @ [last L])"
      and v: "v \<in> set (butlast L) \<or> v = last L"
      using assms(2) M that by (auto simp: sorted_wrt_append dest: arg_cong [of _ _ set])
    then show ?thesis using that by (auto simp: last_id_def sorted_wrt_append)
  qed
  then have "filter (\<lambda>v. last_id L < event_id v) L = []" by (auto simp: filter_empty_conv not_less)
  then show ?thesis using M above by simp
qed

lemma last_id_prefix:
  assumes "prefix L L'" and "sorted_wrt (\<lambda>a b. event_id a < event_id b) L'" and "list_all (\<lambda>v. 0 < event_id v) L'"
  shows "fold (\<lambda>v i. max i (event_id v)) L' (last_id L) = last_id L'"
proof -
  obtain M where M: "L' = L @ M" using assms(1) by (auto simp: prefix_def)
  have "last_id L \<le> last_id L'"
  proof (cases "L = [] \<or> M = []")
    case True
    then show ?thesis using M assms(3) by (auto simp: last_id_def list_all_iff less_imp_le)
  next
    case False
    then have "event_id (last L) < event_id (last M)"
      using assms(2) M by (simp add: sorted_wrt_append)
    then show ?thesis using False M by (simp add: last_id_def)
  qed
  then show ?thesis
    using fold_max_sorted [OF assms(2), of "last_id L"] assms(1) by (auto simp: last_id_def)
qed

text \<open>With no faults and the time_parser law, a scrape starts from the stored pointer.\<close>

lemma collect_reads:
  assumes "quiet_fs env" and "stored_pointer (ptrs st) p = Some lp"
    and "p = path_join (ptrDir c) (m_Serial m)"
  shows "\<exists>fs. collectSystemEventLog tm w env cl c m st = request_and_handle tm w env cl c m p lp (st\<lparr>ptrs := fs\<rparr>)
    \<and> stored_pointer fs p = Some lp"
proof -
  obtain j where j: "marshal_ptr zero_pointer = Inr j" "unmarshal_ptr j = Inr zero_pointer"
    using ptr_roundtrip [OF ptr_ok_zero] by (auto simp: marshal_ptr_def json_Marshal_def)
  define fs where "fs = (if ptrs st p = None then (ptrs st)(p \<mapsto> j) else ptrs st)"
  have fs: "checkAndCreatePointerFile env (ptrs st) p = (Inr (), fs)"
    using checkAndCreate_quiet [OF assms(1) j(1), of "ptrs st" p] by (simp add: fs_def)
  have sp: "stored_pointer fs p = Some lp" and ne: "fs p \<noteq> None"
    using assms(2) j by (auto simp: fs_def stored_pointer_def split: option.splits)
  then have "readLastPointer env fs p = Inr lp"
    using assms(1) by (auto simp: readLastPointer_def fs_read_def quiet_fs_def stored_pointer_def split: option.splits sum.splits)
  then show ?thesis
    using fs sp assms(3) by (auto simp: collectSystemEventLog_def Let_def)
qed

text \<open>An answer that cannot be used leaves the position in the log and the output.\<close>

lemma request_unusable:
  assumes "quiet_fs env" and "tmp_path p \<noteq> p"
    and "stored_pointer (ptrs st) p = Some lp" and "fetched tm c m cl = None"
    and "ascii_client cl" and "ptr_ok lp"
  shows "\<exists>lq. stored_pointer (ptrs (request_and_handle tm w env cl c m p lp st)) p = Some lq
     \<and> ptr_ok lq \<and> LastReadId lq = LastReadId lp \<and> FirstCreateTime lq = FirstCreateTime lp
     \<and> out (request_and_handle tm w env cl c m p lp st) = out st"
proof (cases "requestToBmc cl (username c) (password c) (bmcUrl c m)")
  case (fields buf code err)
  have o: "out (slog_error x st') = out st'" for x and st' :: "'a lc_state" by (simp add: slog_error_def)
  have client: "int64_range code" "case err of None \<Rightarrow> True | Some e \<Rightarrow> ascii e"
    using assms(5) fields unfolding ascii_client_def by (metis (no_types, lifting) case_prod_conv)+
  consider (tcp) e where "err = Some e" | (http) "err = None" "code \<noteq> 200" | (ok) "err = None" "code = 200"
    by (cases err) auto
  then show ?thesis
  proof cases
    case tcp
    then have "ascii e" using client fields by simp
    with tcp show ?thesis
      using assms(6) by (simp add: request_and_handle_def fields Let_def o save_pointer_quiet [OF assms(1,2)] ptr_ok_def int64_range_def)
  next
    case http
    then show ?thesis
      using assms(6) client by (simp add: request_and_handle_def fields Let_def o save_pointer_quiet [OF assms(1,2)] ptr_ok_def ascii_def)
  next
    case ok
    then show ?thesis
      using assms(3,4,6)
      by (auto simp: request_and_handle_def fields fetched_def handle_response_def slog_error_def split: sum.splits if_splits)
  qed
qed

lemma request_usable:
  assumes "fetched tm c m cl = Some (t, L)"
  shows "\<exists>st1. request_and_handle tm w env cl c m p lp st =
      save_pointer env ((fst (sel_loop w m t L lp st1))\<lparr>FirstCreateTime := t\<rparr>) p (m_Serial m)
        (snd (sel_loop w m t L lp st1)) \<and> out st1 = out st \<and> ptrs st1 = ptrs st"
  using assms
  by (auto simp: fetched_def request_and_handle_def handle_response_def Let_def case_prod_unfold
      split: prod.splits option.splits if_splits sum.splits)

context bmc_log_writer
begin

lemma sel_loop_history:
  assumes "LastReadId lp = last_id L" and "FirstCreateTime lp = t" and "bmc_history t L (Some (t', L') # rs)"
    and "L' \<noteq> []" and "seen (m_Serial m)"
  shows "lines (out (snd (sel_loop wr m t' L' lp st)))
          = lines (out st) @ map (event_text m) (if t' = t then drop (length L) L' else L')
     \<and> LastReadId (fst (sel_loop wr m t' L' lp st)) = last_id L'"
proof (cases "t' = t")
  case True
  then have "prefix L L'" "sorted_wrt (\<lambda>a b. event_id a < event_id b) L'" "list_all (\<lambda>v. 0 < event_id v) L'"
    using assms(3) by auto
  then show ?thesis
    using sel_loop_no_reset [OF assms(5), of lp t' L' st] assms True
    by (simp add: sorted_prefix_filter last_id_prefix)
next
  case False
  then show ?thesis
    using sel_loop_reset [OF assms(5), of lp t' L' st] assms by (auto simp: last_id_def)
qed

text \<open>One scrape: the stored position follows the answer, and what is new in it is written.\<close>

lemma collect_move:
  assumes "quiet_fs env" and "time_ok tm"
    and "p = path_join (ptrDir c) (m_Serial m)" and "CHR ''/'' \<notin> set (m_Serial m)"
    and "stored_pointer (ptrs st) p = Some lp" and "LastReadId lp = last_id L" and "FirstCreateTime lp = t"
    and "bmc_history t L [fetched tm c m cl]" and "ascii_client cl" and "ptr_ok lp"
    and "seen (m_Serial m)"
  shows "\<exists>lq. stored_pointer (ptrs (collectSystemEventLog tm wr env cl c m st)) p = Some lq \<and> ptr_ok lq
     \<and> LastReadId lq = last_id (snd (moved t L (fetched tm c m cl))) \<and> FirstCreateTime lq = fst (moved t L (fetched tm c m cl))
     \<and> lines (out (collectSystemEventLog tm wr env cl c m st))
         = lines (out st) @ map (event_text m) (new_events t L [fetched tm c m cl])"
proof -
  have ne: "tmp_path p \<noteq> p" using assms(3,4) by (simp add: tmp_path_ne)
  obtain fs where fs: "collectSystemEventLog tm wr env cl c m st = request_and_handle tm wr env cl c m p lp (st\<lparr>ptrs := fs\<rparr>)"
      "stored_pointer fs p = Some lp"
    using collect_reads [OF assms(1,5,3)] by blast
  show ?thesis
  proof (cases "fetched tm c m cl")
    case None
    then obtain lq where "stored_pointer (ptrs (collectSystemEventLog tm wr env cl c m st)) p = Some lq"
        "LastReadId lq = LastReadId lp" "FirstCreateTime lq = FirstCreateTime lp" "ptr_ok lq"
        "out (collectSystemEventLog tm wr env cl c m st) = out st"
      using request_unusable [OF assms(1) ne, of "st\<lparr>ptrs := fs\<rparr>" lp tm c m cl wr] fs assms(9,10) by auto
    then show ?thesis using None assms(6,7) by (auto simp: moved_def)
  next
    case (Some tL)
    obtain u M where tL: "fetched tm c m cl = Some (u, M)" using Some by (cases tL) auto
    then have "M \<noteq> []" by (auto simp: fetched_def split: prod.splits option.splits if_splits sum.splits)
    obtain st1 where st1: "request_and_handle tm wr env cl c m p lp (st\<lparr>ptrs := fs\<rparr>) =
        save_pointer env ((fst (sel_loop wr m u M lp st1))\<lparr>FirstCreateTime := u\<rparr>) p (m_Serial m)
          (snd (sel_loop wr m u M lp st1))" "out st1 = out st"
      using request_usable [OF tL, of wr env p lp "st\<lparr>ptrs := fs\<rparr>"] by auto
    have h: "bmc_history t L [Some (u, M)]" using assms(8) tL by simp
    note loop = sel_loop_history [OF assms(6,7) h \<open>M \<noteq> []\<close> assms(11), of st1]
    define lq where "lq = (fst (sel_loop wr m u M lp st1))\<lparr>FirstCreateTime := u\<rparr>"
    have "int64_range u"
      using tL assms(2) by (auto simp: fetched_def time_ok_def split: prod.splits option.splits if_splits sum.splits)
    then have "ptr_ok lq" using sel_loop_ok [OF assms(10), of wr m u M st1] by (simp add: lq_def ptr_ok_def)
    moreover from this have "stored_pointer (ptrs (collectSystemEventLog tm wr env cl c m st)) p = Some lq
        \<and> out (collectSystemEventLog tm wr env cl c m st) = out (snd (sel_loop wr m u M lp st1))"
      using save_pointer_quiet [OF assms(1) ne, of lq] by (simp add: fs(1) st1(1) lq_def)
    moreover have "LastReadId lq = last_id M" "FirstCreateTime lq = u" using loop by (simp_all add: lq_def)
    ultimately show ?thesis using loop st1(2) tL by (auto simp: moved_def)
  qed
qed

lemma collect_step:
  assumes "quiet_fs env" and "time_ok tm"
    and "p = path_join (ptrDir c) (m_Serial m)" and "CHR ''/'' \<notin> set (m_Serial m)"
    and "stored_pointer (ptrs st) p = Some lp" and "LastReadId lp = last_id L" and "FirstCreateTime lp = t"
    and "bmc_history t L (fetched tm c m cl # rs)" and "ascii_client cl" and "ptr_ok lp"
    and "seen (m_Serial m)"
  shows "\<exists>lq M u. stored_pointer (ptrs (collectSystemEventLog tm wr env cl c m st)) p = Some lq
     \<and> ptr_ok lq \<and> LastReadId lq = last_id M \<and> FirstCreateTime lq = u \<and> bmc_history u M rs
     \<and> lines (out (collectSystemEventLog tm wr env cl c m st)) @ map (event_text m) (new_events u M rs)
         = lines (out st) @ map (event_text m) (new_events t L (fetched tm c m cl # rs))"
proof -
  note h = assms(8) [unfolded history_step [of t L "fetched tm c m cl" rs]]
  from collect_move [OF assms(1-7) conjunct1 [OF h] assms(9-11)] conjunct2 [OF h] show ?thesis
    unfolding new_events_step [of t L "fetched tm c m cl" rs] by fastforce
qed

text \<open>A scrape of another machine does not show.\<close>

lemma collect_hidden:
  assumes "\<not> seen (m_Serial m)"
  shows "lines (out (collectSystemEventLog tm wr env cl c m st)) = lines (out st)"
proof -
  have save: "out (save_pointer env lp p s st') = out st'" for lp p s and st' :: "'o lc_state"
    by (simp add: save_pointer_def slog_error_def split: prod.split sum.split)
  have "lines (out (handle_response tm wr env m p lp buf st')) = lines (out st')" for p lp buf st'
    by (simp add: handle_response_def Let_def save slog_error_def case_prod_unfold sel_loop_hidden [OF assms]
        split: sum.split)
  then show ?thesis
    by (simp add: collectSystemEventLog_def request_and_handle_def Let_def save slog_error_def
        split: prod.split sum.split option.split)
qed

text \<open>Over a history of answers the collector writes exactly the new events, in order.\<close>

lemma scrapes_deliver:
  assumes "list_all (\<lambda>(env, cl). quiet_fs env \<and> ascii_client cl) steps" and "time_ok tm"
    and "p = path_join (ptrDir c) (m_Serial m)" and "CHR ''/'' \<notin> set (m_Serial m)"
    and "stored_pointer (ptrs st) p = Some lp" and "LastReadId lp = last_id L" and "FirstCreateTime lp = t"
    and "bmc_history t L (map (\<lambda>(env, cl). fetched tm c m cl) steps)" and "ptr_ok lp"
    and "seen (m_Serial m)"
  shows "lines (out (fold (\<lambda>(env, cl). collectSystemEventLog tm wr env cl c m) steps st))
    = lines (out st) @ map (event_text m) (new_events t L (map (\<lambda>(env, cl). fetched tm c m cl) steps))"
  using assms
proof (induction steps arbitrary: st lp L t)
  case Nil
  then show ?case by simp
next
  case (Cons s steps)
  obtain env cl where s: "s = (env, cl)" by fastforce
  have q: "quiet_fs env" "ascii_client cl" using Cons.prems(1) s by simp_all
  have h: "bmc_history t L (fetched tm c m cl # map (\<lambda>(env, cl). fetched tm c m cl) steps)"
    using Cons.prems(8) s by simp
  obtain lq M u where st: "stored_pointer (ptrs (collectSystemEventLog tm wr env cl c m st)) p = Some lq"
      "LastReadId lq = last_id M" "FirstCreateTime lq = u"
      "bmc_history u M (map (\<lambda>(env, cl). fetched tm c m cl) steps)" "ptr_ok lq"
      "lines (out (collectSystemEventLog tm wr env cl c m st))
         @ map (event_text m) (new_events u M (map (\<lambda>(env, cl). fetched tm c m cl) steps))
       = lines (out st) @ map (event_text m)
           (new_events t L (fetched tm c m cl # map (\<lambda>(env, cl). fetched tm c m cl) steps))"
    using collect_step [OF q(1) Cons.prems(2-7) h q(2) Cons.prems(9,10)] by blast
  have "list_all (\<lambda>(env, cl). quiet_fs env \<and> ascii_client cl) steps" using Cons.prems(1) by simp
  from Cons.IH [OF this Cons.prems(2-4) st(1-5) Cons.prems(10)] show ?case using st(6) by (simp add: s)
qed

end

interpretation logProd: bmc_log_writer logProd_write "\<lambda>ls. ls" "\<lambda>_. True"
  by unfold_locales (simp_all add: logProd_write_def)

section \<open>Frames\<close>

text \<open>A scrape of a machine touches only its own pointer file, the temporary file and its own counters.\<close>

lemma save_pointer_frame:
  "q \<noteq> p \<Longrightarrow> q \<noteq> tmp_path p \<Longrightarrow> ptrs (save_pointer env lp p serial st) q = ptrs st q"
  using updateLastPointer_frame [of q p env "ptrs st" lp]
  by (auto simp: save_pointer_def slog_error_def split: prod.splits sum.splits)

lemma save_pointer_counters [simp]:
  "counterRequestFailed (save_pointer env lp p serial st) = counterRequestFailed st"
  "counterRequestSuccess (save_pointer env lp p serial st) = counterRequestSuccess st"
  by (auto simp: save_pointer_def slog_error_def split: prod.splits sum.splits)

lemma emit_counters [simp]:
  "counterRequestFailed (emit w serial v st) = counterRequestFailed st"
  "counterRequestSuccess (emit w serial v st) = counterRequestSuccess st"
  by (auto simp: emit_def slog_error_def split: prod.splits sum.splits)

lemma sel_loop_counters [simp]:
  "counterRequestFailed (snd (sel_loop w m first vs lp st)) = counterRequestFailed st"
  "counterRequestSuccess (snd (sel_loop w m first vs lp st)) = counterRequestSuccess st"
  by (induction vs arbitrary: lp st) (auto simp: Let_def slog_error_def split: option.splits)

lemma handle_response_frame:
  "q \<noteq> p \<Longrightarrow> q \<noteq> tmp_path p \<Longrightarrow> ptrs (handle_response tm w env m p lp buf st) q = ptrs st q"
  by (auto simp: handle_response_def slog_error_def Let_def save_pointer_frame sel_loop_ptrs case_prod_unfold
      split: sum.splits)

lemma handle_response_counters [simp]:
  "counterRequestFailed (handle_response tm w env m p lp buf st) = counterRequestFailed st"
  "counterRequestSuccess (handle_response tm w env m p lp buf st) = counterRequestSuccess st"
  by (auto simp: handle_response_def slog_error_def Let_def case_prod_unfold split: sum.splits)

lemma request_frame:
  "q \<noteq> p \<Longrightarrow> q \<noteq> tmp_path p \<Longrightarrow> ptrs (request_and_handle tm w env cl c m p lp st) q = ptrs st q"
  by (auto simp: request_and_handle_def Let_def save_pointer_frame handle_response_frame slog_error_def
      split: prod.splits option.splits)

lemma request_counters:
  assumes "n \<noteq> m_Serial m"
  shows "counterRequestFailed (request_and_handle tm w env cl c m p lp st) n = counterRequestFailed st n
     \<and> counterRequestSuccess (request_and_handle tm w env cl c m p lp st) n = counterRequestSuccess st n"
  using assms by (auto simp: request_and_handle_def Let_def slog_error_def ctr_inc_def split: prod.splits option.splits)

lemma checkAndCreate_frame:
  "q \<noteq> p \<Longrightarrow> snd (checkAndCreatePointerFile env fs p) q = fs q"
  by (auto simp: checkAndCreatePointerFile_def fs_defs split: sum.splits option.splits)

lemma collect_frame:
  assumes "CHR ''/'' \<notin> set (m_Serial m)" and "n \<noteq> m_Serial m" and "n \<noteq> CHR ''_'' # m_Serial m"
  shows "ptrs (collectSystemEventLog tm w env cl c m st) (path_join (ptrDir c) n) = ptrs st (path_join (ptrDir c) n)"
proof -
  let ?p = "path_join (ptrDir c) (m_Serial m)" and ?q = "path_join (ptrDir c) n"
  have q: "?q \<noteq> ?p" "?q \<noteq> tmp_path ?p" using assms by (simp_all add: tmp_path_join)
  then show ?thesis
    using checkAndCreate_frame [of ?q ?p env "ptrs st"]
    by (auto simp: collectSystemEventLog_def Let_def slog_error_def request_frame split: prod.splits sum.splits)
qed

lemma collect_counters:
  assumes "n \<noteq> m_Serial m"
  shows "counterRequestFailed (collectSystemEventLog tm w env cl c m st) n = counterRequestFailed st n
     \<and> counterRequestSuccess (collectSystemEventLog tm w env cl c m st) n = counterRequestSuccess st n"
  by (auto simp: collectSystemEventLog_def Let_def slog_error_def request_counters [OF assms] split: prod.splits sum.splits)

lemma collect_all_frame:
  assumes "list_all (\<lambda>m. CHR ''/'' \<notin> set (m_Serial m) \<and> n \<noteq> m_Serial m \<and> n \<noteq> CHR ''_'' # m_Serial m) ms"
  shows "ptrs (fold (\<lambda>m. collectSystemEventLog tm w env (cl m) c m) ms st) (path_join (ptrDir c) n)
      = ptrs st (path_join (ptrDir c) n)
    \<and> counterRequestFailed (fold (\<lambda>m. collectSystemEventLog tm w env (cl m) c m) ms st) n = counterRequestFailed st n
    \<and> counterRequestSuccess (fold (\<lambda>m. collectSystemEventLog tm w env (cl m) c m) ms st) n = counterRequestSuccess st n"
  using assms by (induction ms arbitrary: st) (simp_all add: collect_frame collect_counters)

lemma drop_pointer_effect:
  "ptrs (drop_pointer env dir k st) (path_join dir n) =
     (if n = k \<and> remove_fault env (path_join dir n) = None then None else ptrs st (path_join dir n))"
  "counterRequestFailed (drop_pointer env dir k st) n = (if n = k then None else counterRequestFailed st n)"
  "counterRequestSuccess (drop_pointer env dir k st) n = (if n = k then None else counterRequestSuccess st n)"
  by (auto simp: drop_pointer_def Let_def deleteMetrics_def slog_error_def split: option.splits)

lemma delete_loop_ptrs:
  "ptrs (delete_loop env dir keep es st) (path_join dir n) =
     (if (n, False) \<in> set es \<and> n \<notin> keep \<and> remove_fault env (path_join dir n) = None then None
      else ptrs st (path_join dir n))"
proof (induction es arbitrary: st)
  case (Cons e es)
  then show ?case by (cases e) (auto simp: drop_pointer_effect)
qed simp

lemma delete_loop_failed:
  "counterRequestFailed (delete_loop env dir keep es st) n =
     (if (n, False) \<in> set es \<and> n \<notin> keep then None else counterRequestFailed st n)"
proof (induction es arbitrary: st)
  case (Cons e es)
  then show ?case by (cases e) (auto simp: drop_pointer_effect)
qed simp

lemma delete_loop_success:
  "counterRequestSuccess (delete_loop env dir keep es st) n =
     (if (n, False) \<in> set es \<and> n \<notin> keep then None else counterRequestSuccess st n)"
proof (induction es arbitrary: st)
  case (Cons e es)
  then show ?case by (cases e) (auto simp: drop_pointer_effect)
qed simp

lemmas delete_loop_effect = delete_loop_ptrs delete_loop_failed delete_loop_success

section \<open>Properties\<close>

text \<open>
  Exactly-once delivery. Starting without a pointer file, over any sequence of scrapes in which requests may
  fail, the log of the BMC may grow and may be reset, the lines written to the standard output are exactly the
  new events of each answer, oldest first, with the machine's serial and addresses added: no event is lost and
  none is written twice.
\<close>

theorem scrapes_exactly_once:
  assumes "list_all (\<lambda>(env, cl). quiet_fs env \<and> ascii_client cl) steps" and "time_ok tm"
    and "CHR ''/'' \<notin> set (m_Serial m)"
    and "ptrs st (path_join (ptrDir c) (m_Serial m)) = None"
    and "bmc_history 0 [] (map (\<lambda>(env, cl). fetched tm c m cl) steps)"
  shows "out (fold (\<lambda>(env, cl). collectSystemEventLog tm logProd_write env cl c m) steps st)
    = out st @ map (event_text m) (new_events 0 [] (map (\<lambda>(env, cl). fetched tm c m cl) steps))"
  using logProd.scrapes_deliver [OF assms(1,2) refl assms(3) _ _ _ assms(5), of st zero_pointer] assms(4)
  by (simp add: stored_pointer_def zero_pointer_def last_id_def ptr_ok_def ascii_def int64_range_def)

text \<open>
  C13. The pointer file is replaced atomically: whatever call fails, a failed \<open>updateLastPointer\<close> leaves the old
  pointer file and every file but the temporary one as they were; a successful one leaves the new pointer
  and no temporary file, and changes nothing else. What it has written reads back as the same pointer, for numbers of 64 bits
  and an ASCII error text.
\<close>

theorem updateLastPointer_atomic:
  assumes "CHR ''/'' \<notin> set n"
  shows "case updateLastPointer env fs lp (path_join d n) of
      (Inl e, fs') \<Rightarrow> fs'(path_join d (CHR ''_'' # n) := None) = fs(path_join d (CHR ''_'' # n) := None)
    | (Inr _, fs') \<Rightarrow> \<exists>j. marshal_ptr lp = Inr j \<and> (ptr_ok lp \<longrightarrow> unmarshal_ptr j = Inr lp)
        \<and> fs' = (fs(path_join d (CHR ''_'' # n) := None))(path_join d n \<mapsto> j)"
  using updateLastPointer_ok [of env fs lp "path_join d n"] updateLastPointer_err [of env fs lp "path_join d n"]
    tmp_path_join [OF assms, of d] tmp_path_ne [OF assms, of d] ptr_roundtrip
  by (auto split: prod.splits sum.splits)

text \<open>
  The clean-up after a tick deletes exactly the regular files that are named after no listed machine (those that
  cannot be removed stay) and exactly their counters; the pointer files and counters of listed machines are
  kept.
\<close>

theorem deletePtrFile_exact:
  "case deletePtrFileDisappearedSerial env entries dir ms st of
      (Inl e, st') \<Rightarrow> readdir_fault env dir = Some e \<and> st' = st
    | (Inr _, st') \<Rightarrow>
        ptrs st' (path_join dir n) =
          (if (n, False) \<in> set entries \<and> n \<notin> m_Serial ` set ms \<and> remove_fault env (path_join dir n) = None
           then None else ptrs st (path_join dir n))
      \<and> counterRequestFailed st' n =
          (if (n, False) \<in> set entries \<and> n \<notin> m_Serial ` set ms then None else counterRequestFailed st n)
      \<and> counterRequestSuccess st' n =
          (if (n, False) \<in> set entries \<and> n \<notin> m_Serial ` set ms then None else counterRequestSuccess st n)"
  by (cases "readdir_fault env dir")
    (simp_all add: deletePtrFileDisappearedSerial_def delete_loop_effect Let_def)

text \<open>
  One tick of the scraping loop and a name that belongs to no listed machine (nor to the temporary file of one):
  in whatever order the concurrent workers take effect, none touches that name; the clean-up then removes the
  file and the counters if the directory lists the name, and nothing happens to it otherwise.
\<close>

theorem scrape_tick_unlisted:
  assumes "set (sched ms) = set ms"
    and "list_all (\<lambda>m. CHR ''/'' \<notin> set (m_Serial m) \<and> n \<noteq> m_Serial m \<and> n \<noteq> CHR ''_'' # m_Serial m) ms"
    and "readdir_fault env (ptrDir c) = None" and "remove_fault env (path_join (ptrDir c) n) = None"
    and "scrape_tick tm w env cl c (Inr ms) sched listdir st = Some st'"
    and "(n, False) \<in> set (listdir (ptrs (fold (\<lambda>m. collectSystemEventLog tm w env (cl m) c m) (sched ms) st))) \<longleftrightarrow> b"
  shows "ptrs st' (path_join (ptrDir c) n) = (if b then None else ptrs st (path_join (ptrDir c) n))
     \<and> counterRequestFailed st' n = (if b then None else counterRequestFailed st n)
     \<and> counterRequestSuccess st' n = (if b then None else counterRequestSuccess st n)"
proof -
  define st1 where "st1 = fold (\<lambda>m. collectSystemEventLog tm w env (cl m) c m) (sched ms) st"
  have "n \<notin> m_Serial ` set ms" using assms(2) by (auto simp: list_all_iff)
  moreover have "st' = delete_loop env (ptrDir c) (m_Serial ` set ms) (listdir (ptrs st1)) st1"
    using assms(3,5) by (simp add: scrape_tick_def st1_def deletePtrFileDisappearedSerial_def Let_def)
  moreover have "list_all (\<lambda>m. CHR ''/'' \<notin> set (m_Serial m) \<and> n \<noteq> m_Serial m \<and> n \<noteq> CHR ''_'' # m_Serial m) (sched ms)"
    using assms(1,2) by (simp add: list_all_iff)
  note collect_all_frame [OF this, of tm w env cl c st]
  ultimately show ?thesis
    using assms(4,6) by (auto simp: delete_loop_effect st1_def)
qed

section \<open>Examples\<close>

text \<open>A BMC with two events.\<close>

definition ev :: "string \<Rightarrow> SystemEventLog" where
  "ev i = zero_sel\<lparr>Create := ''t'', Id := i\<rparr>"

definition demo_tree :: "string list \<Rightarrow> jtree" where
  "demo_tree ids = TObj [(''Members'', TArr (map (\<lambda>i. TObj [(''Id'', TStr i), (''Created'', TStr ''t'')]) ids))]"

definition demo_body :: "string list \<Rightarrow> string" where
  "demo_body ids = print_json (demo_tree ids)"

definition demo_time :: time_parser where
  "demo_time s = Inr 7"

definition demo_client :: "(string, int \<times> (string, string) result) result \<Rightarrow> http_client" where
  "demo_client r = \<lparr>new_request = (\<lambda>_. Inr ()), http_do = (\<lambda>_ _ _. r)\<rparr>"

definition quiet_fs_env :: fs_env where
  "quiet_fs_env = \<lparr>stat_fault = (\<lambda>_. False), create_fault = (\<lambda>_. None), write_fault = (\<lambda>_. None),
     sync_fault = (\<lambda>_. None), rename_fault = (\<lambda>_. None), open_fault = (\<lambda>_. None), read_fault = (\<lambda>_. None),
     remove_fault = (\<lambda>_. None), readdir_fault = (\<lambda>_. None)\<rparr>"

definition demo_collector :: selCollector where
  "demo_collector = \<lparr>machinesListDir = ''/m'', rfSelPath = ''/sel'', ptrDir = ''/p'', username = ''u'', password = ''x''\<rparr>"

definition demo_machine :: Machine where
  "demo_machine = \<lparr>m_Serial = ''S1'', m_BmcIP = ''10.0.0.1'', m_NodeIP = ''10.1.0.1''\<rparr>"

definition demo_steps :: "(fs_env \<times> http_client) list" where
  "demo_steps = map (Pair quiet_fs_env \<circ> demo_client)
     [Inl ''down'', Inr (200, Inr (demo_body [''1''])), Inr (500, Inr ''err''), Inr (200, Inr (demo_body [''2'', ''1''])), Inr (200, Inr (demo_body [''2'', ''1'']))]"

definition demo_state :: "string list lc_state" where
  "demo_state = \<lparr>ptrs = Map.empty, counterRequestFailed = Map.empty, counterRequestSuccess = Map.empty, out = [], slog = []\<rparr>"

lemma demo_time_ok: "time_ok demo_time"
  by (simp add: time_ok_def demo_time_def int64_range_def)

lemma demo_body_decoded:
  assumes "list_all ascii ids"
  shows "unmarshal_redfish (demo_body ids) = Inr (zero_redfish\<lparr>Sel := map ev ids\<rparr>)"
proof -
  have "printable 100 (demo_tree ids)" using assms by (auto simp: demo_tree_def ascii_def list_all_iff)
  then have "parse_json (demo_body ids) = Some (demo_tree ids)"
    unfolding demo_body_def by (rule parse_print_shallow)
  moreover have "dec_struct sel_fields (TObj [(''Id'', TStr i), (''Created'', TStr ''t'')]) zero_sel = Some (ev i)" for i
    by (simp add: sel_fields_def decode_defs ev_def)
  then have "those (map (\<lambda>t. dec_struct sel_fields t zero_sel) (map (\<lambda>i. TObj [(''Id'', TStr i), (''Created'', TStr ''t'')]) ids))
      = Some (map ev ids)"
    by (induction ids) simp_all
  ultimately show ?thesis
    by (simp add: unmarshal_redfish_def go_unmarshal_def demo_tree_def redfish_fields_def decode_defs dec_slice_def)
qed

lemma quiet_env_quiet [simp]: "quiet_fs quiet_fs_env"
  by (simp add: quiet_fs_def quiet_fs_env_def)

lemma demo_client_ascii:
  "(case r of Inl e \<Rightarrow> ascii e | Inr (n, Inl e) \<Rightarrow> ascii e \<and> int64_range n | Inr (n, Inr _) \<Rightarrow> int64_range n) \<Longrightarrow> ascii_client (demo_client r)"
  by (auto simp: ascii_client_def requestToBmc_def demo_client_def int64_range_def split: sum.splits prod.splits)

lemma demo_fetched:
  "map (\<lambda>(env, cl). fetched demo_time demo_collector demo_machine cl) demo_steps =
     [None, Some (7, [ev ''1'']), None, Some (7, [ev ''1'', ev ''2'']), Some (7, [ev ''1'', ev ''2''])]"
  by (simp add: demo_steps_def fetched_def requestToBmc_def demo_client_def demo_time_def demo_body_decoded ascii_def ev_def zero_redfish_def)

lemma demo_ids: "atoi ''1'' = Some 1" "atoi ''2'' = Some 2"
  by code_simp+

text \<open>Five scrapes, two of which fail: each of the two events is written once.\<close>

theorem scrapes_exactly_once_witness:
  "out (fold (\<lambda>(env, cl). collectSystemEventLog demo_time logProd_write env cl demo_collector demo_machine)
      demo_steps demo_state) = map (event_text demo_machine) [ev ''1'', ev ''2'']"
proof -
  have "list_all (\<lambda>(env, cl). quiet_fs env \<and> ascii_client cl) demo_steps"
    by (auto simp: demo_steps_def demo_client_ascii ascii_def int64_range_def)
  moreover have "bmc_history 0 [] (map (\<lambda>(env, cl). fetched demo_time demo_collector demo_machine cl) demo_steps)"
    unfolding demo_fetched by (simp add: id_ok_def event_id_def ev_def zero_sel_def demo_ids)
  moreover have "CHR ''/'' \<notin> set (m_Serial demo_machine)" by (simp add: demo_machine_def)
  moreover have "ptrs demo_state (path_join (ptrDir demo_collector) (m_Serial demo_machine)) = None"
    by (simp add: demo_state_def)
  ultimately have "out (fold (\<lambda>(env, cl). collectSystemEventLog demo_time logProd_write env cl demo_collector demo_machine)
      demo_steps demo_state) = out demo_state @ map (event_text demo_machine)
        (new_events 0 [] (map (\<lambda>(env, cl). fetched demo_time demo_collector demo_machine cl) demo_steps))"
    using scrapes_exactly_once [OF _ demo_time_ok] by blast
  then show ?thesis
    unfolding demo_fetched
    by (simp add: demo_state_def)
qed

theorem updateLastPointer_atomic_witness:
  "case updateLastPointer (quiet_fs_env\<lparr>rename_fault := \<lambda>_. Some ''io''\<rparr>) [''/p/S1'' \<mapsto> ''old'']
      zero_pointer (path_join ''/p'' ''S1'') of
      (Inl e, fs') \<Rightarrow> fs'(path_join ''/p'' ''_S1'' := None) = [''/p/S1'' \<mapsto> ''old''](path_join ''/p'' ''_S1'' := None)
    | (Inr _, fs') \<Rightarrow> False"
proof -
  have "fst (updateLastPointer (quiet_fs_env\<lparr>rename_fault := \<lambda>_. Some ''io''\<rparr>) [''/p/S1'' \<mapsto> ''old'']
      zero_pointer (path_join ''/p'' ''S1'')) = Inl ''io''"
    by (simp add: updateLastPointer_def marshal_ptr_def json_Marshal_def quiet_fs_env_def fs_defs Let_def)
  then show ?thesis
    using updateLastPointer_atomic [where n = "''S1''" and d = "''/p''" and lp = zero_pointer
        and env = "quiet_fs_env\<lparr>rename_fault := \<lambda>_. Some ''io''\<rparr>" and fs = "[''/p/S1'' \<mapsto> ''old'']"]
    by (auto split: prod.splits sum.splits)
qed

theorem scrape_tick_unlisted_witness:
  "\<exists>st'. scrape_tick demo_time logProd_write quiet_fs_env (\<lambda>_. demo_client (Inl ''down'')) demo_collector
        (Inr [demo_machine]) (\<lambda>ms. ms) (\<lambda>_. [(''S1'', False), (''S2'', False)])
        (demo_state\<lparr>ptrs := [''/p/S2'' \<mapsto> ''x'']\<rparr>) = Some st'
     \<and> ptrs st' (path_join ''/p'' ''S2'') = None \<and> counterRequestFailed st' ''S2'' = None"
proof -
  let ?t = "scrape_tick demo_time logProd_write quiet_fs_env (\<lambda>_. demo_client (Inl ''down'')) demo_collector
        (Inr [demo_machine]) (\<lambda>ms. ms) (\<lambda>_. [(''S1'', False), (''S2'', False)]) (demo_state\<lparr>ptrs := [''/p/S2'' \<mapsto> ''x'']\<rparr>)"
  obtain st' where st': "?t = Some st'"
    by (simp add: scrape_tick_def Let_def deletePtrFileDisappearedSerial_def quiet_fs_env_def)
  have "ptrs st' (path_join (ptrDir demo_collector) ''S2'') = (if True then None else ptrs (demo_state\<lparr>ptrs := [''/p/S2'' \<mapsto> ''x'']\<rparr>) (path_join (ptrDir demo_collector) ''S2''))
     \<and> counterRequestFailed st' ''S2'' = (if True then None else counterRequestFailed (demo_state\<lparr>ptrs := [''/p/S2'' \<mapsto> ''x'']\<rparr>) ''S2'')
     \<and> counterRequestSuccess st' ''S2'' = (if True then None else counterRequestSuccess (demo_state\<lparr>ptrs := [''/p/S2'' \<mapsto> ''x'']\<rparr>) ''S2'')"
    by (rule scrape_tick_unlisted [OF _ _ _ _ st']) (simp_all add: demo_machine_def quiet_fs_env_def)
  then show ?thesis using st' by (simp add: demo_collector_def)
qed


section \<open>Pointers that outlive their cause\<close>

text \<open>A successful scrape leaves the stored error and status in place, so an error that comes back with the same text is not
  logged again.\<close>

lemma sel_loop_keeps_error:
  "LastError (fst (sel_loop w m first vs lp st)) = LastError lp
   \<and> LastHttpStatusCode (fst (sel_loop w m first vs lp st)) = LastHttpStatusCode lp"
  by (induction vs arbitrary: lp st) (simp_all add: Let_def split: option.split)

lemma save_pointer_slog:
  "slog (save_pointer env lp p serial st) = slog st \<or> (\<exists>e. slog (save_pointer env lp p serial st) = slog st @ [WriteFailed e serial])"
  by (simp add: save_pointer_def slog_error_def split: prod.split sum.split)

lemma same_error_silent:
  assumes "requestToBmc cl (username c) (password c) (bmcUrl c m) = (buf, code, Some e)" and "LastError lastPtr = e"
  shows "TcpFailed e (m_Serial m) \<notin> set (drop (length (slog st)) (slog (request_and_handle tm w env cl c m p lastPtr st)))"
proof -
  let ?st = "st\<lparr>counterRequestFailed := ctr_inc (counterRequestFailed st) (m_Serial m)\<rparr>"
  have "slog (request_and_handle tm w env cl c m p lastPtr st)
      = slog (save_pointer env (lastPtr\<lparr>LastHttpStatusCode := 0, LastError := e\<rparr>) p (m_Serial m) ?st)"
    using assms by (simp add: request_and_handle_def Let_def)
  then show ?thesis using save_pointer_slog [of env "lastPtr\<lparr>LastHttpStatusCode := 0, LastError := e\<rparr>" p "m_Serial m" ?st] by auto
qed

text \<open>A new pointer file is created and then written, without the detour over a temporary file that later updates take. When
  that write fails, the empty or broken file stays, and no later scrape of the machine gets past it.\<close>

lemma broken_pointer_sticks:
  assumes "ptrs st (path_join (ptrDir c) (m_Serial m)) = Some s" and "unmarshal_ptr s = Inl e"
  shows "\<exists>msg. collectSystemEventLog tm w env cl c m st = st\<lparr>slog := slog st @ [msg]\<rparr>"
proof -
  let ?p = "path_join (ptrDir c) (m_Serial m)"
  have "checkAndCreatePointerFile env (ptrs st) ?p = (Inr (), ptrs st)"
    using assms(1) by (simp add: checkAndCreatePointerFile_def)
  moreover have "\<exists>e. readLastPointer env (ptrs st) ?p = Inl e"
    using assms by (simp add: readLastPointer_def fs_read_def split: option.split)
  ultimately show ?thesis by (auto simp: collectSystemEventLog_def slog_error_def)
qed

lemma empty_pointer_unreadable: "\<exists>e. unmarshal_ptr [] = Inl e"
proof -
  have "(case unmarshal_ptr [] of Inl _ \<Rightarrow> True | Inr _ \<Rightarrow> False)" by code_simp
  then show ?thesis by (auto split: sum.splits)
qed

lemma failed_first_write:
  assumes "ptrs st (path_join (ptrDir c) (m_Serial m)) = None" and "\<not> stat_fault env (path_join (ptrDir c) (m_Serial m))"
    and "create_fault env (path_join (ptrDir c) (m_Serial m)) = None"
    and "write_fault env (path_join (ptrDir c) (m_Serial m)) = Some (0, e)"
  shows "ptrs (collectSystemEventLog tm w env cl c m st) (path_join (ptrDir c) (m_Serial m)) = Some []"
proof -
  obtain j where "marshal_ptr zero_pointer = Inr j"
  proof (cases "marshal_ptr zero_pointer")
    case (Inl e)
    moreover have "(case marshal_ptr zero_pointer of Inl _ \<Rightarrow> False | Inr _ \<Rightarrow> True)" by code_simp
    ultimately show ?thesis by simp
  qed
  then show ?thesis using assms
    by (simp add: collectSystemEventLog_def checkAndCreatePointerFile_def fs_create_def fs_write_def slog_error_def Let_def)
qed

end
