(* ===== verification/Collector_Main.thy ===== *)
theory Collector_Main
  imports Log_Collector
begin

text \<open>
  The program bmc-log-collector around the scrape of one machine: \<open>doLogScrapingLoop\<close> and \<open>main\<close> of \<open>main.go\<close>.
  The loop is driven by the sequence of what its \<open>select\<close> finds, a signal or a tick; a tick brings what the mounted
  files, the faults of the file system, the BMCs and the scheduler of the workers are at that time. The theorem lifts the
  delivery of the events of one machine to the whole program: machines come and go, the workers of a tick take effect in
  any order, and the output is made of the new events of every machine, each once and in order, and of nothing else.
\<close>

section \<open>The loop\<close>

record tick =
  tk_env :: fs_env
  tk_client :: "Machine \<Rightarrow> http_client"
  tk_config :: files
  tk_order :: "Machine list \<Rightarrow> Machine list"
  tk_listdir :: "files \<Rightarrow> (string \<times> bool) list"

datatype scrape_event = Signal | Ticker tick

definition tk_machines :: "selCollector \<Rightarrow> tick \<Rightarrow> (string, Machine list) result" where
  "tk_machines c t = readMachineList (tk_env t) (tk_config t) (machinesListDir c)"

text \<open>The loop ends by a signal and by a machine list that cannot be read; the flag tells whether it has ended.
  The workers of a tick have been waited for at its end, so none is left when a signal is seen.\<close>

fun doLogScrapingLoop ::
  "time_parser \<Rightarrow> 'o writer \<Rightarrow> selCollector \<Rightarrow> scrape_event list \<Rightarrow> 'o lc_state \<Rightarrow> bool \<times> 'o lc_state" where
  "doLogScrapingLoop tm w c [] st = (False, st)"
| "doLogScrapingLoop tm w c (Signal # es) st = (True, st)"
| "doLogScrapingLoop tm w c (Ticker t # es) st =
     (case scrape_tick tm w (tk_env t) (tk_client t) c (tk_machines c t) (tk_order t) (tk_listdir t) st of
        None \<Rightarrow> (True, st)
      | Some st' \<Rightarrow> doLogScrapingLoop tm w c es st')"

text \<open>\<open>main\<close> multiplies the flag, a 64-bit integer, by the nanoseconds of a second.\<close>

definition intervalTime :: "int \<Rightarrow> int" where
  "intervalTime flag = wrap64 (flag * 1000000000)"

record collector_flags =
  flgUserFile :: string
  flgUserId :: string
  flgMachineList :: string
  flgPointerDir :: string
  flgScrapingIntervalTime :: int

definition collector_main ::
  "fs_env \<Rightarrow> files \<Rightarrow> time_parser \<Rightarrow> collector_flags \<Rightarrow> scrape_event list
     \<Rightarrow> string list lc_state \<Rightarrow> (bool \<times> string list lc_state) process" where
  "collector_main env fs tm fl events st =
     (case LoadBMCUserConfig env fs (flgUserFile fl) of
        Inl e \<Rightarrow> Exited 1
      | Inr user \<Rightarrow>
          NewTicker (intervalTime (flgScrapingIntervalTime fl))
            (Running (doLogScrapingLoop tm logProd_write
                 (main_collector (flgMachineList fl) (flgPointerDir fl) (flgUserId fl) user) events st)))"

text \<open>The interval is the flag in nanoseconds within the range of \<open>time.Duration\<close>; a larger flag wraps around.\<close>

lemma intervalTime_exact:
  assumes "\<bar>n\<bar> \<le> 9223372036"
  shows "intervalTime n = n * 1000000000"
  using assms unfolding intervalTime_def wrap64_def by (subst mod_pos_pos_trivial) (auto simp: abs_le_iff)

text \<open>The ticks whose scrape takes place.\<close>

fun live_ticks :: "selCollector \<Rightarrow> scrape_event list \<Rightarrow> (tick \<times> Machine list) list" where
  "live_ticks c (Ticker t # es) = (case tk_machines c t of Inl _ \<Rightarrow> [] | Inr ms \<Rightarrow> (t, ms) # live_ticks c es)"
| "live_ticks c es = []"

section \<open>Two writers\<close>

text \<open>The collector treats its output as the writer does: a mapping between the outputs of two writers that respects
  their writes carries over to every part of the collector.\<close>

definition map_out :: "('a \<Rightarrow> 'b) \<Rightarrow> 'a lc_state \<Rightarrow> 'b lc_state" where
  "map_out f st = \<lparr>ptrs = ptrs st, counterRequestFailed = counterRequestFailed st,
     counterRequestSuccess = counterRequestSuccess st, out = f (out st), slog = slog st\<rparr>"

lemma map_out_simps [simp]:
  "ptrs (map_out f st) = ptrs st"
  "counterRequestFailed (map_out f st) = counterRequestFailed st"
  "counterRequestSuccess (map_out f st) = counterRequestSuccess st"
  "out (map_out f st) = f (out st)"
  "slog_error e (map_out f st) = map_out f (slog_error e st)"
  "map_out f st\<lparr>ptrs := fs\<rparr> = map_out f (st\<lparr>ptrs := fs\<rparr>)"
  "map_out f st\<lparr>counterRequestFailed := cf\<rparr> = map_out f (st\<lparr>counterRequestFailed := cf\<rparr>)"
  "map_out f st\<lparr>counterRequestSuccess := cs\<rparr> = map_out f (st\<lparr>counterRequestSuccess := cs\<rparr>)"
  "map_out f st\<lparr>out := f ou\<rparr> = map_out f (st\<lparr>out := ou\<rparr>)"
  by (simp_all add: map_out_def slog_error_def)

lemma map_out_save [simp]:
  "save_pointer env lp p s (map_out f st) = map_out f (save_pointer env lp p s st)"
  by (simp add: save_pointer_def split: prod.split sum.split)

lemma map_out_drop [simp]: "drop_pointer env dir n (map_out f st) = map_out f (drop_pointer env dir n st)"
  by (simp add: drop_pointer_def deleteMetrics_def Let_def split: option.split)

lemma map_out_delete [simp]: "delete_loop env dir keep es (map_out f st) = map_out f (delete_loop env dir keep es st)"
proof (induction es arbitrary: st)
  case (Cons e es)
  then show ?case by (cases e) simp
qed simp

locale writer_simulation =
  fixes w1 :: "'b writer" and w2 :: "'a writer" and f :: "'a \<Rightarrow> 'b"
  assumes same_result: "fst (w1 s serial (f x)) = fst (w2 s serial x)"
    and same_output: "snd (w1 s serial (f x)) = f (snd (w2 s serial x))"
begin

lemma write_sim: "w1 s serial (f x) = apsnd f (w2 s serial x)"
  using same_result same_output by (metis apsnd_conv prod.collapse)

lemma emit_sim: "emit w1 serial v (map_out f st) = map_out f (emit w2 serial v st)"
  by (cases "marshal_sel v") (simp_all add: emit_def write_sim Let_def case_prod_unfold split: sum.split)

lemma sel_loop_sim: "sel_loop w1 m first vs lp (map_out f st) = apsnd (map_out f) (sel_loop w2 m first vs lp st)"
  by (induction vs arbitrary: lp st) (simp_all add: Let_def emit_sim split: option.split)

lemma handle_sim:
  "handle_response tm w1 env m p lp buf (map_out f st) = map_out f (handle_response tm w2 env m p lp buf st)"
  by (simp add: handle_response_def Let_def sel_loop_sim case_prod_unfold split: sum.split)

lemma collect_sim:
  "collectSystemEventLog tm w1 env cl c m (map_out f st) = map_out f (collectSystemEventLog tm w2 env cl c m st)"
  by (simp add: collectSystemEventLog_def request_and_handle_def Let_def handle_sim
      split: prod.split sum.split option.split)

lemma tick_sim:
  "scrape_tick tm w1 env cl c machines sched listdir (map_out f st)
     = map_option (map_out f) (scrape_tick tm w2 env cl c machines sched listdir st)"
proof -
  have "fold (\<lambda>m. collectSystemEventLog tm w1 env (cl m) c m) ms (map_out f st)
      = map_out f (fold (\<lambda>m. collectSystemEventLog tm w2 env (cl m) c m) ms st)" for ms
    by (induction ms arbitrary: st) (simp_all add: collect_sim)
  then show ?thesis
    by (simp add: scrape_tick_def deletePtrFileDisappearedSerial_def Let_def split: sum.split option.split)
qed

lemma loop_sim:
  "doLogScrapingLoop tm w1 c es (map_out f st) = apsnd (map_out f) (doLogScrapingLoop tm w2 c es st)"
proof (induction es arbitrary: st)
  case (Cons e es)
  then show ?case by (cases e) (simp_all add: tick_sim split: option.split)
qed simp

end

text \<open>A writer that notes the machine of each line; forgetting the notes gives the production writer.\<close>

definition tagged_write :: "(string \<times> string) list writer" where
  "tagged_write s serial ls = (Inr (), ls @ [(serial, s)])"

definition lines_of :: "string \<Rightarrow> (string \<times> string) list \<Rightarrow> string list" where
  "lines_of n ls = map snd (filter (\<lambda>l. fst l = n) ls)"

interpretation forget: writer_simulation logProd_write tagged_write "map snd"
  by unfold_locales (simp_all add: logProd_write_def tagged_write_def)

interpretation tagged: bmc_log_writer tagged_write "lines_of n" "\<lambda>s. s = n" for n
  by unfold_locales (simp_all add: tagged_write_def lines_of_def)

section \<open>One machine among others\<close>

text \<open>Serials that make usable file names, none of them the name of a temporary file.\<close>

definition plain_serial :: "string \<Rightarrow> bool" where
  "plain_serial s \<longleftrightarrow> CHR ''/'' \<notin> set s \<and> take 1 s \<noteq> ''_''"

definition fleet_ok :: "Machine list \<Rightarrow> bool" where
  "fleet_ok ms \<longleftrightarrow> distinct (map m_Serial ms) \<and> list_all (\<lambda>m. plain_serial (m_Serial m)) ms"

text \<open>The pointer of a serial stands at the log \<open>L\<close> whose first event has the time \<open>t\<close>.\<close>

definition at_position :: "selCollector \<Rightarrow> string \<Rightarrow> int \<Rightarrow> sel_log \<Rightarrow> 'o lc_state \<Rightarrow> bool" where
  "at_position c n t L st \<longleftrightarrow>
     (\<exists>lp. stored_pointer (ptrs st) (path_join (ptrDir c) n) = Some lp
        \<and> LastReadId lp = last_id L \<and> FirstCreateTime lp = t \<and> ptr_ok lp)"

lemma at_position_cong:
  "ptrs st' (path_join (ptrDir c) n) = ptrs st (path_join (ptrDir c) n) \<Longrightarrow> at_position c n t L st' = at_position c n t L st"
  by (simp add: at_position_def stored_pointer_def)

lemma at_start: "ptrs st (path_join (ptrDir c) n) = None \<Longrightarrow> at_position c n 0 [] st"
  by (simp add: at_position_def stored_pointer_def zero_pointer_def last_id_def ptr_ok_def ascii_def int64_range_def)

lemma others_frame:
  assumes "plain_serial n" and "list_all (\<lambda>m'. plain_serial (m_Serial m') \<and> m_Serial m' \<noteq> n) ms"
    and "st' = fold (\<lambda>m. collectSystemEventLog tm tagged_write env (cl m) c m) ms st"
  shows "ptrs st' (path_join (ptrDir c) n) = ptrs st (path_join (ptrDir c) n) \<and> lines_of n (out st') = lines_of n (out st)"
proof -
  have "n \<noteq> CHR ''_'' # s" for s using assms(1) by (auto simp: plain_serial_def)
  then have "list_all (\<lambda>m. CHR ''/'' \<notin> set (m_Serial m) \<and> n \<noteq> m_Serial m \<and> n \<noteq> CHR ''_'' # m_Serial m) ms"
    using assms(2) by (auto simp: list_all_iff plain_serial_def)
  note collect_all_frame [OF this, of tm tagged_write env cl c st]
  moreover have "lines_of n (out (fold (\<lambda>m. collectSystemEventLog tm tagged_write env (cl m) c m) ms st)) = lines_of n (out st)"
    using assms(2) by (induction ms arbitrary: st) (simp_all add: tagged.collect_hidden)
  ultimately show ?thesis using assms(3) by simp
qed

text \<open>The clean-up writes nothing, keeps the pointer of a listed machine and removes the files of others.\<close>

lemma clean_up_frame:
  assumes "deletePtrFileDisappearedSerial env entries (ptrDir c) ms st = (res, st')" and "quiet_fs env"
  shows "out st' = out st" and "n \<in> m_Serial ` set ms \<Longrightarrow> ptrs st' (path_join (ptrDir c) n) = ptrs st (path_join (ptrDir c) n)"
    and "n \<notin> m_Serial ` set ms \<Longrightarrow> (n, False) \<in> set entries \<Longrightarrow> ptrs st' (path_join (ptrDir c) n) = None"
    and "n \<notin> m_Serial ` set ms \<Longrightarrow> ptrs st (path_join (ptrDir c) n) = None \<Longrightarrow> ptrs st' (path_join (ptrDir c) n) = None"
proof -
  have o: "out (delete_loop env dir keep es s) = out s" for dir keep es and s :: "'a lc_state"
  proof (induction es arbitrary: s)
    case (Cons e es)
    then show ?case
      by (cases e) (simp add: drop_pointer_def deleteMetrics_def slog_error_def Let_def split: option.split)
  qed simp
  have st': "st' = delete_loop env (ptrDir c) (m_Serial ` set ms) entries st"
    using assms by (simp add: deletePtrFileDisappearedSerial_def Let_def quiet_fs_def)
  have rm: "remove_fault env (path_join (ptrDir c) n) = None" using assms(2) by (simp add: quiet_fs_def)
  show "out st' = out st" by (simp add: st' o)
  show "ptrs st' (path_join (ptrDir c) n) = ptrs st (path_join (ptrDir c) n)" if "n \<in> m_Serial ` set ms"
    using that by (simp add: st' delete_loop_ptrs)
  show "ptrs st' (path_join (ptrDir c) n) = None" if "n \<notin> m_Serial ` set ms" "(n, False) \<in> set entries"
    using that rm by (simp add: st' delete_loop_ptrs)
  show "ptrs st' (path_join (ptrDir c) n) = None" if "n \<notin> m_Serial ` set ms" "ptrs st (path_join (ptrDir c) n) = None"
    using that by (simp add: st' delete_loop_ptrs)
qed

text \<open>The serials that occur in the lists.\<close>

definition serials :: "(tick \<times> Machine list) list \<Rightarrow> string set" where
  "serials ticks = (\<Union>(t, ms) \<in> set ticks. m_Serial ` set ms)"

text \<open>What is assumed of the circumstances of a tick: no file-system call fails, the list names each machine once, the
  workers are those of the list, the BMCs report their errors in ASCII, and reading the directory finds the pointer
  files of the machines.\<close>

definition tick_ok :: "selCollector \<Rightarrow> string set \<Rightarrow> tick \<times> Machine list \<Rightarrow> bool" where
  "tick_ok c ns tm = (case tm of (t, ms) \<Rightarrow> quiet_fs (tk_env t) \<and> fleet_ok ms \<and> mset (tk_order t ms) = mset ms
     \<and> (\<forall>m \<in> set ms. ascii_client (tk_client t m))
     \<and> (\<forall>n \<in> ns. \<forall>fs. fs (path_join (ptrDir c) n) \<noteq> None \<longrightarrow> (n, False) \<in> set (tk_listdir t fs)))"

text \<open>What a tick has for a serial: nothing when no machine of the list has it, else that machine and the answer of its
  BMC.\<close>

type_synonym visit = "(Machine \<times> (int \<times> sel_log) option) option"

definition visit_of :: "time_parser \<Rightarrow> selCollector \<Rightarrow> string \<Rightarrow> tick \<times> Machine list \<Rightarrow> visit" where
  "visit_of tm c n = (\<lambda>(t, ms).
     map_option (\<lambda>m. (m, fetched tm c m (tk_client t m))) (find (\<lambda>m. m_Serial m = n) ms))"

definition visit_moved :: "int \<times> sel_log \<Rightarrow> visit \<Rightarrow> int \<times> sel_log" where
  "visit_moved p v = (case v of None \<Rightarrow> (0, []) | Some (m, r) \<Rightarrow> moved (fst p) (snd p) r)"

definition visit_ok :: "int \<times> sel_log \<Rightarrow> visit \<Rightarrow> bool" where
  "visit_ok p v = (case v of None \<Rightarrow> True | Some (m, r) \<Rightarrow> bmc_history (fst p) (snd p) [r])"

definition visit_lines :: "int \<times> sel_log \<Rightarrow> visit \<Rightarrow> string list" where
  "visit_lines p v = (case v of None \<Rightarrow> [] | Some (m, r) \<Rightarrow> map (event_text m) (new_events (fst p) (snd p) [r]))"

text \<open>A history of a serial: while its machine is listed its log grows or is reset; once the machine leaves the list the
  position is forgotten.\<close>

fun serial_history :: "int \<times> sel_log \<Rightarrow> visit list \<Rightarrow> bool" where
  "serial_history p [] \<longleftrightarrow> True"
| "serial_history p (v # vs) \<longleftrightarrow> visit_ok p v \<and> serial_history (visit_moved p v) vs"

text \<open>The lines that are due for a serial: at each visit the events that are new since the position.\<close>

fun serial_lines :: "int \<times> sel_log \<Rightarrow> visit list \<Rightarrow> string list" where
  "serial_lines p [] = []"
| "serial_lines p (v # vs) = visit_lines p v @ serial_lines (visit_moved p v) vs"

lemma fleet_split:
  assumes "fleet_ok ms" and "m \<in> set ms" and "mset os = mset ms"
  obtains xs ys where "os = xs @ m # ys"
    and "list_all (\<lambda>m'. plain_serial (m_Serial m') \<and> m_Serial m' \<noteq> m_Serial m) (xs @ ys)" and "plain_serial (m_Serial m)"
proof -
  have same: "set os = set ms" using mset_eq_setD [OF assms(3)] .
  have "distinct (map m_Serial os)"
    using assms(1,3) by (metis fleet_ok_def mset_eq_imp_distinct_iff mset_map)
  moreover obtain xs ys where os: "os = xs @ m # ys" using assms(2) same by (metis split_list)
  ultimately have "m_Serial m \<notin> m_Serial ` set (xs @ ys)" by (simp add: image_Un)
  then have "list_all (\<lambda>m'. m_Serial m' \<noteq> m_Serial m) (xs @ ys)" unfolding list_all_iff by (metis image_eqI)
  moreover have "list_all (\<lambda>m'. plain_serial (m_Serial m')) os" using assms(1) same by (simp add: fleet_ok_def list_all_iff)
  ultimately show ?thesis using os by (intro that [of xs ys]) (auto simp: list_all_iff)
qed

text \<open>A tick is the fold of its workers and the clean-up.\<close>

lemma tick_parts:
  assumes "scrape_tick tm tagged_write env cl c (Inr ms) sched listdir st = Some st'"
    and "s3 = fold (\<lambda>m. collectSystemEventLog tm tagged_write env (cl m) c m) (sched ms) st"
  shows "\<exists>res st''. deletePtrFileDisappearedSerial env (listdir (ptrs s3)) (ptrDir c) ms s3 = (res, st'')
    \<and> ptrs st' = ptrs st'' \<and> out st' = out st''"
  using assms by (auto simp: scrape_tick_def Let_def slog_error_def split: prod.splits sum.splits)

text \<open>One tick of the whole fleet moves each listed machine as a scrape of that machine alone does.\<close>

lemma tick_listed:
  assumes "time_ok tm" and "tick_ok c ns (t, ms)" and "m \<in> set ms" and "at_position c (m_Serial m) u L st"
    and "bmc_history u L [fetched tm c m (tk_client t m)]" and "(v, M) = moved u L (fetched tm c m (tk_client t m))"
    and "scrape_tick tm tagged_write (tk_env t) (tk_client t) c (Inr ms) (tk_order t) (tk_listdir t) st = Some st'"
  shows "at_position c (m_Serial m) v M st'
    \<and> lines_of (m_Serial m) (out st')
      = lines_of (m_Serial m) (out st) @ map (event_text m) (new_events u L [fetched tm c m (tk_client t m)])"
proof -
  let ?n = "m_Serial m" and ?col = "\<lambda>m. collectSystemEventLog tm tagged_write (tk_env t) (tk_client t m) c m"
  let ?p = "path_join (ptrDir c) ?n"
  note ok = assms(2) [unfolded tick_ok_def prod.case]
  obtain xs ys where split: "tk_order t ms = xs @ m # ys"
      "list_all (\<lambda>m'. plain_serial (m_Serial m') \<and> m_Serial m' \<noteq> ?n) (xs @ ys)" and plain: "plain_serial ?n"
    using fleet_split [of ms m "tk_order t ms"] ok assms(3) by blast
  define s1 where "s1 = fold ?col xs st"
  define s2 where "s2 = ?col m s1"
  define s3 where "s3 = fold ?col ys s2"
  have before: "ptrs s1 ?p = ptrs st ?p" "lines_of ?n (out s1) = lines_of ?n (out st)"
    using others_frame [OF plain _ s1_def] split(2) by simp_all
  have after: "ptrs s3 ?p = ptrs s2 ?p" "lines_of ?n (out s3) = lines_of ?n (out s2)"
    using others_frame [OF plain _ s3_def] split(2) by simp_all
  obtain lp where lp: "stored_pointer (ptrs s1) ?p = Some lp" "LastReadId lp = last_id L" "FirstCreateTime lp = u"
      "ptr_ok lp"
    using assms(4) at_position_cong [OF before(1)] unfolding at_position_def by blast
  have slash: "CHR ''/'' \<notin> set ?n" using plain by (simp add: plain_serial_def)
  have ascii: "ascii_client (tk_client t m)" and quiet: "quiet_fs (tk_env t)" using ok assms(3) by auto
  have mv: "fst (moved u L (fetched tm c m (tk_client t m))) = v" "snd (moved u L (fetched tm c m (tk_client t m))) = M"
    using assms(6) by (metis fst_conv, metis snd_conv)
  have step: "at_position c ?n v M s2"
      "lines_of ?n (out s2) = lines_of ?n (out s1) @ map (event_text m) (new_events u L [fetched tm c m (tk_client t m)])"
    using tagged.collect_move [where n = ?n, OF quiet assms(1) refl slash lp(1-3) assms(5) ascii lp(4) refl]
    unfolding s2_def at_position_def mv by blast+
  obtain res st'' where clean: "deletePtrFileDisappearedSerial (tk_env t) (tk_listdir t (ptrs s3)) (ptrDir c) ms s3 = (res, st'')"
      and st': "ptrs st' = ptrs st''" "out st' = out st''"
    using tick_parts [OF assms(7), of s3] split(1) by (auto simp: s3_def s2_def s1_def)
  have "ptrs st'' ?p = ptrs s3 ?p" "out st'' = out s3"
    using clean_up_frame [OF clean quiet] assms(3) by blast+
  then have "at_position c ?n v M st'" "lines_of ?n (out st') = lines_of ?n (out s2)"
    using step(1) after st' at_position_cong [of st' c ?n s2] by simp_all
  with step(2) before(2) show ?thesis by simp
qed

text \<open>A serial that is not listed gets no line, and its pointer is gone.\<close>

lemma tick_unlisted:
  assumes "tick_ok c ns (t, ms)" and "n \<notin> m_Serial ` set ms"
    and "scrape_tick tm tagged_write (tk_env t) (tk_client t) c (Inr ms) (tk_order t) (tk_listdir t) st = Some st'"
  shows "lines_of n (out st') = lines_of n (out st)"
    and "n \<in> ns \<Longrightarrow> plain_serial n \<Longrightarrow> ptrs st' (path_join (ptrDir c) n) = None"
proof -
  let ?col = "\<lambda>m. collectSystemEventLog tm tagged_write (tk_env t) (tk_client t m) c m"
  define s3 where "s3 = fold ?col (tk_order t ms) st"
  note ok = assms(1) [unfolded tick_ok_def prod.case]
  have same: "set (tk_order t ms) = set ms" using ok mset_eq_setD by blast
  obtain res st'' where clean: "deletePtrFileDisappearedSerial (tk_env t) (tk_listdir t (ptrs s3)) (ptrDir c) ms s3 = (res, st'')"
      and st': "ptrs st' = ptrs st''" "out st' = out st''"
    using tick_parts [OF assms(3) s3_def] by blast
  have one: "lines_of n (out (?col m s)) = lines_of n (out s)" if "m \<in> set ms" for m s
    using that assms(2) by (intro tagged.collect_hidden) blast
  have "lines_of n (out (fold ?col os s)) = lines_of n (out s)" if "set os \<subseteq> set ms" for os s
    using that by (induction os arbitrary: s) (simp_all add: one)
  then have "lines_of n (out s3) = lines_of n (out st)" unfolding s3_def using same by blast
  then show "lines_of n (out st') = lines_of n (out st)" using clean_up_frame(1) [OF clean] ok st'(2) by simp
  show "ptrs st' (path_join (ptrDir c) n) = None" if "n \<in> ns" "plain_serial n"
    using clean_up_frame(3,4) [OF clean, of n] ok assms(2) that(1) st'(1)
    by (cases "ptrs s3 (path_join (ptrDir c) n)") auto
qed

lemma find_serial:
  "find (\<lambda>m. m_Serial m = n) ms = None \<longleftrightarrow> n \<notin> m_Serial ` set ms"
  "find (\<lambda>m. m_Serial m = n) ms = Some m \<Longrightarrow> m \<in> set ms \<and> m_Serial m = n"
  by (auto simp: find_None_iff find_Some_iff)

lemma tick_serial:
  assumes "time_ok tm" and "tick_ok c ns (t, ms)" and "n \<in> ns" and "plain_serial n"
    and "at_position c n (fst p) (snd p) st" and "visit_ok p (visit_of tm c n (t, ms))"
    and "scrape_tick tm tagged_write (tk_env t) (tk_client t) c (Inr ms) (tk_order t) (tk_listdir t) st = Some st'"
  shows "at_position c n (fst (visit_moved p (visit_of tm c n (t, ms)))) (snd (visit_moved p (visit_of tm c n (t, ms)))) st'
    \<and> lines_of n (out st') = lines_of n (out st) @ visit_lines p (visit_of tm c n (t, ms))"
proof (cases "find (\<lambda>m. m_Serial m = n) ms")
  case None
  then show ?thesis
    using tick_unlisted [OF assms(2) _ assms(7), of n] assms(3,4) find_serial(1) [of n ms] at_start [of st' c n]
    by (simp add: visit_of_def visit_moved_def visit_lines_def)
next
  case (Some m)
  then have m: "m \<in> set ms" "m_Serial m = n" using find_serial(2) by blast+
  show ?thesis
    using tick_listed [OF assms(1,2) m(1) _ _ prod.collapse assms(7), of "fst p" "snd p"] assms(5,6) m(2) Some
    by (simp add: visit_of_def visit_moved_def visit_lines_def visit_ok_def)
qed

lemma tick_returns:
  "\<exists>st'. scrape_tick tm w env cl c (Inr ms) sched listdir st = Some st'"
  by (simp add: scrape_tick_def Let_def split: prod.split sum.split)

lemma loop_delivers:
  assumes "time_ok tm" and "list_all (tick_ok c ns) (live_ticks c es)" and "n \<in> ns" and "plain_serial n"
    and "at_position c n (fst p) (snd p) st" and "serial_history p (map (visit_of tm c n) (live_ticks c es))"
  shows "lines_of n (out (snd (doLogScrapingLoop tm tagged_write c es st)))
    = lines_of n (out st) @ serial_lines p (map (visit_of tm c n) (live_ticks c es))"
  using assms(2,5,6)
proof (induction c es arbitrary: st p rule: live_ticks.induct)
  case (1 c t es)
  show ?case
  proof (cases "tk_machines c t")
    case (Inl err)
    then show ?thesis by (simp add: scrape_tick_def)
  next
    case (Inr ms)
    let ?v = "visit_of tm c n (t, ms)"
    obtain st' where st': "scrape_tick tm tagged_write (tk_env t) (tk_client t) c (Inr ms) (tk_order t) (tk_listdir t) st = Some st'"
      using tick_returns by blast
    have h: "tick_ok c ns (t, ms)" "list_all (tick_ok c ns) (live_ticks c es)" "visit_ok p ?v"
        "serial_history (visit_moved p ?v) (map (visit_of tm c n) (live_ticks c es))"
      using "1.prems" Inr by simp_all
    note step = tick_serial [OF assms(1) h(1) assms(3,4) "1.prems"(2) h(3) st']
    show ?thesis using "1.IH" [OF Inr h(2) _ h(4), of st'] step Inr st' by simp
  qed
qed simp_all

text \<open>A serial that is never listed gets no line.\<close>

lemma loop_silent:
  assumes "list_all (tick_ok c ns) (live_ticks c es)" and "n \<notin> serials (live_ticks c es)"
  shows "lines_of n (out (snd (doLogScrapingLoop tm tagged_write c es st))) = lines_of n (out st)"
    and "serial_lines p (map (visit_of tm c n) (live_ticks c es)) = []"
proof -
  show "lines_of n (out (snd (doLogScrapingLoop tm tagged_write c es st))) = lines_of n (out st)"
    using assms
  proof (induction c es arbitrary: st rule: live_ticks.induct)
    case (1 c t es)
    show ?case
    proof (cases "tk_machines c t")
      case (Inl err)
      then show ?thesis by (simp add: scrape_tick_def)
    next
      case (Inr ms)
      obtain st' where st': "scrape_tick tm tagged_write (tk_env t) (tk_client t) c (Inr ms) (tk_order t) (tk_listdir t) st = Some st'"
        using tick_returns by blast
      have h: "tick_ok c ns (t, ms)" "list_all (tick_ok c ns) (live_ticks c es)" "n \<notin> m_Serial ` set ms"
          "n \<notin> serials (live_ticks c es)"
        using "1.prems" Inr by (auto simp: serials_def)
      show ?thesis using "1.IH" [OF Inr h(2,4), of st'] tick_unlisted(1) [OF h(1,3) st'] Inr st' by simp
    qed
  qed simp_all
  have "serial_lines q (map (visit_of tm c n) ticks) = []" if "n \<notin> serials ticks" for q ticks
    using that
  proof (induction ticks arbitrary: q)
    case (Cons tm' ticks)
    obtain t ms where x: "tm' = (t, ms)" by fastforce
    have n: "n \<notin> m_Serial ` set ms" "n \<notin> serials ticks" using Cons.prems by (auto simp: serials_def x)
    then have "find (\<lambda>m. m_Serial m = n) ms = None" by (simp only: find_serial(1) not_False_eq_True)
    then show ?case using Cons.IH [OF n(2)] by (simp add: x visit_of_def visit_lines_def)
  qed simp
  then show "serial_lines p (map (visit_of tm c n) (live_ticks c es)) = []" using assms(2) by blast
qed

section \<open>Properties\<close>

text \<open>
  C12. Exactly-once delivery by the whole program. Let the loop run over any sequence of ticks and signals, in which
  machines come and go, requests fail, logs grow and are reset, and the workers of each tick take effect in any
  order, on a file system without faults. Then the lines on the standard output are exactly those that are due: they can
  be attributed to serials such that the lines of every serial are the events that were new at its visits, each once,
  oldest first, up to the tick at which the loop ends, and there is no line for a serial that is never listed. A machine
  that leaves the list loses its pointer file, so all its events count as new when it comes back.
\<close>

theorem collector_exactly_once:
  assumes "time_ok tm" and "out st = []"
    and "list_all (tick_ok c (serials (live_ticks c es))) (live_ticks c es)"
    and "\<forall>n \<in> serials (live_ticks c es). ptrs st (path_join (ptrDir c) n) = None
          \<and> serial_history (0, []) (map (visit_of tm c n) (live_ticks c es))"
  shows "\<exists>tagged. out (snd (doLogScrapingLoop tm logProd_write c es st)) = map snd tagged
    \<and> (\<forall>n. lines_of n tagged = serial_lines (0, []) (map (visit_of tm c n) (live_ticks c es)))"
proof -
  define st2 :: "(string \<times> string) list lc_state" where "st2 = map_out (\<lambda>_. []) st"
  have st: "st = map_out (map snd) st2" using assms(2) by (simp add: st2_def map_out_def)
  let ?tagged = "out (snd (doLogScrapingLoop tm tagged_write c es st2))"
  have "out (snd (doLogScrapingLoop tm logProd_write c es st)) = map snd ?tagged"
    unfolding st forget.loop_sim by simp
  moreover have "lines_of n ?tagged = serial_lines (0, []) (map (visit_of tm c n) (live_ticks c es))" for n
  proof (cases "n \<in> serials (live_ticks c es)")
    case True
    have "plain_serial n"
      using True assms(3) by (auto simp: serials_def list_all_iff tick_ok_def fleet_ok_def)
    moreover have "at_position c n 0 [] st2" using True assms(4) by (intro at_start) (simp add: st2_def)
    ultimately show ?thesis
      using loop_delivers [OF assms(1,3) True, of "(0, [])" st2] True assms(4) by (simp add: st2_def lines_of_def)
  next
    case False
    then show ?thesis using loop_silent [OF assms(3) False] by (simp add: st2_def lines_of_def)
  qed
  ultimately show ?thesis by blast
qed

definition demo_machine2 :: Machine where
  "demo_machine2 = \<lparr>m_Serial = ''S2'', m_BmcIP = ''10.0.0.2'', m_NodeIP = ''10.1.0.2''\<rparr>"

definition demo_tick :: "Machine list \<Rightarrow> (string, int \<times> (string, string) result) result \<Rightarrow> tick" where
  "demo_tick ms r2 = \<lparr>tk_env = quiet_fs_env,
     tk_client = (\<lambda>m. demo_client (if m = demo_machine2 then r2 else Inr (200, Inr (demo_body [''2'', ''1''])))),
     tk_config = [''/m'' \<mapsto> print_json (enc_slice machine_json ms)], tk_order = rev,
     tk_listdir = (\<lambda>fs. map (\<lambda>n. (n, False)) (filter (\<lambda>n. fs (path_join ''/p'' n) \<noteq> None) [''S1'', ''S2'']))\<rparr>"

text \<open>Two machines over four ticks: in the second a BMC is down, in the third the other machine is not listed.\<close>

definition demo_events :: "scrape_event list" where
  "demo_events = [Ticker (demo_tick [demo_machine, demo_machine2] (Inr (200, Inr (demo_body [''1''])))),
     Ticker (demo_tick [demo_machine2, demo_machine] (Inl ''down'')),
     Ticker (demo_tick [demo_machine2] (Inr (200, Inr (demo_body [''2'', ''1''])))),
     Ticker (demo_tick [demo_machine, demo_machine2] (Inr (200, Inr (demo_body [''2'', ''1''])))),
     Signal, Ticker (demo_tick [] (Inl ''x''))]"

lemma demo_listed [simp]:
  "list_all machine_ok ms \<Longrightarrow> tk_machines demo_collector (demo_tick ms r) = Inr ms"
  using machines_roundtrip [of ms]
  by (simp add: demo_tick_def tk_machines_def readMachineList_def fs_read_def quiet_fs_env_def demo_collector_def)

lemma demo_machines_readable [simp]: "machine_ok demo_machine" "machine_ok demo_machine2"
  by (simp_all add: machine_ok_def demo_machine_def demo_machine2_def ascii_def)

lemma demo_live:
  "live_ticks demo_collector demo_events =
     [(demo_tick [demo_machine, demo_machine2] (Inr (200, Inr (demo_body [''1'']))), [demo_machine, demo_machine2]),
      (demo_tick [demo_machine2, demo_machine] (Inl ''down''), [demo_machine2, demo_machine]),
      (demo_tick [demo_machine2] (Inr (200, Inr (demo_body [''2'', ''1'']))), [demo_machine2]),
      (demo_tick [demo_machine, demo_machine2] (Inr (200, Inr (demo_body [''2'', ''1'']))), [demo_machine, demo_machine2])]"
  by (simp add: demo_events_def)

lemma demo_serials: "serials (live_ticks demo_collector demo_events) = {''S1'', ''S2''}"
  by (auto simp: demo_live serials_def demo_machine_def demo_machine2_def)

lemma demo_ticks_ok:
  "list_all (tick_ok demo_collector {''S1'', ''S2''}) (live_ticks demo_collector demo_events)"
proof -
  have "ptrDir demo_collector = ''/p''" by (simp add: demo_collector_def)
  then show ?thesis
    by (auto simp: demo_live tick_ok_def fleet_ok_def demo_tick_def demo_machine_def demo_machine2_def
        plain_serial_def demo_client_ascii ascii_def int64_range_def)
qed

lemma demo_visits:
  "map (visit_of demo_time demo_collector ''S1'') (live_ticks demo_collector demo_events)
     = [Some (demo_machine, Some (7, [ev ''1'', ev ''2''])), Some (demo_machine, Some (7, [ev ''1'', ev ''2''])), None,
        Some (demo_machine, Some (7, [ev ''1'', ev ''2'']))]"
  "map (visit_of demo_time demo_collector ''S2'') (live_ticks demo_collector demo_events)
     = [Some (demo_machine2, Some (7, [ev ''1''])), Some (demo_machine2, None), Some (demo_machine2, Some (7, [ev ''1'', ev ''2''])),
        Some (demo_machine2, Some (7, [ev ''1'', ev ''2'']))]"
proof -
  have ne: "demo_machine \<noteq> demo_machine2" and sn: "m_Serial demo_machine = ''S1''" "m_Serial demo_machine2 = ''S2''"
    by (simp_all add: demo_machine_def demo_machine2_def)
  have f: "fetched demo_time demo_collector m (demo_client (Inr (200, Inr (demo_body [''2'', ''1''])))) = Some (7, [ev ''1'', ev ''2''])"
    "fetched demo_time demo_collector m (demo_client (Inr (200, Inr (demo_body [''1''])))) = Some (7, [ev ''1''])"
    "fetched demo_time demo_collector m (demo_client (Inl ''down'')) = None" for m
    by (simp_all add: fetched_def requestToBmc_def demo_client_def demo_time_def demo_body_decoded ascii_def ev_def zero_redfish_def)
  show "map (visit_of demo_time demo_collector ''S1'') (live_ticks demo_collector demo_events)
     = [Some (demo_machine, Some (7, [ev ''1'', ev ''2''])), Some (demo_machine, Some (7, [ev ''1'', ev ''2''])), None,
        Some (demo_machine, Some (7, [ev ''1'', ev ''2'']))]"
    "map (visit_of demo_time demo_collector ''S2'') (live_ticks demo_collector demo_events)
     = [Some (demo_machine2, Some (7, [ev ''1''])), Some (demo_machine2, None), Some (demo_machine2, Some (7, [ev ''1'', ev ''2''])),
        Some (demo_machine2, Some (7, [ev ''1'', ev ''2'']))]"
    using ne by (simp_all add: demo_live visit_of_def demo_tick_def f sn)
qed

text \<open>The machine that comes back is read from its first event again.\<close>

theorem collector_exactly_once_witness:
  "\<exists>tagged. out (snd (doLogScrapingLoop demo_time logProd_write demo_collector demo_events demo_state)) = map snd tagged
     \<and> lines_of ''S1'' tagged = map (event_text demo_machine) [ev ''1'', ev ''2'', ev ''1'', ev ''2'']
     \<and> lines_of ''S2'' tagged = map (event_text demo_machine2) [ev ''1'', ev ''2'']"
proof -
  have h: "serial_history (0, []) (map (visit_of demo_time demo_collector ''S1'') (live_ticks demo_collector demo_events))"
      "serial_history (0, []) (map (visit_of demo_time demo_collector ''S2'') (live_ticks demo_collector demo_events))"
    unfolding demo_visits
    by (simp_all add: visit_ok_def visit_moved_def moved_def id_ok_def event_id_def ev_def zero_sel_def demo_ids)
  then have "\<forall>n \<in> serials (live_ticks demo_collector demo_events). ptrs demo_state (path_join (ptrDir demo_collector) n) = None
      \<and> serial_history (0, []) (map (visit_of demo_time demo_collector n) (live_ticks demo_collector demo_events))"
    unfolding demo_serials by (simp add: demo_state_def)
  then obtain tagged
    where "out (snd (doLogScrapingLoop demo_time logProd_write demo_collector demo_events demo_state)) = map snd tagged"
      and l: "\<forall>n. lines_of n tagged
        = serial_lines (0, []) (map (visit_of demo_time demo_collector n) (live_ticks demo_collector demo_events))"
    using collector_exactly_once [OF demo_time_ok, of demo_state demo_collector demo_events] demo_ticks_ok
    unfolding demo_serials by (auto simp: demo_state_def)
  moreover have "lines_of ''S1'' tagged = map (event_text demo_machine) [ev ''1'', ev ''2'', ev ''1'', ev ''2'']"
      "lines_of ''S2'' tagged = map (event_text demo_machine2) [ev ''1'', ev ''2'']"
    using l [rule_format, of "''S1''"] l [rule_format, of "''S2''"] unfolding demo_visits
    by (simp_all add: visit_lines_def visit_moved_def moved_def)
  ultimately show ?thesis by blast
qed

end
