(* ===== verification/Bmc_Proxy.thy ===== *)
theory Bmc_Proxy
  imports Prelude
begin

text \<open>
  The BMC reverse proxy: the resolution of the requested host name to the address of a BMC, the director of
  the tunnels, the two caches, the loop that refreshes them, and the program as a sequence of refreshes, openings of ports,
  connections and signals. Loading the key pair, reading the ConfigMap and listening on a port are arguments. The
  HTTP transport behind the director is left out.
\<close>

section \<open>Host names\<close>

text \<open>The regular expression \<open>-(boot-\d+)$\<close>: its first group at the leftmost match.\<close>

definition is_boot :: "string \<Rightarrow> bool" where
  "is_boot s \<longleftrightarrow> has_prefix s ''boot-'' \<and> drop 5 s \<noteq> [] \<and> list_all is_digit (drop 5 s)"

fun boot_match :: "string \<Rightarrow> string option" where
  "boot_match [] = None"
| "boot_match (c # cs) = (if c = CHR ''-'' \<and> is_boot cs then Some cs else boot_match cs)"

definition getHostname :: "string \<Rightarrow> string" where
  "getHostname fqdn =
     (let hostname = split_on CHR ''.'' fqdn ! 0
      in case boot_match hostname of Some b \<Rightarrow> b | None \<Rightarrow> hostname)"

section \<open>Director\<close>

record request =
  Host :: string
  URL_Host :: string
  URL_Scheme :: string

datatype proxy_log = ResolveFailed string | MapNotSet

text \<open>\<open>net.JoinHostPort\<close>.\<close>

definition join_host_port :: "string \<Rightarrow> string \<Rightarrow> string" where
  "join_host_port h p =
     (if CHR '':'' \<in> set h then ''['' @ h @ '']:'' @ p else h @ '':'' @ p)"

definition directorToInner ::
  "request \<Rightarrow> nat \<Rightarrow> (string \<rightharpoonup> string) \<Rightarrow> request \<times> proxy_log list" where
  "directorToInner req inner resolveMap =
     (let hostname = getHostname (Host req);
          found = (case resolveMap hostname of
                     Some a \<Rightarrow> Some a | None \<Rightarrow> resolveMap (to_upper hostname));
          (address, logs) = (case found of
                               Some a \<Rightarrow> (a, []) | None \<Rightarrow> (''0.0.0.0'', [ResolveFailed hostname]))
      in (req\<lparr>URL_Host := join_host_port address (show_nat inner), URL_Scheme := ''https''\<rparr>, logs))"

section \<open>Caches\<close>

record 'c caches =
  certificateCache :: "'c option"
  resolveMapCache :: "(string \<rightharpoonup> string) option"

text \<open>The director of \<open>makeTunnel\<close>; an unset cache acts as a nil map.\<close>

definition tunnel_director :: "nat \<Rightarrow> 'c caches \<Rightarrow> request \<Rightarrow> request \<times> proxy_log list" where
  "tunnel_director inner c req =
     (case resolveMapCache c of
        Some m \<Rightarrow> directorToInner req inner m
      | None \<Rightarrow> let (r, logs) = directorToInner req inner Map.empty in (r, MapNotSet # logs))"

definition certFileName :: string where
  "certFileName = ''/etc/bmc-reverse-proxy/tls.crt''"

definition keyFileName :: string where
  "keyFileName = ''/etc/bmc-reverse-proxy/tls.key''"

definition updateCertificate :: "(string, 'c) result \<Rightarrow> 'c caches \<Rightarrow> (string, unit) result \<times> 'c caches" where
  "updateCertificate loaded c =
     (case loaded of
        Inl e \<Rightarrow> (Inl (''failed to load x509 key pair from ('' @ certFileName @ '', '' @ keyFileName @ ''): '' @ e), c)
      | Inr crt \<Rightarrow> (Inr (), c\<lparr>certificateCache := Some crt\<rparr>))"

definition bmcProxyConfigMapName :: string where
  "bmcProxyConfigMapName = ''bmc-reverse-proxy''"

text \<open>The verb \<open>%q\<close> on a text without characters to escape.\<close>

definition quoted :: "string \<Rightarrow> string" where
  "quoted s = CHR 0x22 # s @ [CHR 0x22]"

definition updateResolveMap ::
  "(string, string) result \<Rightarrow> (string \<Rightarrow> string \<Rightarrow> (string, string \<rightharpoonup> string) result) \<Rightarrow> 'c caches
     \<Rightarrow> (string, unit) result \<times> 'c caches" where
  "updateResolveMap namespace get_configmap c =
     (case namespace of
        Inl e \<Rightarrow> (Inl (''failed to get namespace: '' @ e), c)
      | Inr ns \<Rightarrow>
          (case get_configmap ns bmcProxyConfigMapName of
             Inl e \<Rightarrow> (Inl (''failed to get ConfigMap '' @ quoted bmcProxyConfigMapName @ '': '' @ e), c)
           | Inr data \<Rightarrow> (Inr (), c\<lparr>resolveMapCache := Some data\<rparr>)))"

definition getCertificate :: "'c caches \<Rightarrow> (string, 'c) result" where
  "getCertificate c =
     (case certificateCache c of None \<Rightarrow> Inl ''certificate is not loaded'' | Some crt \<Rightarrow> Inr crt)"

text \<open>One round of the refresh loop of \<open>main\<close>; an error ends the loop.\<close>

definition refresh ::
  "(string, 'c) result \<Rightarrow> (string, string) result \<Rightarrow> (string \<Rightarrow> string \<Rightarrow> (string, string \<rightharpoonup> string) result)
     \<Rightarrow> 'c caches \<Rightarrow> (string, unit) result \<times> 'c caches" where
  "refresh loaded namespace get_configmap c =
     (case updateCertificate loaded c of
        (Inl e, c1) \<Rightarrow> (Inl e, c1)
      | (Inr _, c1) \<Rightarrow> updateResolveMap namespace get_configmap c1)"

section \<open>Facts\<close>

lemma digit_not_dash: "is_digit c \<Longrightarrow> c \<noteq> CHR ''-''"
  by (auto simp: is_digit_def)

lemma boot_match_digits: "list_all is_digit ds \<Longrightarrow> boot_match ds = None"
  by (induction ds) (auto simp: digit_not_dash)

lemma is_boot_digits: "ds \<noteq> [] \<Longrightarrow> list_all is_digit ds \<Longrightarrow> is_boot (''boot-'' @ ds)"
  by (simp add: is_boot_def has_prefix_def)

lemma is_bootD: "is_boot s \<Longrightarrow> \<exists>es. s = ''boot-'' @ es \<and> list_all is_digit es"
  unfolding is_boot_def has_prefix_iff by auto

lemma boot_match_boot: "list_all is_digit ds \<Longrightarrow> boot_match (''boot-'' @ ds) = None"
  by (cases ds) (auto simp: boot_match_digits is_boot_def has_prefix_def is_digit_def)

text \<open>A text that ends in \<open>-boot-\<close> and digits matches there and nowhere before.\<close>

lemma boot_match_prefix:
  assumes "ds \<noteq> []" and "list_all is_digit ds"
  shows "boot_match (pre @ ''-boot-'' @ ds) = Some (''boot-'' @ ds)"
proof (induction pre)
  case Nil
  then show ?case using is_boot_digits [OF assms] by simp
next
  case (Cons c pre)
  have "\<not> is_boot (pre @ ''-boot-'' @ ds)"
  proof
    assume "is_boot (pre @ ''-boot-'' @ ds)"
    then obtain es where es: "pre @ ''-boot-'' @ ds = ''boot-'' @ es" "list_all is_digit es"
      by (blast dest: is_bootD)
    have "filter (\<lambda>c. c = CHR ''-'') es = []" using es(2) by (auto simp: filter_empty_conv list_all_iff digit_not_dash)
    then have one: "length (filter (\<lambda>c. c = CHR ''-'') (''boot-'' @ es)) = 1" by simp
    have "2 \<le> length (filter (\<lambda>c. c = CHR ''-'') (pre @ ''-boot-'' @ ds))" by simp
    then show False unfolding es(1) one by simp
  qed
  then show ?case using Cons by simp
qed

lemma getHostname_plain:
  assumes "CHR ''.'' \<notin> set h" and "boot_match h = None"
  shows "getHostname (h @ CHR ''.'' # rest) = h"
  using assms by (simp add: getHostname_def split_on_append)

lemma getHostname_boot:
  assumes "CHR ''.'' \<notin> set pre"
  shows "getHostname ((pre @ ''-boot-'' @ show_nat n) @ CHR ''.'' # rest) = ''boot-'' @ show_nat n"
proof -
  have "CHR ''.'' \<notin> set (show_nat n)"
    using show_nat_digits [of n] by (auto simp: list_all_iff is_digit_def)
  then have "split_on CHR ''.'' ((pre @ ''-boot-'' @ show_nat n) @ CHR ''.'' # rest)
      = (pre @ ''-boot-'' @ show_nat n) # split_on CHR ''.'' rest"
    using assms by (intro split_on_append) simp
  moreover have "boot_match (pre @ ''-boot-'' @ show_nat n) = Some (''boot-'' @ show_nat n)"
    using boot_match_prefix [OF _ show_nat_digits] by simp
  ultimately show ?thesis unfolding getHostname_def Let_def by simp
qed

text \<open>
  The first labels of host names that stand for a published name \<open>k\<close>: the name itself, the full name of a boot server,
  or a lower-case form of an upper-case serial.
\<close>

definition host_for :: "(string \<rightharpoonup> string) \<Rightarrow> string \<Rightarrow> string \<Rightarrow> bool" where
  "host_for names k h \<longleftrightarrow> CHR ''.'' \<notin> set h \<and>
     ((h = k \<and> boot_match h = None)
    \<or> (\<exists>pre n. h = pre @ ''-boot-'' @ show_nat n \<and> k = ''boot-'' @ show_nat n)
    \<or> (boot_match h = None \<and> names h = None \<and> to_upper h = k))"

lemma director_resolves:
  assumes "host_for names k h" and "names k = Some addr" and "Host req = h @ CHR ''.'' # rest"
  shows "directorToInner req inner names
    = (req\<lparr>URL_Host := join_host_port addr (show_nat inner), URL_Scheme := ''https''\<rparr>, [])"
proof -
  let ?n = "getHostname (Host req)"
  have "names ?n = Some addr \<or> (names ?n = None \<and> names (to_upper ?n) = Some addr)"
    using assms getHostname_plain [of h rest] getHostname_boot by (auto simp: host_for_def)
  then show ?thesis by (auto simp: directorToInner_def Let_def)
qed

section \<open>Properties\<close>

text \<open>
  Refreshing is safe under failures: a round that fails leaves the resolve map of the last good round (and
  the certificate, unless a new one was loaded) in the caches, so that requests are still directed; a
  round that succeeds replaces both.
\<close>

theorem refresh_keeps_last:
  "case refresh loaded namespace get_configmap c of
     (Inl e, c') \<Rightarrow> resolveMapCache c' = resolveMapCache c
        \<and> certificateCache c' = (case loaded of Inl _ \<Rightarrow> certificateCache c | Inr crt \<Rightarrow> Some crt)
   | (Inr _, c') \<Rightarrow> \<exists>crt ns data. loaded = Inr crt \<and> namespace = Inr ns
        \<and> get_configmap ns ''bmc-reverse-proxy'' = Inr data
        \<and> getCertificate c' = Inr crt
        \<and> (\<forall>inner req. tunnel_director inner c' req = directorToInner req inner data)"
  by (auto simp: refresh_def updateCertificate_def updateResolveMap_def getCertificate_def tunnel_director_def
      bmcProxyConfigMapName_def split: sum.splits)

section \<open>The program\<close>

text \<open>The tunnels: the external port and the port of the BMC.\<close>

definition tunnels :: "(nat \<times> nat) list" where
  "tunnels = [(8443, 443), (5900, 5900)]"

text \<open>\<open>makeTunnel\<close>: a port that cannot be listened on is an error; else the server serves it in the background and the
  port joins those that are open.\<close>

definition makeTunnel ::
  "(string \<Rightarrow> string option) \<Rightarrow> nat \<Rightarrow> nat \<Rightarrow> (nat \<times> nat) list \<Rightarrow> (string, (nat \<times> nat) list) result" where
  "makeTunnel net_listen inner external ports =
     (let addr = '':'' @ show_nat external
      in case net_listen addr of
           Some e \<Rightarrow> Inl (''failed to listen on '' @ quoted addr @ '': '' @ e)
         | None \<Rightarrow> Inr ((external, inner) # ports))"

text \<open>A connection on an external port: the port must be open, the handshake needs a certificate, then the director rewrites
  the request.\<close>

definition tunnel_serve :: "(nat \<times> nat) list \<Rightarrow> nat \<Rightarrow> 'c caches \<Rightarrow> request \<Rightarrow> (request \<times> proxy_log list) option" where
  "tunnel_serve ports external c req =
     (case map_of ports external of
        None \<Rightarrow> None
      | Some inner \<Rightarrow>
          (case getCertificate c of Inl e \<Rightarrow> None | Inr _ \<Rightarrow> Some (tunnel_director inner c req)))"

text \<open>
  The goroutines of \<open>main\<close> share the two caches: the refresh loop loads the certificate and the map, one after the
  other, two goroutines open the tunnels, and the program ends when any of them fails or a signal arrives. How the
  goroutines interleave with each other and with the connections of clients is the order of the events.
\<close>

datatype 'c proxy_event =
    LoadCertificate "(string, 'c) result"
  | LoadMap "(string, string) result" "string \<Rightarrow> string \<Rightarrow> (string, string \<rightharpoonup> string) result"
  | OpenTunnel nat nat "string \<Rightarrow> string option"
  | Connection nat request
  | Signal

datatype proxy_end = Failed string | Signaled

fun proxy_run ::
  "'c proxy_event list \<Rightarrow> (nat \<times> nat) list \<Rightarrow> 'c caches
     \<Rightarrow> (request \<times> proxy_log list) option list \<times> 'c caches \<times> proxy_end option" where
  "proxy_run [] ports c = ([], c, None)"
| "proxy_run (LoadCertificate loaded # es) ports c =
     (case updateCertificate loaded c of
        (Inl e, c') \<Rightarrow> ([], c', Some (Failed e))
      | (Inr _, c') \<Rightarrow> proxy_run es ports c')"
| "proxy_run (LoadMap namespace get_configmap # es) ports c =
     (case updateResolveMap namespace get_configmap c of
        (Inl e, c') \<Rightarrow> ([], c', Some (Failed e))
      | (Inr _, c') \<Rightarrow> proxy_run es ports c')"
| "proxy_run (OpenTunnel inner external net_listen # es) ports c =
     (case makeTunnel net_listen inner external ports of
        Inl e \<Rightarrow> ([], c, Some (Failed e))
      | Inr ports' \<Rightarrow> proxy_run es ports' c)"
| "proxy_run (Connection external req # es) ports c =
     (case proxy_run es ports c of (served, c', res) \<Rightarrow> (tunnel_serve ports external c req # served, c', res))"
| "proxy_run (Signal # es) ports c = ([], c, Some Signaled)"

text \<open>\<open>main\<close>: what was served, and whether the process runs on. An error ends it with status 1, a signal with status 0.\<close>

definition proxy_main ::
  "string option \<Rightarrow> string option \<Rightarrow> string option \<Rightarrow> 'c proxy_event list
     \<Rightarrow> (request \<times> proxy_log list) option list \<times> 'c caches process" where
  "proxy_main log_err config_err client_err events =
     (if log_err \<noteq> None then ([], Exited 1)
      else if config_err \<noteq> None then ([], Exited 1)
      else if client_err \<noteq> None then ([], Exited 1)
      else case proxy_run events [] \<lparr>certificateCache = None, resolveMapCache = None\<rparr> of
        (served, c, None) \<Rightarrow> (served, Running c)
      | (served, _, Some (Failed e)) \<Rightarrow> (served, Exited 1)
      | (served, _, Some Signaled) \<Rightarrow> (served, Exited 0))"

text \<open>The last certificate and map that were loaded, and the ports that are open.\<close>

fun latest_loaded :: "'c proxy_event list \<Rightarrow> 'c caches \<Rightarrow> 'c caches" where
  "latest_loaded [] c = c"
| "latest_loaded (LoadCertificate (Inr crt) # es) c = latest_loaded es (c\<lparr>certificateCache := Some crt\<rparr>)"
| "latest_loaded (LoadMap (Inr ns) get # es) c =
     latest_loaded es (case get ns bmcProxyConfigMapName of Inr m \<Rightarrow> c\<lparr>resolveMapCache := Some m\<rparr> | Inl _ \<Rightarrow> c)"
| "latest_loaded (_ # es) c = latest_loaded es c"

fun opened :: "'c proxy_event list \<Rightarrow> (nat \<times> nat) list \<Rightarrow> (nat \<times> nat) list" where
  "opened [] ports = ports"
| "opened (OpenTunnel inner external _ # es) ports = opened es ((external, inner) # ports)"
| "opened (_ # es) ports = opened es ports"

text \<open>While the program runs, a connection on an open port is served with the certificate and the map that were loaded last
  before it: refused without a certificate, forwarded to nowhere without a map.\<close>

lemma proxy_run_append:
  "snd (snd (proxy_run es ports c)) = None \<Longrightarrow>
   proxy_run (es @ es') ports c =
     (case proxy_run es' (opened es ports) (latest_loaded es c) of
        (served, c', res) \<Rightarrow> (fst (proxy_run es ports c) @ served, c', res))
   \<and> fst (snd (proxy_run es ports c)) = latest_loaded es c"
proof (induction es ports c rule: proxy_run.induct)
  case (2 loaded es ports c)
  then show ?case by (cases loaded) (auto simp: updateCertificate_def split: prod.splits)
next
  case (3 namespace get es ports c)
  then show ?case
    by (cases namespace) (auto simp: updateResolveMap_def split: sum.splits prod.splits)
next
  case (4 inner external net_listen es ports c)
  then show ?case by (auto simp: makeTunnel_def Let_def split: option.splits prod.splits)
next
  case (5 external req es ports c)
  then show ?case by (auto split: prod.splits)
qed simp_all

lemma proxy_serves_latest:
  assumes "snd (snd (proxy_run es ports c)) = None" and "certificateCache (latest_loaded es c) = Some crt"
    and "map_of (opened es ports) external = Some inner"
  shows "fst (proxy_run (es @ [Connection external req]) ports c)
    = fst (proxy_run es ports c) @ [Some (tunnel_director inner (latest_loaded es c) req)]"
  using proxy_run_append [OF assms(1), of "[Connection external req]"] assms(2,3)
  by (simp add: tunnel_serve_def getCertificate_def)

text \<open>Before a certificate is loaded no request is forwarded, and a program that has ended serves nothing.\<close>

lemma proxy_refuses:
  assumes "snd (snd (proxy_run es ports c)) = None" and "certificateCache (latest_loaded es c) = None"
  shows "fst (proxy_run (es @ [Connection external req]) ports c) = fst (proxy_run es ports c) @ [None]"
  using proxy_run_append [OF assms(1), of "[Connection external req]"] assms(2)
  by (simp add: tunnel_serve_def getCertificate_def split: option.splits)

lemma proxy_ended: "snd (snd (proxy_run es ports c)) = Some e \<Longrightarrow> proxy_run (es @ es') ports c = proxy_run es ports c"
proof (induction es ports c rule: proxy_run.induct)
  case (5 external req es ports c)
  then show ?case by (auto split: prod.splits)
qed (auto split: sum.splits prod.splits)

end
