(* ===== verification/Fleet.thy ===== *)
theory Fleet
  imports Machines_Endpoints Collector_Main Bmc_Proxy
begin

text \<open>
  Three programs around one list of machines: machines-endpoints reads it from sabakan and publishes it in two ConfigMaps,
  bmc-log-collector reads one of them as a mounted file and bmc-reverse-proxy the other through the API. The programs share
  the names of the ConfigMaps, the key of the file and the JSON names of its fields only by convention; this theory shows that
  the conventions agree, from sabakan's answer to the machines that are scraped and the BMC that gets a request.

  Between the programs stand the API server, of which the theorem assumes that an applied ConfigMap can be read, and the
  mount of a ConfigMap as a directory with a file for each key.
\<close>

section \<open>ConfigMaps\<close>

text \<open>Applying a ConfigMap stores its data under its name, for a name that no one else writes.\<close>

definition configmaps_api :: "'w k8s_api \<Rightarrow> string \<Rightarrow> ('w \<Rightarrow> string \<rightharpoonup> (string \<rightharpoonup> string)) \<Rightarrow> bool" where
  "configmaps_api api ns cm \<longleftrightarrow>
     (\<forall>name d w w'. apply_configmap api ns name d w = (Inr (), w') \<longrightarrow> cm w' = (cm w)(name \<mapsto> d))"

text \<open>The files of a mounted ConfigMap, and what a client of the API server reads.\<close>

definition mounted :: "string \<Rightarrow> (string \<rightharpoonup> string) \<Rightarrow> files" where
  "mounted dir d p = (if has_prefix p (dir @ ''/'') then d (drop (length dir + 1) p) else None)"

definition get_configmap :: "(string \<rightharpoonup> (string \<rightharpoonup> string)) \<Rightarrow> string \<Rightarrow> string \<Rightarrow> (string, string \<rightharpoonup> string) result" where
  "get_configmap cms ns name = (case cms name of None \<Rightarrow> Inl ''not found'' | Some d \<Rightarrow> Inr d)"

lemma applyConfigMap_cm:
  assumes "configmaps_api api ns cm" and "kube_namespace api = Inr ns" and "\<not> dryRun c"
    and "applyConfigMap c api name d st = (Inr (), st')"
  shows "cm (cluster st') = (cm (cluster st))(name \<mapsto> d)"
  using assms unfolding configmaps_api_def
  by (auto simp: applyConfigMap_def print_or_apply_def split: sum.splits prod.splits)

lemma and_then_ok: "and_then r f = (Inr (), st') \<longleftrightarrow> (\<exists>st. r = (Inr (), st) \<and> f st = (Inr (), st'))"
  by (auto simp: and_then_def split: prod.splits sum.splits)

text \<open>The two ConfigMaps of a list of machines.\<close>

definition publishes :: "Machines_Endpoints.Machine list \<Rightarrow> (string \<rightharpoonup> (string \<rightharpoonup> string)) \<Rightarrow> bool" where
  "publishes ms cms \<longleftrightarrow> cms ''bmc-reverse-proxy'' = Some (bmcReverseProxyConfigMapData ms)
    \<and> cms ''bmc-log-collector''
        = Some [''machineslist.json'' \<mapsto> print_json (enc_slice serial_ip_json (log_collector_machines ms))]"

lemma apply_all_cm:
  assumes "configmaps_api api ns cm" and "kube_namespace api = Inr ns" and "\<not> dryRun c"
    and "flgBMCReverseProxyConfigMap fl" and "flgBMCLogCollectorConfigMap fl"
    and "apply_all env fl c api ap bp ms st = (Inr (), st')"
  shows "publishes ms (cm (cluster st'))"
proof -
  obtain st1 st2 where "applyConfigMap c api bmcReverseProxyConfigMapName (bmcReverseProxyConfigMapData ms) st1 = (Inr (), st2)"
      "applyConfigMap c api bmcLogCollectorConfigMapName
         [''machineslist.json'' \<mapsto> print_json (enc_slice serial_ip_json (log_collector_machines ms))] st2 = (Inr (), st')"
    using assms(4-6) by (auto simp: apply_all_def and_then_ok bmcLogCollectorConfigMapData_def json_Marshal_def)
  from this [THEN applyConfigMap_cm [OF assms(1-3)]] show ?thesis
    by (simp add: publishes_def bmcReverseProxyConfigMapName_def bmcLogCollectorConfigMapName_def)
qed

text \<open>Sabakan answers the program's request with the list.\<close>

definition sabakan_lists :: "'w me_world \<Rightarrow> flags \<Rightarrow> Machines_Endpoints.Machine list \<Rightarrow> bool" where
  "sabakan_lists world fl ms \<longleftrightarrow> list_all machine_printable ms
     \<and> (\<exists>e. query world (''http://'' @ flgSabakanAddress fl @ ''/graphql'') (print_json (TObj [(''query'', TStr graphQLQuery)]))
          = Inr (200, \<lparr>stream_bytes = sabakan_answer ms, stream_error = e\<rparr>))"

lemma subMain_publishes:
  assumes "subMain world fl st = (Inr (), st')" and "\<not> flgDryRun fl" and "flgBMCReverseProxyConfigMap fl"
    and "flgBMCLogCollectorConfigMap fl" and "sabakan_lists world fl ms"
    and "kube_config world = Inr api" and "kube_namespace api = Inr ns" and "configmaps_api api ns cm"
  shows "publishes (sort_func world ms) (cm (cluster st'))"
proof -
  have "getMachines (query world) (sort_func world) (flgSabakanAddress fl) = Inr (sort_func world ms)"
    using assms(5) getMachines_answer [of ms "query world"] unfolding sabakan_lists_def by blast
  then obtain ap bp where "apply_all world fl \<lparr>dryRun = flgDryRun fl, marshal_indent = marshal_res world\<rparr> api ap bp (sort_func world ms) st
      = (Inr (), st')"
    using assms(1,6) by (auto simp: subMain_def newKubernetesClient_def split: sum.splits option.splits if_splits)
  from apply_all_cm [OF assms(8,7) _ assms(3,4) this] show ?thesis using assms(2) by simp
qed

section \<open>The log collector\<close>

text \<open>A machine as the collector sees it. The structs of the two programs have the same JSON names.\<close>

definition scraped_machine :: "Machines_Endpoints.Machine \<Rightarrow> Collector_Data.Machine" where
  "scraped_machine m = \<lparr>m_Serial = Machines_Endpoints.Serial m, m_BmcIP = BMC_IPv4 m, m_NodeIP = IPv4 m ! 0\<rparr>"

lemma published_list:
  "enc_slice serial_ip_json (log_collector_machines ms) = enc_slice machine_json (map scraped_machine (filter has_bmc ms))"
proof -
  have bmc: "(\<lambda>m. \<not> (BMC_IPv4 m = [] \<or> \<not> hasIPv4 m)) = has_bmc" by (simp add: fun_eq_iff has_bmc_def)
  show ?thesis
    unfolding log_collector_machines_def bmc enc_slice_def
    by (simp add: serial_ip_json_def machine_json_def scraped_machine_def)
qed

lemma scraped_ok: "machine_printable m \<Longrightarrow> has_bmc m \<Longrightarrow> machine_ok (scraped_machine m)"
  by (auto simp: machine_printable_def has_bmc_def hasIPv4_def machine_ok_def scraped_machine_def list_all_iff)

lemma collector_reads:
  assumes "publishes ms cms" and "cms ''bmc-log-collector'' = Some d" and "list_all machine_printable ms"
    and "machinesListDir c = dir @ ''/machineslist.json''" and "quiet_fs (tk_env t)" and "tk_config t = mounted dir d"
  shows "tk_machines c t = Inr (map scraped_machine (filter has_bmc ms))"
proof -
  have "fs_read (tk_env t) (tk_config t) (machinesListDir c)
      = Inr (print_json (enc_slice machine_json (map scraped_machine (filter has_bmc ms))))"
    using assms(1,2,4-6) published_list [of ms]
    by (auto simp: publishes_def fs_read_def quiet_fs_def mounted_def has_prefix_def)
  moreover have "list_all machine_ok (map scraped_machine (filter has_bmc ms))"
    using assms(3) scraped_ok by (auto simp: list_all_iff)
  ultimately show ?thesis by (simp add: tk_machines_def readMachineList_def machines_roundtrip)
qed

section \<open>The reverse proxy\<close>

lemma proxy_forwards:
  assumes "publishes ms cms" and "m \<in> set ms" and "has_bmc m" and "k \<in> bmc_keys m"
    and "\<not> (\<exists>m' \<in> set ms. has_bmc m' \<and> k \<in> bmc_keys m' \<and> BMC_IPv4 m' \<noteq> BMC_IPv4 m)"
    and "host_for (bmcReverseProxyConfigMapData ms) k h" and "Bmc_Proxy.Host req = h @ CHR ''.'' # rest"
    and "(external, inner) \<in> set tunnels" and "net_listen ('':'' @ show_nat external) = None"
  shows "fst (proxy_run [LoadCertificate (Inr crt), LoadMap (Inr ns) (get_configmap cms),
        OpenTunnel inner external net_listen, Connection external req] ports c)
    = [Some (req\<lparr>URL_Host := join_host_port (BMC_IPv4 m) (show_nat inner), URL_Scheme := ''https''\<rparr>, [])]"
proof -
  have ex: "\<exists>m \<in> set ms. has_bmc m \<and> k \<in> bmc_keys m" using assms(2-4) by blast
  have "bmcReverseProxyConfigMapData ms k = Some (BMC_IPv4 m)"
    unfolding bmcReverseProxyConfigMapData_def by (rule proxy_addresses_in [OF ex]) (use assms(5) in blast)
  note d = director_resolves [OF assms(6) this assms(7), of inner]
  let ?es = "[LoadCertificate (Inr crt), LoadMap (Inr ns) (get_configmap cms), OpenTunnel inner external net_listen]"
  have run: "snd (snd (proxy_run ?es ports c)) = None" "fst (proxy_run ?es ports c) = []" "certificateCache (latest_loaded ?es c) = Some crt"
      "resolveMapCache (latest_loaded ?es c) = Some (bmcReverseProxyConfigMapData ms)"
      "map_of (opened ?es ports) external = Some inner"
    using assms(1,9)
    by (simp_all add: makeTunnel_def publishes_def get_configmap_def updateCertificate_def updateResolveMap_def bmcProxyConfigMapName_def)
  show ?thesis
    using proxy_serves_latest [OF run(1,3,5), of req] run(2,4) d by (simp add: tunnel_director_def)
qed

end
