(* ===== verification/Cep_Checker.thy ===== *)
theory Cep_Checker
  imports Prelude "HOL-Library.Char_ord" "HOL-Library.List_Lexorder"
begin

text \<open>
  The checker of Pods against CiliumEndpoints (\<open>cep-checker/main.go\<close>): the listing of both, the second look at
  a key that is on one side only, the gauges, and one tick of the checking loop with the map of known
  missing resources. The API client is a record of what its calls return in a tick; the order in which Go
  ranges over a map is an argument.
\<close>

section \<open>Cluster objects\<close>

record Pod =
  Namespace :: string
  PodName :: string
  HostNetwork :: bool
  Phase :: string
  PodIP :: string
  owner_kinds :: "string list"

datatype api_err = IsNotFound | ApiErr string

record client =
  list_pods :: "(api_err, Pod list) result"
  list_ceps :: "(api_err, (string \<times> string) list) result"
  get_pod :: "string \<Rightarrow> string \<Rightarrow> (api_err, Pod) result"
  get_cep :: "string \<Rightarrow> string \<Rightarrow> (api_err, unit) result"

definition isTargetPod :: "bool \<Rightarrow> Pod \<Rightarrow> bool" where
  "isTargetPod ignoreJobPod pod =
     (if HostNetwork pod then False
      else if Phase pod \<noteq> ''Running'' then False
      else if PodIP pod = [] then False
      else if ignoreJobPod \<and> ''Job'' \<in> set (owner_kinds pod) then False
      else True)"

definition mk_key :: "string \<Rightarrow> string \<Rightarrow> string" where
  "mk_key ns name = ns @ ''/'' @ name"

definition getPods :: "bool \<Rightarrow> client \<Rightarrow> (api_err, string set) result" where
  "getPods ij c =
     (case list_pods c of
        Inl e \<Rightarrow> Inl e
      | Inr items \<Rightarrow> Inr (set (map (\<lambda>p. mk_key (Namespace p) (PodName p)) (filter (isTargetPod ij) items))))"

definition getCeps :: "client \<Rightarrow> (api_err, string set) result" where
  "getCeps c =
     (case list_ceps c of
        Inl e \<Rightarrow> Inl e
      | Inr items \<Rightarrow> Inr (set (map (\<lambda>(ns, name). mk_key ns name) items)))"

section \<open>Checks and gauges\<close>

definition MetricsMissingName :: string where
  "MetricsMissingName = ''cep_checker_missing''"

definition gauge_name :: "string \<Rightarrow> string \<Rightarrow> string \<Rightarrow> string" where
  "gauge_name name ns kind =
     MetricsMissingName @ ''{name='' @ CHR 0x22 # name @ CHR 0x22 # '', namespace='' @ CHR 0x22 # ns @ CHR 0x22 #
       '', resource='' @ CHR 0x22 # kind @ CHR 0x22 # ''}''"

definition key_ns :: "string \<Rightarrow> string" where
  "key_ns k = split_on CHR ''/'' k ! 0"

definition key_name :: "string \<Rightarrow> string" where
  "key_name k = split_on CHR ''/'' k ! 1"

definition key_gauge :: "string \<Rightarrow> string \<Rightarrow> string" where
  "key_gauge k kind = gauge_name (key_name k) (key_ns k) kind"

text \<open>\<open>check\<close>: the kind of the missing object, or the empty text; the set of gauges may grow.\<close>

definition check :: "bool \<Rightarrow> client \<Rightarrow> string \<Rightarrow> string set \<Rightarrow> (api_err, string) result \<times> string set" where
  "check ij c key gauges =
     (let ns = key_ns key; name = key_name key;
          cep_part = (\<lambda>podExist.
            let cep = (case get_cep c ns name of
                         Inl IsNotFound \<Rightarrow> Inr False | Inl e \<Rightarrow> Inl e | Inr _ \<Rightarrow> Inr True)
            in (case cep of
                  Inl e \<Rightarrow> (Inl e, gauges)
                | Inr cepExist \<Rightarrow>
                    if podExist \<noteq> cepExist then
                      if podExist then (Inr ''cep'', insert (gauge_name name ns ''cep'') gauges)
                      else (Inr ''pod'', insert (gauge_name name ns ''pod'') gauges)
                    else (Inr [], gauges)))
      in (case get_pod c ns name of
            Inl IsNotFound \<Rightarrow> cep_part False
          | Inl e \<Rightarrow> (Inl e, gauges)
          | Inr pod \<Rightarrow> if isTargetPod ij pod then cep_part True else (Inr [], gauges)))"

text \<open>One of the two loops of \<open>checkAll\<close>: the keys of one side that the other lacks.\<close>

fun check_loop ::
  "bool \<Rightarrow> client \<Rightarrow> string set \<Rightarrow> string list \<Rightarrow> (string \<rightharpoonup> string) \<Rightarrow> string set
     \<Rightarrow> (api_err, string \<rightharpoonup> string) result \<times> string set" where
  "check_loop ij c other [] missings gauges = (Inr missings, gauges)"
| "check_loop ij c other (key # keys) missings gauges =
     (if key \<notin> other then
        (case check ij c key gauges of
           (Inl e, g) \<Rightarrow> (Inl e, g)
         | (Inr res, g) \<Rightarrow>
             check_loop ij c other keys (if res \<noteq> [] then missings(key \<mapsto> res) else missings) g)
      else check_loop ij c other keys missings gauges)"

text \<open>\<open>ord\<close> lists a set of keys in the order Go happens to range over it.\<close>

definition checkAll ::
  "bool \<Rightarrow> client \<Rightarrow> (string set \<Rightarrow> string list) \<Rightarrow> string set \<Rightarrow> (api_err, string \<rightharpoonup> string) result \<times> string set" where
  "checkAll ij c ord gauges =
     (case getPods ij c of Inl e \<Rightarrow> (Inl e, gauges) | Inr pods \<Rightarrow>
     (case getCeps c of Inl e \<Rightarrow> (Inl e, gauges) | Inr ceps \<Rightarrow>
     (case check_loop ij c ceps (ord pods) Map.empty gauges of
        (Inl e, g) \<Rightarrow> (Inl e, g)
      | (Inr m, g) \<Rightarrow> check_loop ij c pods (ord ceps) m g)))"

section \<open>The checking loop\<close>

record cep_state =
  missingResourceNameToKind :: "string \<rightharpoonup> string"
  gauges :: "string set"

text \<open>Deleting the resolved metrics, over the keys of the known missing resources in some order.\<close>

fun resolve_loop ::
  "(string \<rightharpoonup> string) \<Rightarrow> string list \<Rightarrow> cep_state \<Rightarrow> cep_state" where
  "resolve_loop new [] st = st"
| "resolve_loop new (k # ks) st =
     (case new k of
        Some _ \<Rightarrow> resolve_loop new ks st
      | None \<Rightarrow>
          (case missingResourceNameToKind st k of
             None \<Rightarrow> resolve_loop new ks st
           | Some v \<Rightarrow>
               resolve_loop new ks
                 (st\<lparr>gauges := gauges st - {key_gauge k v},
                    missingResourceNameToKind := (missingResourceNameToKind st)(k := None)\<rparr>)))"

definition cep_tick ::
  "bool \<Rightarrow> client \<Rightarrow> (string set \<Rightarrow> string list) \<Rightarrow> cep_state \<Rightarrow> cep_state" where
  "cep_tick ij c ord st =
     (case checkAll ij c ord (gauges st) of
        (Inl e, g) \<Rightarrow> st\<lparr>gauges := g\<rparr>
      | (Inr new, g) \<Rightarrow>
          let st1 = resolve_loop new (ord (dom (missingResourceNameToKind st))) (st\<lparr>gauges := g\<rparr>)
          in st1\<lparr>missingResourceNameToKind := missingResourceNameToKind st1 ++ new\<rparr>)"

section \<open>Facts\<close>

text \<open>What a look at a key finds.\<close>

definition verdict :: "bool \<Rightarrow> client \<Rightarrow> string \<Rightarrow> (api_err, string) result" where
  "verdict ij c key = fst (check ij c key {})"

lemma check_verdict:
  "check ij c key g =
     (verdict ij c key,
      case verdict ij c key of Inr k \<Rightarrow> if k \<noteq> [] then insert (key_gauge key k) g else g | Inl _ \<Rightarrow> g)"
  by (auto simp: verdict_def check_def key_gauge_def Let_def split: sum.splits api_err.splits)

definition found :: "bool \<Rightarrow> client \<Rightarrow> string set \<Rightarrow> (string \<rightharpoonup> string)" where
  "found ij c keys k =
     (if k \<in> keys then (case verdict ij c k of Inr v \<Rightarrow> if v \<noteq> [] then Some v else None | Inl _ \<Rightarrow> None) else None)"

definition map_gauges :: "(string \<rightharpoonup> string) \<Rightarrow> string set" where
  "map_gauges m = {key_gauge k v | k v. m k = Some v}"

lemma check_loop_ok:
  assumes "check_loop ij c other keys m g = (Inr m', g')"
  shows "m' = m ++ found ij c (set keys - other) \<and> g' = g \<union> map_gauges (found ij c (set keys - other))
     \<and> (\<forall>k \<in> set keys - other. \<exists>v. verdict ij c k = Inr v)"
  using assms
proof (induction keys arbitrary: m g)
  case Nil
  then show ?case by (simp add: found_def map_gauges_def map_add_def)
next
  case (Cons key keys)
  show ?case
  proof (cases "key \<in> other")
    case True
    then have "set (key # keys) - other = set keys - other" by auto
    then show ?thesis using Cons True by simp
  next
    case False
    then obtain v where v: "verdict ij c key = Inr v"
        "check_loop ij c other keys (if v \<noteq> [] then m(key \<mapsto> v) else m) (if v \<noteq> [] then insert (key_gauge key v) g else g) = (Inr m', g')"
      using Cons.prems by (auto simp: check_verdict split: sum.splits)
    have f: "found ij c (set (key # keys) - other) = (if v \<noteq> [] then [key \<mapsto> v] else Map.empty) ++ found ij c (set keys - other)"
      using v(1) False by (auto simp: fun_eq_iff found_def map_add_def split: sum.splits option.splits)
    have "found ij c (set (key # keys) - other) k = Some w
        \<longleftrightarrow> (v \<noteq> [] \<and> k = key \<and> w = v) \<or> found ij c (set keys - other) k = Some w" for k w
      using v(1) False by (auto simp: found_def)
    then have mg: "map_gauges (found ij c (set (key # keys) - other))
        = (if v \<noteq> [] then {key_gauge key v} else {}) \<union> map_gauges (found ij c (set keys - other))"
      unfolding map_gauges_def by auto
    have upd: "(if v \<noteq> [] then m(key \<mapsto> v) else m) ++ F
        = m ++ ((if v \<noteq> [] then [key \<mapsto> v] else Map.empty) ++ F)" for F :: "string \<rightharpoonup> string"
      by (simp add: fun_eq_iff map_add_def split: option.splits)
    note IH = Cons.IH [OF v(2)]
    have "m' = m ++ found ij c (set (key # keys) - other)" unfolding f using IH upd by (simp only:)
    moreover have "g' = g \<union> map_gauges (found ij c (set (key # keys) - other))" unfolding mg using IH by auto
    moreover have "\<forall>k \<in> set (key # keys) - other. \<exists>v. verdict ij c k = Inr v" using IH v(1) by auto
    ultimately show ?thesis by blast
  qed
qed

lemma check_loop_err: "check_loop ij c other keys m g = (Inl e, g') \<Longrightarrow> g \<subseteq> g'"
proof (induction keys arbitrary: m g)
  case (Cons key keys)
  then show ?case
    by (cases "verdict ij c key") (fastforce simp: check_verdict split: if_splits)+
qed simp

text \<open>An order in which Go may range over the keys of a map.\<close>

definition ord_ok :: "(string set \<Rightarrow> string list) \<Rightarrow> bool" where
  "ord_ok ord \<longleftrightarrow> (\<forall>S. finite S \<longrightarrow> distinct (ord S) \<and> set (ord S) = S)"

lemma getPods_finite: "getPods ij c = Inr S \<Longrightarrow> finite S"
  by (auto simp: getPods_def split: sum.splits)

lemma getCeps_finite: "getCeps c = Inr S \<Longrightarrow> finite S"
  by (auto simp: getCeps_def split: sum.splits)

lemma found_union: "A \<inter> B = {} \<Longrightarrow> found ij c A ++ found ij c B = found ij c (A \<union> B)"
  by (auto simp: fun_eq_iff found_def map_add_def split: option.splits sum.splits)

lemma map_gauges_add: "dom m \<inter> dom n = {} \<Longrightarrow> map_gauges (m ++ n) = map_gauges m \<union> map_gauges n"
proof -
  assume d: "dom m \<inter> dom n = {}"
  then have "(m ++ n) k = Some v \<longleftrightarrow> m k = Some v \<or> n k = Some v" for k v
    by (auto simp: map_add_Some_iff)
  then show ?thesis unfolding map_gauges_def by blast
qed

lemma found_dom: "dom (found ij c A) \<subseteq> A"
  by (auto simp: found_def split: if_splits)

lemma checkAll_ok:
  assumes "ord_ok ord" and "checkAll ij c ord g = (Inr new, g')"
  shows "\<exists>pods ceps. getPods ij c = Inr pods \<and> getCeps c = Inr ceps
     \<and> new = found ij c ((pods - ceps) \<union> (ceps - pods)) \<and> g' = g \<union> map_gauges new"
proof -
  obtain pods ceps m g1 where s: "getPods ij c = Inr pods" "getCeps c = Inr ceps"
      "check_loop ij c ceps (ord pods) Map.empty g = (Inr m, g1)" "check_loop ij c pods (ord ceps) m g1 = (Inr new, g')"
    using assms(2) by (auto simp: checkAll_def split: sum.splits prod.splits)
  have o: "set (ord pods) = pods" "set (ord ceps) = ceps"
    using assms(1) getPods_finite [OF s(1)] getCeps_finite [OF s(2)] by (auto simp: ord_ok_def)
  have d: "(pods - ceps) \<inter> (ceps - pods) = {}" by auto
  have dd: "dom (found ij c (pods - ceps)) \<inter> dom (found ij c (ceps - pods)) = {}"
    using found_dom [of ij c "pods - ceps"] found_dom [of ij c "ceps - pods"] by blast
  have n: "new = found ij c (pods - ceps) ++ found ij c (ceps - pods)"
    "g' = g \<union> map_gauges (found ij c (pods - ceps)) \<union> map_gauges (found ij c (ceps - pods))"
    using check_loop_ok [OF s(3)] check_loop_ok [OF s(4)] o by simp_all
  then show ?thesis
    using s(1,2) found_union [OF d] map_gauges_add [OF dd] by (metis Un_assoc)
qed

lemma checkAll_err: "checkAll ij c ord g = (Inl e, g') \<Longrightarrow> g \<subseteq> g'"
  by (auto simp: checkAll_def split: sum.splits prod.splits dest: check_loop_err check_loop_ok)

lemma resolve_loop_effect:
  assumes "distinct ks"
  shows "missingResourceNameToKind (resolve_loop new ks st)
      = (\<lambda>k. if k \<in> set ks \<and> new k = None then None else missingResourceNameToKind st k)
    \<and> gauges (resolve_loop new ks st)
      = gauges st - {key_gauge k v | k v. k \<in> set ks \<and> new k = None \<and> missingResourceNameToKind st k = Some v}"
  using assms
proof (induction ks arbitrary: st)
  case (Cons k ks)
  show ?case
  proof (cases "new k = None \<and> missingResourceNameToKind st k \<noteq> None")
    case True
    then obtain v where v: "missingResourceNameToKind st k = Some v" by blast
    let ?st = "st\<lparr>gauges := gauges st - {key_gauge k v},
        missingResourceNameToKind := (missingResourceNameToKind st)(k := None)\<rparr>"
    have "resolve_loop new (k # ks) st = resolve_loop new ks ?st" using True v by simp
    moreover have "k \<notin> set ks" using Cons.prems by simp
    ultimately show ?thesis
      using Cons.IH [of ?st] Cons.prems True v by (auto simp: fun_eq_iff)
  next
    case False
    then have "resolve_loop new (k # ks) st = resolve_loop new ks st" by (auto split: option.splits)
    then show ?thesis using Cons.IH [of st] Cons.prems False by (auto simp: fun_eq_iff)
  qed
qed simp

text \<open>A successful tick.\<close>

lemma cep_tick_ok:
  assumes "ord_ok ord" and "finite (dom (missingResourceNameToKind st))" and "checkAll ij c ord (gauges st) = (Inr new, g)"
  shows "missingResourceNameToKind (cep_tick ij c ord st) = new
    \<and> gauges (cep_tick ij c ord st)
      = (gauges st \<union> map_gauges new) - map_gauges (\<lambda>k. if new k = None then missingResourceNameToKind st k else None)"
proof -
  let ?m = "missingResourceNameToKind st"
  have o: "distinct (ord (dom ?m))" "set (ord (dom ?m)) = dom ?m" using assms(1,2) by (auto simp: ord_ok_def)
  have g: "g = gauges st \<union> map_gauges new" using checkAll_ok [OF assms(1,3)] by blast
  have "{key_gauge k v | k v. k \<in> dom ?m \<and> new k = None \<and> ?m k = Some v}
      = map_gauges (\<lambda>k. if new k = None then ?m k else None)"
    by (auto simp: map_gauges_def split: if_splits)
  moreover have "(\<lambda>k. if k \<in> dom ?m \<and> new k = None then None else ?m k) ++ new = new"
    by (auto simp: fun_eq_iff map_add_def split: option.splits)
  ultimately show ?thesis
    using resolve_loop_effect [OF o(1), of new "st\<lparr>gauges := g\<rparr>"] o(2) g
    by (simp add: cep_tick_def assms(3) Let_def cong: if_cong)
qed

section \<open>Keys\<close>

text \<open>Names of Kubernetes objects contain no slash and no quote.\<close>

definition name_ok :: "string \<Rightarrow> bool" where
  "name_ok n \<longleftrightarrow> CHR ''/'' \<notin> set n \<and> CHR 0x22 \<notin> set n"

definition key_ok :: "string \<Rightarrow> bool" where
  "key_ok k \<longleftrightarrow> (\<exists>ns name. k = mk_key ns name \<and> name_ok ns \<and> name_ok name)"

definition client_ok :: "client \<Rightarrow> bool" where
  "client_ok c \<longleftrightarrow>
     (case list_pods c of Inl _ \<Rightarrow> True | Inr ps \<Rightarrow> list_all (\<lambda>p. name_ok (Namespace p) \<and> name_ok (PodName p)) ps)
   \<and> (case list_ceps c of Inl _ \<Rightarrow> True | Inr cs \<Rightarrow> list_all (\<lambda>(ns, n). name_ok ns \<and> name_ok n) cs)"

lemma key_parts:
  assumes "name_ok ns" and "name_ok name"
  shows "key_ns (mk_key ns name) = ns" and "key_name (mk_key ns name) = name"
  using assms by (simp_all add: key_ns_def key_name_def mk_key_def name_ok_def split_on_append split_on_no_sep)

lemma gauge_name_inj:
  assumes "name_ok a" "name_ok a'" "name_ok b" "name_ok b'"
  shows "gauge_name a b v = gauge_name a' b' v' \<Longrightarrow> a = a' \<and> b = b'"
  using assms by (simp add: gauge_name_def name_ok_def sep_inj)

lemma key_gauge_inj:
  assumes "key_ok k" and "key_ok k'" and "key_gauge k v = key_gauge k' v'"
  shows "k = k'"
proof -
  obtain a b a' b' where "k = mk_key a b" "name_ok a" "name_ok b" "k' = mk_key a' b'" "name_ok a'" "name_ok b'"
    using assms(1,2) by (auto simp: key_ok_def)
  then show ?thesis using assms(3) gauge_name_inj [of b b' a a' v v'] by (simp add: key_gauge_def key_parts)
qed

lemma listed_keys_ok:
  assumes "client_ok c"
  shows "getPods ij c = Inr S \<Longrightarrow> k \<in> S \<Longrightarrow> key_ok k" and "getCeps c = Inr S \<Longrightarrow> k \<in> S \<Longrightarrow> key_ok k"
  using assms
  by (fastforce simp: client_ok_def getPods_def getCeps_def key_ok_def list_all_iff split: sum.splits)+

text \<open>The states of the loop under any behaviour of the API server.\<close>

inductive cep_reach :: "cep_state \<Rightarrow> bool" where
  cep_start: "cep_reach \<lparr>missingResourceNameToKind = Map.empty, gauges = {}\<rparr>"
| cep_step: "cep_reach st \<Longrightarrow> client_ok c \<Longrightarrow> ord_ok ord \<Longrightarrow> cep_reach (cep_tick ij c ord st)"

definition cep_inv :: "cep_state \<Rightarrow> bool" where
  "cep_inv st \<longleftrightarrow> finite (dom (missingResourceNameToKind st)) \<and> (\<forall>k \<in> dom (missingResourceNameToKind st). key_ok k)
     \<and> map_gauges (missingResourceNameToKind st) \<subseteq> gauges st"

lemma cep_tick_inv:
  assumes "cep_inv st" and "client_ok c" and "ord_ok ord"
  shows "cep_inv (cep_tick ij c ord st)"
proof (cases "checkAll ij c ord (gauges st)")
  case (Pair r g)
  show ?thesis
  proof (cases r)
    case (Inl e)
    then have "gauges st \<subseteq> g" using Pair checkAll_err by blast
    then show ?thesis using assms(1) Pair Inl by (auto simp: cep_tick_def cep_inv_def)
  next
    case (Inr new)
    let ?m = "missingResourceNameToKind st"
    obtain pods ceps where pc: "getPods ij c = Inr pods" "getCeps c = Inr ceps"
        "new = found ij c ((pods - ceps) \<union> (ceps - pods))"
      using checkAll_ok [OF assms(3), of ij c "gauges st" new g] Pair Inr by blast
    have dom: "dom new \<subseteq> pods \<union> ceps" using found_dom [of ij c "(pods - ceps) \<union> (ceps - pods)"] pc(3) by blast
    then have ok: "\<forall>k \<in> dom new. key_ok k" using listed_keys_ok [OF assms(2)] pc(1,2) by blast
    have fin: "finite (dom new)" using dom getPods_finite [OF pc(1)] getCeps_finite [OF pc(2)] finite_subset by blast
    have "map_gauges new \<inter> map_gauges (\<lambda>k. if new k = None then ?m k else None) = {}"
    proof (rule ccontr)
      assume "\<not> ?thesis"
      then obtain k v k' v' where h: "new k = Some v" "new k' = None" "?m k' = Some v'" "key_gauge k v = key_gauge k' v'"
        by (auto simp: map_gauges_def split: if_splits)
      have "key_ok k" "key_ok k'" using ok h(1,3) assms(1) by (auto simp: cep_inv_def)
      then show False using key_gauge_inj [OF _ _ h(4)] h(1,2) by auto
    qed
    then show ?thesis
      using cep_tick_ok [OF assms(3), of st ij c new g] assms(1) Pair Inr ok fin
      by (auto simp: cep_inv_def)
  qed
qed

lemma cep_reach_inv: "cep_reach st \<Longrightarrow> cep_inv st"
  by (induction rule: cep_reach.induct) (auto simp: cep_tick_inv, simp add: cep_inv_def map_gauges_def)

lemma verdict_kind:
  "verdict ij c k = Inr v \<and> v \<noteq> [] \<longleftrightarrow>
     (v = ''cep'' \<and> (\<exists>p. get_pod c (key_ns k) (key_name k) = Inr p \<and> isTargetPod ij p)
        \<and> get_cep c (key_ns k) (key_name k) = Inl IsNotFound)
   \<or> (v = ''pod'' \<and> get_pod c (key_ns k) (key_name k) = Inl IsNotFound
        \<and> get_cep c (key_ns k) (key_name k) = Inr ())"
  by (auto simp: verdict_def check_def Let_def split: sum.splits api_err.splits if_splits)

lemma cep_tick_state:
  assumes "cep_reach st" and "ord_ok ord" and "client_ok c" and "checkAll ij c ord (gauges st) = (Inr new, g)"
  shows "missingResourceNameToKind (cep_tick ij c ord st) = new
    \<and> gauges (cep_tick ij c ord st)
      = map_gauges new \<union> (gauges st - map_gauges (\<lambda>k. if new k = None then missingResourceNameToKind st k else None))"
proof -
  have inv: "cep_inv st" "cep_inv (cep_tick ij c ord st)"
    using cep_reach_inv assms(1) cep_reach.cep_step [OF assms(1,3,2)] by auto
  have "finite (dom (missingResourceNameToKind st))" using inv(1) by (simp add: cep_inv_def)
  note t = cep_tick_ok [OF assms(2) this assms(4)]
  then have "map_gauges new \<subseteq> gauges (cep_tick ij c ord st)" using inv(2) by (simp add: cep_inv_def)
  then show ?thesis using t by blast
qed

section \<open>Properties\<close>

text \<open>
  C18. A completed \<open>checkAll\<close> reports exactly the inconsistencies: a key is reported when it is in one of the two
  listings only and the second look confirms it, with \<open>cep\<close> when the target Pod exists and the endpoint does
  not, and with \<open>pod\<close> when the endpoint exists and no Pod does. The result does not depend on the order in which
  the maps are visited.
\<close>

theorem checkAll_exact:
  assumes "ord_ok ord" and "checkAll ij c ord g = (Inr new, g')"
  shows "\<exists>pods ceps. getPods ij c = Inr pods \<and> getCeps c = Inr ceps \<and> g' = g \<union> map_gauges new
    \<and> (\<forall>k v. new k = Some v \<longleftrightarrow> (k \<in> pods) \<noteq> (k \<in> ceps) \<and>
        ((v = ''cep'' \<and> (\<exists>p. get_pod c (key_ns k) (key_name k) = Inr p \<and> isTargetPod ij p)
            \<and> get_cep c (key_ns k) (key_name k) = Inl IsNotFound)
       \<or> (v = ''pod'' \<and> get_pod c (key_ns k) (key_name k) = Inl IsNotFound
            \<and> get_cep c (key_ns k) (key_name k) = Inr ())))"
proof -
  obtain pods ceps where pc: "getPods ij c = Inr pods" "getCeps c = Inr ceps"
      "new = found ij c ((pods - ceps) \<union> (ceps - pods))" "g' = g \<union> map_gauges new"
    using checkAll_ok [OF assms] by blast
  have "new k = Some v \<longleftrightarrow> (k \<in> pods) \<noteq> (k \<in> ceps) \<and> verdict ij c k = Inr v \<and> v \<noteq> []" for k v
    unfolding pc(3) found_def by (auto split: sum.splits if_splits)
  then show ?thesis using pc(1,2,4) by (simp only: verdict_kind) blast
qed

text \<open>
  C19. In every state the loop can reach, whatever the API server answers and whichever checks fail, every resource
  known to be missing has its gauge: no inconsistency is hidden by a failed check or by the clean-up of
  resolved ones.
\<close>

theorem missing_has_gauge:
  assumes "cep_reach st" and "missingResourceNameToKind st k = Some v"
  shows "gauge_name (key_name k) (key_ns k) v \<in> gauges st"
proof -
  have "map_gauges (missingResourceNameToKind st) \<subseteq> gauges st"
    using cep_reach_inv [OF assms(1)] by (simp add: cep_inv_def)
  then show ?thesis using assms(2) by (auto simp: map_gauges_def key_gauge_def)
qed

text \<open>
  C20. The state after a completed check. The known missing resources are exactly the new findings; the gauges are
  those of the new findings and the old ones except those of resolved keys. So a gauge of the other kind for
  the same key stays when a missing Pod turns into a missing endpoint (or back), because only resolved
  keys are cleaned up; it is never removed afterwards, since the map has forgotten it.
\<close>

theorem cep_tick_flip:
  assumes "cep_reach st" and "ord_ok ord" and "client_ok c" and "checkAll ij c ord (gauges st) = (Inr new, g)"
  shows "missingResourceNameToKind (cep_tick ij c ord st) = new
    \<and> gauges (cep_tick ij c ord st)
      = map_gauges new \<union> (gauges st - map_gauges (\<lambda>k. if new k = None then missingResourceNameToKind st k else None))"
  by (rule cep_tick_state [OF assms])

section \<open>Examples\<close>

definition demo_pod :: Pod where
  "demo_pod = \<lparr>Namespace = ''ns'', PodName = ''a'', HostNetwork = False, Phase = ''Running'', PodIP = ''10.0.0.1'', owner_kinds = []\<rparr>"

text \<open>A cluster with the Pod only, and one with the endpoint only.\<close>

definition pod_only :: client where
  "pod_only = \<lparr>list_pods = Inr [demo_pod], list_ceps = Inr [],
     get_pod = (\<lambda>_ _. Inr demo_pod), get_cep = (\<lambda>_ _. Inl IsNotFound)\<rparr>"

definition cep_only :: client where
  "cep_only = \<lparr>list_pods = Inr [], list_ceps = Inr [(''ns'', ''a'')],
     get_pod = (\<lambda>_ _. Inl IsNotFound), get_cep = (\<lambda>_ _. Inr ())\<rparr>"

definition demo_start :: cep_state where
  "demo_start = \<lparr>missingResourceNameToKind = Map.empty, gauges = {}\<rparr>"

lemma sorted_ord_ok: "ord_ok sorted_list_of_set"
  by (simp add: ord_ok_def)

lemma demo_clients_ok: "client_ok pod_only" "client_ok cep_only"
  by (simp_all add: client_ok_def pod_only_def cep_only_def name_ok_def demo_pod_def)

lemma demo_reach1: "cep_reach (cep_tick True pod_only sorted_list_of_set demo_start)"
  unfolding demo_start_def
  by (intro cep_reach.intros demo_clients_ok sorted_ord_ok)

lemma demo_key: "key_ns ''ns/a'' = ''ns''" "key_name ''ns/a'' = ''a''" "mk_key ''ns'' ''a'' = ''ns/a''"
  by (simp_all add: key_ns_def key_name_def mk_key_def)

lemma demo_check1:
  "checkAll True pod_only sorted_list_of_set g = (Inr [''ns/a'' \<mapsto> ''cep''], insert (gauge_name ''a'' ''ns'' ''cep'') g)"
  by (simp add: checkAll_def getPods_def getCeps_def pod_only_def isTargetPod_def demo_pod_def demo_key check_def)

lemma demo_check2:
  "checkAll True cep_only sorted_list_of_set g = (Inr [''ns/a'' \<mapsto> ''pod''], insert (gauge_name ''a'' ''ns'' ''pod'') g)"
  by (simp add: checkAll_def getPods_def getCeps_def cep_only_def demo_key check_def)

lemma demo_tick1:
  "cep_tick True pod_only sorted_list_of_set demo_start
     = \<lparr>missingResourceNameToKind = [''ns/a'' \<mapsto> ''cep''], gauges = {gauge_name ''a'' ''ns'' ''cep''}\<rparr>"
  by (simp add: cep_tick_def demo_check1 demo_start_def)

theorem checkAll_exact_witness:
  "checkAll True pod_only sorted_list_of_set {} = (Inr [''ns/a'' \<mapsto> ''cep''], {gauge_name ''a'' ''ns'' ''cep''})
     \<and> (\<exists>pods ceps. getPods True pod_only = Inr pods \<and> getCeps pod_only = Inr ceps
         \<and> {gauge_name ''a'' ''ns'' ''cep''} = {} \<union> map_gauges [''ns/a'' \<mapsto> ''cep''])"
proof -
  obtain pods ceps where "getPods True pod_only = Inr pods" "getCeps pod_only = Inr ceps"
      "{gauge_name ''a'' ''ns'' ''cep''} = {} \<union> map_gauges [''ns/a'' \<mapsto> ''cep'']"
    using checkAll_exact [OF sorted_ord_ok demo_check1 [of "{}"]] by (elim exE conjE)
  then show ?thesis using demo_check1 [of "{}"] by (intro conjI exI)
qed

theorem missing_has_gauge_witness:
  "gauge_name (key_name ''ns/a'') (key_ns ''ns/a'') ''cep''
     \<in> gauges (cep_tick True pod_only sorted_list_of_set demo_start)"
  by (rule missing_has_gauge [OF demo_reach1]) (simp add: demo_tick1)

text \<open>The Pod vanishes and its endpoint appears: both gauges are set, although only the Pod is missing.\<close>

theorem cep_tick_flip_witness:
  "missingResourceNameToKind (cep_tick True cep_only sorted_list_of_set
        (cep_tick True pod_only sorted_list_of_set demo_start)) = [''ns/a'' \<mapsto> ''pod'']
   \<and> gauge_name ''a'' ''ns'' ''cep'' \<in> gauges (cep_tick True cep_only sorted_list_of_set
        (cep_tick True pod_only sorted_list_of_set demo_start))"
proof -
  note t = cep_tick_flip [OF demo_reach1 sorted_ord_ok demo_clients_ok(2) demo_check2]
  have "(\<lambda>k. if [''ns/a'' \<mapsto> ''pod''] k = None
      then missingResourceNameToKind (cep_tick True pod_only sorted_list_of_set demo_start) k else None) = Map.empty"
    unfolding demo_tick1 by (rule ext) simp
  then have e: "map_gauges (\<lambda>k. if [''ns/a'' \<mapsto> ''pod''] k = None
      then missingResourceNameToKind (cep_tick True pod_only sorted_list_of_set demo_start) k else None) = {}"
    by (simp only: map_gauges_def) simp
  have "gauge_name ''a'' ''ns'' ''cep'' \<in> gauges (cep_tick True pod_only sorted_list_of_set demo_start)"
    unfolding demo_tick1 by simp
  then show ?thesis using t unfolding e by blast
qed

section \<open>The program\<close>

record cep_config =
  interval :: int
  metricsServer :: string
  ignoreJobPod :: bool

text \<open>What fails at the start: reading the configuration of the cluster, the two schemes, the client, and the server for
  the metrics (which ends the program when it stops).\<close>

record cep_start_env =
  get_config_err :: "string option"
  cilium_scheme_err :: "string option"
  core_scheme_err :: "string option"
  new_client_err :: "string option"
  listen_err :: "string option"

text \<open>The goroutine: one pass for each tick; it never ends.\<close>

definition cep_loop :: "bool \<Rightarrow> (client \<times> (string set \<Rightarrow> string list)) list \<Rightarrow> cep_state \<Rightarrow> cep_state" where
  "cep_loop ij ticks st = fold (\<lambda>(c, ord) st. cep_tick ij c ord st) ticks st"

definition cep_cmdMain ::
  "cep_config \<Rightarrow> cep_start_env \<Rightarrow> (client \<times> (string set \<Rightarrow> string list)) list \<Rightarrow> cep_state process" where
  "cep_cmdMain cfg env ticks =
     NewTicker (interval cfg)
       (if get_config_err env \<noteq> None then Exited 1
        else if cilium_scheme_err env \<noteq> None then Exited 1
        else if core_scheme_err env \<noteq> None then Exited 1
        else if new_client_err env \<noteq> None then Exited 1
        else if listen_err env \<noteq> None then Exited 1
        else Running (cep_loop (ignoreJobPod cfg) ticks \<lparr>missingResourceNameToKind = Map.empty, gauges = {}\<rparr>))"

text \<open>The page under \<open>/metrics\<close>: the registered gauges, each of which reads 1.\<close>

definition cep_page :: "cep_state \<Rightarrow> (string \<times> int) set" where
  "cep_page st = (\<lambda>g. (g, 1)) ` gauges st"

lemma cep_loop_reach:
  assumes "cep_reach st" and "list_all (\<lambda>(c, ord). client_ok c \<and> ord_ok ord) ticks"
  shows "cep_reach (cep_loop ij ticks st)"
  using assms
proof (induction ticks arbitrary: st)
  case (Cons t ticks)
  then show ?case by (cases t) (simp add: cep_loop_def cep_step)
qed (simp add: cep_loop_def)

text \<open>A steady run: every pass completes, and no resource changes from one kind of inconsistency to the other between two
  passes.\<close>

fun steady :: "bool \<Rightarrow> (client \<times> (string set \<Rightarrow> string list)) list \<Rightarrow> cep_state \<Rightarrow> bool" where
  "steady ij [] st = True"
| "steady ij ((c, ord) # ticks) st =
     (case fst (checkAll ij c ord (gauges st)) of
        Inl _ \<Rightarrow> False
      | Inr new \<Rightarrow> (\<forall>k \<in> dom new \<inter> dom (missingResourceNameToKind st). missingResourceNameToKind st k = new k)
                   \<and> steady ij ticks (cep_tick ij c ord st))"

lemma steady_last:
  "steady ij (ticks @ [(c, ord)]) st \<Longrightarrow> \<exists>new g. checkAll ij c ord (gauges (cep_loop ij ticks st)) = (Inr new, g)"
proof (induction ticks arbitrary: st)
  case Nil
  then show ?case by (cases "checkAll ij c ord (gauges st)") (auto simp: cep_loop_def split: sum.splits)
next
  case (Cons t ticks)
  then show ?case by (cases t) (auto simp: cep_loop_def split: sum.splits)
qed

definition exact_gauges :: "cep_state \<Rightarrow> bool" where
  "exact_gauges st \<longleftrightarrow> gauges st = map_gauges (missingResourceNameToKind st)"

lemma cep_tick_exact:
  assumes "cep_reach st" and "exact_gauges st" and "ord_ok ord" and "client_ok c"
    and "checkAll ij c ord (gauges st) = (Inr new, g)"
    and "\<forall>k \<in> dom new \<inter> dom (missingResourceNameToKind st). missingResourceNameToKind st k = new k"
  shows "exact_gauges (cep_tick ij c ord st)"
proof -
  let ?old = "missingResourceNameToKind st"
  have "map_gauges ?old - map_gauges (\<lambda>k. if new k = None then ?old k else None) \<subseteq> map_gauges new"
  proof
    fix x assume x: "x \<in> map_gauges ?old - map_gauges (\<lambda>k. if new k = None then ?old k else None)"
    then obtain k v where k: "?old k = Some v" "x = key_gauge k v" by (auto simp: map_gauges_def)
    with x have "new k \<noteq> None" by (auto simp: map_gauges_def split: if_splits)
    with k(1) assms(6) have "new k = Some v" by (metis Int_iff domI domIff)
    with k(2) show "x \<in> map_gauges new" by (auto simp: map_gauges_def)
  qed
  then show ?thesis
    using cep_tick_state [OF assms(1,3,4,5)] assms(2) unfolding exact_gauges_def by auto
qed

lemma cep_loop_exact:
  assumes "cep_reach st" and "exact_gauges st" and "list_all (\<lambda>(c, ord). client_ok c \<and> ord_ok ord) ticks"
    and "steady ij ticks st"
  shows "exact_gauges (cep_loop ij ticks st)"
  using assms
proof (induction ticks arbitrary: st)
  case (Cons t ticks)
  obtain c ord where t: "t = (c, ord)" by fastforce
  obtain new g where ch: "checkAll ij c ord (gauges st) = (Inr new, g)"
      and kinds: "\<forall>k \<in> dom new \<inter> dom (missingResourceNameToKind st). missingResourceNameToKind st k = new k"
      and rest: "steady ij ticks (cep_tick ij c ord st)"
    using Cons.prems(4) t by (cases "checkAll ij c ord (gauges st)") (auto split: sum.splits)
  have ok: "ord_ok ord" "client_ok c" "list_all (\<lambda>(c, ord). client_ok c \<and> ord_ok ord) ticks"
    using Cons.prems(3) t by simp_all
  from Cons.IH [OF cep_step [OF Cons.prems(1) ok(2,1)] cep_tick_exact [OF Cons.prems(1,2) ok(1,2) ch kinds] ok(3) rest]
  show ?case by (simp add: cep_loop_def t)
qed (simp add: cep_loop_def)

text \<open>
  C17. What the program is for: on a steady run, in which every pass completes and no resource turns from a missing Pod into a
  missing endpoint or back, the page of metrics shows exactly one gauge with value 1 for each resource that the last pass
  found missing, and no other: gauges of resolved resources are gone.
\<close>

theorem cep_page_exact:
  assumes "cep_cmdMain cfg env (ticks @ [(c, ord)]) = Running st"
    and "list_all (\<lambda>(c, ord). client_ok c \<and> ord_ok ord) (ticks @ [(c, ord)])"
    and "steady (ignoreJobPod cfg) (ticks @ [(c, ord)]) \<lparr>missingResourceNameToKind = Map.empty, gauges = {}\<rparr>"
  shows "\<exists>pods ceps. getPods (ignoreJobPod cfg) c = Inr pods \<and> getCeps c = Inr ceps
    \<and> cep_page st = {(gauge_name (key_name k) (key_ns k) v, 1) | k v.
        (k \<in> pods) \<noteq> (k \<in> ceps) \<and> verdict (ignoreJobPod cfg) c k = Inr v \<and> v \<noteq> []}"
proof -
  let ?ij = "ignoreJobPod cfg" and ?st0 = "\<lparr>missingResourceNameToKind = Map.empty, gauges = {}\<rparr>"
  let ?st1 = "cep_loop ?ij ticks ?st0"
  have st: "st = cep_loop ?ij (ticks @ [(c, ord)]) ?st0"
    using assms(1) by (auto simp: cep_cmdMain_def NewTicker_def split: if_splits)
  have last: "st = cep_tick ?ij c ord ?st1" by (simp add: st cep_loop_def)
  have exact: "exact_gauges st"
    using cep_loop_exact [OF cep_start _ assms(2,3)] by (simp add: st exact_gauges_def map_gauges_def)
  have ok: "list_all (\<lambda>(c, ord). client_ok c \<and> ord_ok ord) ticks" "client_ok c" "ord_ok ord" using assms(2) by simp_all
  obtain new g where ch: "checkAll ?ij c ord (gauges ?st1) = (Inr new, g)" using steady_last [OF assms(3)] by blast
  have miss: "missingResourceNameToKind st = new"
    using cep_tick_state [OF cep_loop_reach [OF cep_start ok(1)] ok(3,2) ch] last by simp
  obtain pods ceps where pc: "getPods ?ij c = Inr pods" "getCeps c = Inr ceps"
      "new = found ?ij c ((pods - ceps) \<union> (ceps - pods))"
    using checkAll_ok [OF ok(3) ch] by blast
  have iff: "new k = Some v \<longleftrightarrow> (k \<in> pods) \<noteq> (k \<in> ceps) \<and> verdict ?ij c k = Inr v \<and> v \<noteq> []" for k v
    unfolding pc(3) found_def by (auto split: sum.splits if_splits)
  have "gauges st = {gauge_name (key_name k) (key_ns k) v | k v. new k = Some v}"
    using exact miss by (simp add: exact_gauges_def map_gauges_def key_gauge_def)
  then have "cep_page st = {(gauge_name (key_name k) (key_ns k) v, 1) | k v. new k = Some v}"
    unfolding cep_page_def by blast
  then have "cep_page st = {(gauge_name (key_name k) (key_ns k) v, 1) | k v.
        (k \<in> pods) \<noteq> (k \<in> ceps) \<and> verdict ?ij c k = Inr v \<and> v \<noteq> []}"
    unfolding iff .
  with pc show ?thesis by blast
qed

text \<open>The Pod is alone, then gone, then the endpoint is alone: only the gauge of the missing Pod is left.\<close>

definition no_objects :: client where
  "no_objects = \<lparr>list_pods = Inr [], list_ceps = Inr [],
     get_pod = (\<lambda>_ _. Inl IsNotFound), get_cep = (\<lambda>_ _. Inl IsNotFound)\<rparr>"

definition quiet_start :: cep_start_env where
  "quiet_start = \<lparr>get_config_err = None, cilium_scheme_err = None, core_scheme_err = None, new_client_err = None, listen_err = None\<rparr>"

lemma demo_check0: "checkAll True no_objects sorted_list_of_set g = (Inr Map.empty, g)"
  by (simp add: checkAll_def getPods_def getCeps_def no_objects_def)

lemma demo_tick0:
  "cep_tick True no_objects sorted_list_of_set
     \<lparr>missingResourceNameToKind = [''ns/a'' \<mapsto> ''cep''], gauges = {gauge_name ''a'' ''ns'' ''cep''}\<rparr>
     = \<lparr>missingResourceNameToKind = Map.empty, gauges = {}\<rparr>"
  by (simp add: cep_tick_def demo_check0 key_gauge_def demo_key)

theorem cep_page_exact_witness:
  "\<exists>st. cep_cmdMain \<lparr>interval = 30, metricsServer = '''', ignoreJobPod = True\<rparr> quiet_start
        ([(pod_only, sorted_list_of_set), (no_objects, sorted_list_of_set)] @ [(cep_only, sorted_list_of_set)]) = Running st
     \<and> cep_page st = {(gauge_name ''a'' ''ns'' ''pod'', 1)}"
proof -
  let ?cfg = "\<lparr>interval = 30, metricsServer = '''', ignoreJobPod = True\<rparr>"
  let ?ticks = "[(pod_only, sorted_list_of_set :: string set \<Rightarrow> string list), (no_objects, sorted_list_of_set)]"
  obtain st where run: "cep_cmdMain ?cfg quiet_start (?ticks @ [(cep_only, sorted_list_of_set)]) = Running st"
    by (simp add: cep_cmdMain_def NewTicker_def quiet_start_def)
  have "list_all (\<lambda>(c, ord). client_ok c \<and> ord_ok ord) (?ticks @ [(cep_only, sorted_list_of_set)])"
    using demo_clients_ok sorted_ord_ok by (simp add: client_ok_def no_objects_def)
  moreover have "steady True (?ticks @ [(cep_only, sorted_list_of_set)]) demo_start"
    by (simp add: demo_check1 demo_check2 demo_check0 demo_tick1 demo_tick0) (simp add: demo_start_def)
  ultimately obtain pods ceps where "getPods True cep_only = Inr pods" "getCeps cep_only = Inr ceps"
      "cep_page st = {(gauge_name (key_name k) (key_ns k) v, 1) | k v.
        (k \<in> pods) \<noteq> (k \<in> ceps) \<and> verdict True cep_only k = Inr v \<and> v \<noteq> []}"
    using cep_page_exact [OF run] by (auto simp: demo_start_def)
  then have "cep_page st = {(gauge_name (key_name k) (key_ns k) v, 1) | k v. k = ''ns/a'' \<and> verdict True cep_only k = Inr v \<and> v \<noteq> []}"
    by (auto simp: getPods_def getCeps_def cep_only_def demo_key)
  moreover have "verdict True cep_only ''ns/a'' = Inr ''pod''"
    by (simp add: verdict_def check_def cep_only_def)
  ultimately have "cep_page st = {(gauge_name ''a'' ''ns'' ''pod'', 1)}" by (auto simp: demo_key)
  with run show ?thesis by blast
qed

end
