(* ===== verification/Envoy_Probe.thy ===== *)
theory Envoy_Probe
  imports Prelude
begin

text \<open>
  The liveness and readiness probe of Envoy (\<open>envoy/pkg/probe/cmd/root.go\<close>): the three monitors, the two
  activation flags and the HTTP handlers. What the network does during a probe is an \<open>observation\<close>. The
  three monitors of a probe run concurrently; each reads and writes a flag of its own, and
  \<open>env.Wait\<close> returns an error when one of them does, so their order does not matter. The last section is about
  probes whose monitors interleave.
\<close>

section \<open>State\<close>

record monitor =
  httpActivated :: bool
  httpsActivated :: bool

text \<open>Building a request, sending it, and the status of the response.\<close>

datatype http_outcome = BuildFailed string | DoFailed string | Responded nat

datatype dial_outcome = DialFailed string | Connected

record observation =
  ready_obs :: http_outcome
  http_obs :: http_outcome
  https_obs :: dial_outcome

datatype probe_err = BadRequest string | ReadyFailed string | ReadyStatus nat | HttpFailed string | HttpsFailed string

section \<open>Monitors\<close>

definition monitorReady :: "http_outcome \<Rightarrow> (probe_err, unit) result" where
  "monitorReady o1 =
     (case o1 of
        BuildFailed e \<Rightarrow> Inl (BadRequest e)
      | DoFailed e \<Rightarrow> Inl (ReadyFailed e)
      | Responded code \<Rightarrow> if code \<noteq> 200 then Inl (ReadyStatus code) else Inr ())"

definition monitorHTTP :: "http_outcome \<Rightarrow> bool \<Rightarrow> (probe_err, unit) result \<times> bool" where
  "monitorHTTP o1 activated =
     (case o1 of
        BuildFailed e \<Rightarrow> (Inl (BadRequest e), activated)
      | DoFailed e \<Rightarrow> if \<not> activated then (Inr (), activated) else (Inl (HttpFailed e), activated)
      | Responded code \<Rightarrow> (Inr (), True))"

definition monitorHTTPS :: "dial_outcome \<Rightarrow> bool \<Rightarrow> (probe_err, unit) result \<times> bool" where
  "monitorHTTPS o1 activated =
     (case o1 of
        DialFailed e \<Rightarrow> if \<not> activated then (Inr (), activated) else (Inl (HttpsFailed e), activated)
      | Connected \<Rightarrow> (Inr (), True))"

text \<open>The errors of the three monitors; \<open>env.Wait\<close> returns one of them, or nil when there is none.\<close>

definition Probe :: "observation \<Rightarrow> monitor \<Rightarrow> probe_err list \<times> monitor" where
  "Probe ob m =
     (let (r2, a) = monitorHTTP (http_obs ob) (httpActivated m);
          (r3, b) = monitorHTTPS (https_obs ob) (httpsActivated m);
          errs = concat (map (\<lambda>r. case r of Inl e \<Rightarrow> [e] | Inr _ \<Rightarrow> []) [monitorReady (ready_obs ob), r2, r3])
      in (errs, \<lparr>httpActivated = a, httpsActivated = b\<rparr>))"

text \<open>The status written by \<open>ServeHTTP\<close>; the handlers of the liveness and readiness monitors embed the same
  \<open>monitor\<close> and differ in the log message only.\<close>

definition ServeHTTP :: "observation \<Rightarrow> monitor \<Rightarrow> nat \<times> monitor" where
  "ServeHTTP ob m = (let (errs, m') = Probe ob m in (if errs \<noteq> [] then 502 else 200, m'))"

definition livenessMonitor_ServeHTTP :: "observation \<Rightarrow> monitor \<Rightarrow> nat \<times> monitor" where
  "livenessMonitor_ServeHTTP = ServeHTTP"

definition readinessMonitor_ServeHTTP :: "observation \<Rightarrow> monitor \<Rightarrow> nat \<times> monitor" where
  "readinessMonitor_ServeHTTP = ServeHTTP"

section \<open>Runs\<close>

definition fresh_monitor :: monitor where
  "fresh_monitor = \<lparr>httpActivated = False, httpsActivated = False\<rparr>"

text \<open>A sequence of requests to any of the three handlers, with what each observed.\<close>

datatype handler = Root | Healthz | Readyz

definition handle :: "handler \<Rightarrow> observation \<Rightarrow> monitor \<Rightarrow> nat \<times> monitor" where
  "handle h = (case h of Root \<Rightarrow> ServeHTTP | Healthz \<Rightarrow> livenessMonitor_ServeHTTP | Readyz \<Rightarrow> readinessMonitor_ServeHTTP)"

definition monitor_run :: "(handler \<times> observation) list \<Rightarrow> monitor" where
  "monitor_run hs = fold (\<lambda>(h, ob) m. snd (handle h ob m)) hs fresh_monitor"

definition http_up :: "observation \<Rightarrow> bool" where
  "http_up ob \<longleftrightarrow> (\<exists>code. http_obs ob = Responded code)"

definition https_up :: "observation \<Rightarrow> bool" where
  "https_up ob \<longleftrightarrow> https_obs ob = Connected"

lemma handle_ServeHTTP: "handle h = ServeHTTP"
  by (cases h) (simp_all add: handle_def livenessMonitor_ServeHTTP_def readinessMonitor_ServeHTTP_def)

lemma ServeHTTP_flags:
  "snd (ServeHTTP ob m) =
     \<lparr>httpActivated = (httpActivated m \<or> http_up ob), httpsActivated = (httpsActivated m \<or> https_up ob)\<rparr>"
  by (simp add: ServeHTTP_def Probe_def monitorHTTP_def monitorHTTPS_def http_up_def https_up_def
      split: http_outcome.splits dial_outcome.splits)

lemma monitor_run_flags:
  "monitor_run hs =
     \<lparr>httpActivated = (\<exists>(h, ob) \<in> set hs. http_up ob), httpsActivated = (\<exists>(h, ob) \<in> set hs. https_up ob)\<rparr>"
proof -
  have "fold (\<lambda>(h, ob) m. snd (handle h ob m)) hs m =
      \<lparr>httpActivated = (httpActivated m \<or> (\<exists>(h, ob) \<in> set hs. http_up ob)),
       httpsActivated = (httpsActivated m \<or> (\<exists>(h, ob) \<in> set hs. https_up ob))\<rparr>" for m
    by (induction hs arbitrary: m) (auto simp: handle_ServeHTTP ServeHTTP_flags)
  then show ?thesis by (simp add: monitor_run_def fresh_monitor_def)
qed

section \<open>Properties\<close>

text \<open>
  C21. The verdict of a probe after any history of probes: 200 exactly when the readiness endpoint answers 200, and each
  of the HTTP and HTTPS endpoints either is reachable now or has never been reachable in an earlier
  probe (a request that cannot be built always fails). So endpoints that were not configured yet are tolerated,
  and one that was reachable once and is lost makes every handler report 502.
\<close>

theorem probe_verdict:
  "fst (handle h ob (monitor_run hs)) =
     (if ready_obs ob = Responded 200
       \<and> (if \<exists>(h, o1) \<in> set hs. http_up o1 then http_up ob else \<not> (\<exists>e. http_obs ob = BuildFailed e))
       \<and> (if \<exists>(h, o1) \<in> set hs. https_up o1 then https_up ob else True)
      then 200 else 502)"
proof -
  have "fst (ServeHTTP ob \<lparr>httpActivated = a, httpsActivated = b\<rparr>) =
     (if ready_obs ob = Responded 200
       \<and> (if a then http_up ob else \<not> (\<exists>e. http_obs ob = BuildFailed e)) \<and> (if b then https_up ob else True)
      then 200 else 502)" for a b
    by (auto simp: ServeHTTP_def Probe_def monitorReady_def monitorHTTP_def monitorHTTPS_def http_up_def https_up_def
        split: http_outcome.splits dial_outcome.splits)
  then show ?thesis unfolding handle_ServeHTTP monitor_run_flags .
qed

section \<open>The program\<close>

record probe_config =
  probe_timeout :: int
  listenAddr :: string
  readyURL :: string
  httpURL :: string
  httpsAddr :: string

text \<open>The defaults of the flags; the timeout is in nanoseconds.\<close>

definition probe_flags :: probe_config where
  "probe_flags = \<lparr>probe_timeout = 5 * 1000000000, listenAddr = '':8502'', readyURL = ''http://localhost:8002/ready'',
     httpURL = ''http://localhost:8080/'', httpsAddr = ''localhost:8443''\<rparr>"

text \<open>The multiplexer on a cleaned path: two paths of their own, every other path to the handler of the root.\<close>

definition probe_route :: "string \<Rightarrow> handler" where
  "probe_route path =
     (if path = ''/healthz'' then Healthz else if path = ''/readyz'' then Readyz else Root)"

text \<open>What the network does at the addresses of the settings while a probe runs.\<close>

record probe_net =
  http_get :: "string \<Rightarrow> http_outcome"
  tcp_dial :: "string \<Rightarrow> dial_outcome"

definition observe :: "probe_config \<Rightarrow> probe_net \<Rightarrow> observation" where
  "observe cfg net = \<lparr>ready_obs = http_get net (readyURL cfg), http_obs = http_get net (httpURL cfg),
     https_obs = tcp_dial net (httpsAddr cfg)\<rparr>"

text \<open>The requests a running program answers; \<open>Run\<close> exits with status 1 when the log settings are invalid or the server
  ends for another reason than its shutdown.\<close>

definition probe_server :: "probe_config \<Rightarrow> (string \<times> probe_net) list \<Rightarrow> nat list \<times> monitor" where
  "probe_server cfg reqs =
     fold (\<lambda>(path, net) (codes, m). case handle (probe_route path) (observe cfg net) m of (code, m') \<Rightarrow> (codes @ [code], m'))
       reqs ([], fresh_monitor)"

definition probe_Run ::
  "string option \<Rightarrow> (bool \<times> string) option \<Rightarrow> probe_config \<Rightarrow> (string \<times> probe_net) list \<Rightarrow> (nat list \<times> monitor) process" where
  "probe_Run log_err serve_end cfg reqs =
     (if log_err \<noteq> None then Exited 1
      else case serve_end of
        None \<Rightarrow> Running (probe_server cfg reqs)
      | Some (closed, err) \<Rightarrow> if closed then Exited 0 else Exited 1)"

lemma probe_server_run:
  "snd (probe_server cfg reqs) = monitor_run (map (\<lambda>(path, net). (probe_route path, observe cfg net)) reqs)
   \<and> length (fst (probe_server cfg reqs)) = length reqs"
proof -
  have "snd (fold (\<lambda>(path, net) (codes, m). case handle (probe_route path) (observe cfg net) m of (code, m') \<Rightarrow> (codes @ [code], m'))
        reqs (cs, m)) = fold (\<lambda>(h, ob) m. snd (handle h ob m)) (map (\<lambda>(path, net). (probe_route path, observe cfg net)) reqs) m
      \<and> length (fst (fold (\<lambda>(path, net) (codes, m). case handle (probe_route path) (observe cfg net) m of (code, m') \<Rightarrow> (codes @ [code], m'))
        reqs (cs, m))) = length cs + length reqs" for cs m
    by (induction reqs arbitrary: cs m) (auto split: prod.split)
  then show ?thesis by (simp add: probe_server_def monitor_run_def)
qed

section \<open>Concurrent probes\<close>

text \<open>Kubelet sends its probes independently of each other, so the monitors of several probes may interleave. Each monitor
  touches its flag once, after the network has answered: an interleaving is a sequence of such actions.\<close>

datatype action = ReadyAct http_outcome | HttpAct http_outcome | HttpsAct dial_outcome

definition monitor_step :: "action \<Rightarrow> monitor \<Rightarrow> (probe_err, unit) result \<times> monitor" where
  "monitor_step a m =
     (case a of
        ReadyAct o1 \<Rightarrow> (monitorReady o1, m)
      | HttpAct o1 \<Rightarrow> (case monitorHTTP o1 (httpActivated m) of (r, b) \<Rightarrow> (r, m\<lparr>httpActivated := b\<rparr>))
      | HttpsAct o1 \<Rightarrow> (case monitorHTTPS o1 (httpsActivated m) of (r, b) \<Rightarrow> (r, m\<lparr>httpsActivated := b\<rparr>)))"

definition monitor_steps :: "action list \<Rightarrow> monitor \<Rightarrow> monitor" where
  "monitor_steps as = fold (\<lambda>a m. snd (monitor_step a m)) as"

definition probe_actions :: "observation \<Rightarrow> action list" where
  "probe_actions ob = [ReadyAct (ready_obs ob), HttpAct (http_obs ob), HttpsAct (https_obs ob)]"

text \<open>A flag is set exactly when some action has reached its endpoint, in whichever order the actions ran.\<close>

lemma monitor_steps_flags:
  "monitor_steps as m =
     \<lparr>httpActivated = (httpActivated m \<or> (\<exists>code. HttpAct (Responded code) \<in> set as)),
      httpsActivated = (httpsActivated m \<or> HttpsAct Connected \<in> set as)\<rparr>"
proof (induction as arbitrary: m)
  case Nil
  show ?case by (simp add: monitor_steps_def)
next
  case (Cons a as)
  have "monitor_steps (a # as) m = monitor_steps as (snd (monitor_step a m))" by (simp add: monitor_steps_def)
  also have "\<dots> = \<lparr>httpActivated = (httpActivated m \<or> (\<exists>code. HttpAct (Responded code) \<in> set (a # as))),
      httpsActivated = (httpsActivated m \<or> HttpsAct Connected \<in> set (a # as))\<rparr>"
    unfolding Cons.IH
    by (cases a) (auto simp: monitor_step_def monitorHTTP_def monitorHTTPS_def split: http_outcome.splits dial_outcome.splits)
  finally show ?case .
qed

text \<open>An action fails exactly when its request cannot be built or its endpoint is down after it had been reached by an
  earlier action, of whichever probe.\<close>

lemma monitor_step_verdict:
  "fst (monitor_step (HttpAct o1) (monitor_steps as fresh_monitor)) = Inr () \<longleftrightarrow>
     (case o1 of BuildFailed _ \<Rightarrow> False | Responded _ \<Rightarrow> True
      | DoFailed _ \<Rightarrow> \<not> (\<exists>code. HttpAct (Responded code) \<in> set as))"
  "fst (monitor_step (HttpsAct o2) (monitor_steps as fresh_monitor)) = Inr () \<longleftrightarrow>
     o2 = Connected \<or> HttpsAct Connected \<notin> set as"
  by (auto simp: monitor_step_def monitor_steps_flags monitorHTTP_def monitorHTTPS_def fresh_monitor_def
      split: http_outcome.splits dial_outcome.splits)

text \<open>The actions of a probe that runs alone, in any order, have the effect of \<open>Probe\<close>.\<close>

lemma Probe_actions: "set as = set (probe_actions ob) \<Longrightarrow> monitor_steps as m = snd (Probe ob m)"
  by (auto simp: monitor_steps_flags probe_actions_def Probe_def monitorHTTP_def monitorHTTPS_def
      split: http_outcome.splits dial_outcome.splits)

end
