(* ===== verification/Tcp_Keepalive.thy ===== *)
theory Tcp_Keepalive
  imports Prelude
begin

text \<open>
  The keepalive client and server of tcp-keepalive. A run of the client is driven by a script: for each attempt
  what the name resolution, the dial and each message exchange do and whether the context is cancelled; a
  client whose script ends is still running. Go's \<open>uint64\<close> counters are natural numbers.

  The send and the receive of an exchange run in a goroutine that a timeout abandons; increments that such a
  goroutine makes later are not part of the model.
\<close>

section \<open>Client metrics\<close>

record cmetrics =
  retryTotal :: nat
  retryCount :: nat
  sendSuccessTotal :: nat
  sendErrorTotal :: nat
  sendTimeoutTotal :: nat
  receiveSuccessTotal :: nat
  receiveErrorTotal :: nat
  receiveTimeoutTotal :: nat
  connStateUnestablished :: nat
  connStateEstablished :: nat
  connStateClosed :: nat

definition setConnStateUnestablished :: "cmetrics \<Rightarrow> cmetrics" where
  "setConnStateUnestablished m = m\<lparr>connStateUnestablished := 1, connStateEstablished := 0, connStateClosed := 0\<rparr>"

definition setConnStateEstablished :: "cmetrics \<Rightarrow> cmetrics" where
  "setConnStateEstablished m = m\<lparr>connStateUnestablished := 0, connStateEstablished := 1, connStateClosed := 0\<rparr>"

definition setConnStateClosed :: "cmetrics \<Rightarrow> cmetrics" where
  "setConnStateClosed m = m\<lparr>connStateUnestablished := 0, connStateEstablished := 0, connStateClosed := 1\<rparr>"

section \<open>Exchanges\<close>

definition clientMessage :: string where
  "clientMessage = ''hello''"

datatype read_err = Eof | ErrClosed | OtherRead string

datatype conn_read = ReadOk string | ReadErr read_err

datatype cl_error =
    ResolveErr string | DialErr string | WriteErr string | GotEOF | ConnClosed | ReadFailed string
  | DeadlineExceeded | RetryLimitExceeded

definition Send :: "(string, unit) result \<Rightarrow> cmetrics \<Rightarrow> (cl_error, unit) result \<times> cmetrics" where
  "Send written m =
     (case written of
        Inl e \<Rightarrow> (Inl (WriteErr e), m\<lparr>sendErrorTotal := sendErrorTotal m + 1\<rparr>)
      | Inr _ \<Rightarrow> (Inr (), m\<lparr>sendSuccessTotal := sendSuccessTotal m + 1\<rparr>))"

text \<open>A read takes at most the 1024 bytes of the buffer.\<close>

definition Receive :: "conn_read \<Rightarrow> cmetrics \<Rightarrow> (cl_error, unit) result \<times> cmetrics" where
  "Receive rd m =
     (case rd of
        ReadErr e \<Rightarrow>
          (Inl (case e of Eof \<Rightarrow> GotEOF | ErrClosed \<Rightarrow> ConnClosed | OtherRead s \<Rightarrow> ReadFailed s),
           m\<lparr>receiveErrorTotal := receiveErrorTotal m + 1\<rparr>)
      | ReadOk bytes \<Rightarrow>
          let msg = take 1024 bytes in
          if msg \<noteq> clientMessage then (Inr (), m\<lparr>receiveErrorTotal := receiveErrorTotal m + 1\<rparr>)
          else (Inr (), m\<lparr>receiveSuccessTotal := receiveSuccessTotal m + 1\<rparr>))"

text \<open>One exchange as it races with the timeout. The goroutine sends, sets \<open>sendDone\<close> and receives; a timeout finds it
  before the send is done, between the end of the send and \<open>sendDone\<close> (or blocked with the error of the send), after
  \<open>sendDone\<close>, or blocked with the result of the receive, since \<open>select\<close> may take either of two ready cases.\<close>

datatype progress = NotSent | SendReturned "(string, unit) result" | SendDone | ReceiveReturned conn_read

datatype exchange = TimeoutAt progress | Completes "(string, unit) result" conn_read

text \<open>The goroutine up to a point: \<open>sendDone\<close> and the counters.\<close>

definition exchange_until :: "progress \<Rightarrow> cmetrics \<Rightarrow> bool \<times> cmetrics" where
  "exchange_until p m =
     (case p of
        NotSent \<Rightarrow> (False, m)
      | SendReturned written \<Rightarrow> (False, snd (Send written m))
      | SendDone \<Rightarrow> (True, snd (Send (Inr ()) m))
      | ReceiveReturned rd \<Rightarrow> (True, snd (Receive rd (snd (Send (Inr ()) m)))))"

definition SendAndReceive :: "exchange \<Rightarrow> cmetrics \<Rightarrow> (cl_error, unit) result \<times> cmetrics" where
  "SendAndReceive x m =
     (case x of
        TimeoutAt p \<Rightarrow>
          (case exchange_until p m of
             (False, m1) \<Rightarrow> (Inl DeadlineExceeded, m1\<lparr>sendTimeoutTotal := sendTimeoutTotal m1 + 1\<rparr>)
           | (True, m1) \<Rightarrow> (Inl DeadlineExceeded, m1\<lparr>receiveTimeoutTotal := receiveTimeoutTotal m1 + 1\<rparr>))
      | Completes written rd \<Rightarrow>
          (case Send written m of
             (Inl e, m1) \<Rightarrow> (Inl e, m1)
           | (Inr _, m1) \<Rightarrow> Receive rd m1))"

text \<open>A call has not returned at the end of the script, has returned, or has panicked.\<close>

datatype 'r call = Runs | Returns 'r | Panics string

text \<open>Exchanges with the choice of the \<open>select\<close> after each: \<^term>\<open>True\<close> when the context is done.\<close>

fun period_loop :: "(exchange \<times> bool) list \<Rightarrow> cmetrics \<Rightarrow> (cl_error, unit) result call \<times> cmetrics" where
  "period_loop [] m = (Runs, m)"
| "period_loop ((x, ctx_done) # xs) m =
     (case SendAndReceive x m of
        (Inl e, m1) \<Rightarrow> (Returns (Inl e), m1)
      | (Inr _, m1) \<Rightarrow> if ctx_done then (Returns (Inr ()), m1) else period_loop xs m1)"

text \<open>\<open>time.NewTicker\<close> panics on an interval that is not positive.\<close>

definition SendByPeriod :: "int \<Rightarrow> (exchange \<times> bool) list \<Rightarrow> cmetrics \<Rightarrow> (cl_error, unit) result call \<times> cmetrics" where
  "SendByPeriod sendInterval xs m =
     (if sendInterval \<le> 0 then (Panics ''non-positive interval for NewTicker'', m) else period_loop xs m)"

section \<open>Runs of the client\<close>

record attempt =
  ctx_err :: bool
  resolve :: "(string, unit) result"
  dial :: "(string, unit) result"
  exchanges :: "(exchange \<times> bool) list"

definition Dial :: "attempt \<Rightarrow> cmetrics \<Rightarrow> (cl_error, unit) result \<times> cmetrics" where
  "Dial a m =
     (case resolve a of
        Inl e \<Rightarrow> (Inl (ResolveErr e), m)
      | Inr _ \<Rightarrow> (case dial a of
                    Inl e \<Rightarrow> (Inl (DialErr e), m)
                  | Inr _ \<Rightarrow> (Inr (), setConnStateEstablished m)))"

text \<open>\<open>run\<close>: the deferred \<open>Close\<close> runs when the sending ends, by a panic too.\<close>

definition client_run :: "int \<Rightarrow> attempt \<Rightarrow> cmetrics \<Rightarrow> (cl_error, unit) result call \<times> cmetrics" where
  "client_run sendInterval a m =
     (case Dial a m of
        (Inl e, m1) \<Rightarrow> (Returns (Inl e), m1)
      | (Inr _, m1) \<Rightarrow>
          (case SendByPeriod sendInterval (exchanges a) m1 of
             (Runs, m2) \<Rightarrow> (Runs, m2)
           | (r, m2) \<Rightarrow> (r, setConnStateClosed m2)))"

text \<open>The loop for \<open>RetryNum < 0\<close>.\<close>

fun forever_loop :: "int \<Rightarrow> nat \<Rightarrow> attempt list \<Rightarrow> cmetrics \<Rightarrow> (cl_error, unit) result call \<times> cmetrics" where
  "forever_loop d cnt [] m = (Runs, m)"
| "forever_loop d cnt (a # as) m =
     (if ctx_err a then (Returns (Inr ()), m)
      else (case client_run d a (m\<lparr>retryTotal := cnt, retryCount := cnt\<rparr>) of
              (Returns _, m1) \<Rightarrow> forever_loop d (cnt + 1) as m1
            | (r, m1) \<Rightarrow> (r, m1)))"

text \<open>The loop for \<open>RetryNum \<ge> 0\<close>. After a run without error the index is set to 0 and then incremented.\<close>

fun retry_loop :: "int \<Rightarrow> nat \<Rightarrow> nat \<Rightarrow> attempt list \<Rightarrow> cmetrics \<Rightarrow> (cl_error, unit) result call \<times> cmetrics" where
  "retry_loop d n i [] m = (if n < i then (Returns (Inl RetryLimitExceeded), m) else (Runs, m))"
| "retry_loop d n i (a # as) m =
     (if n < i then (Returns (Inl RetryLimitExceeded), m)
      else let m0 = m\<lparr>retryCount := i\<rparr> in
        if ctx_err a then (Returns (Inr ()), m0)
        else (case client_run d a m0 of
                (Returns (Inl _), m1) \<Rightarrow> retry_loop d n (i + 1) as (m1\<lparr>retryTotal := retryTotal m1 + 1\<rparr>)
              | (Returns (Inr _), m1) \<Rightarrow> retry_loop d n 1 as m1
              | (r, m1) \<Rightarrow> (r, m1)))"

definition Run :: "int \<Rightarrow> int \<Rightarrow> attempt list \<Rightarrow> cmetrics \<Rightarrow> (cl_error, unit) result call \<times> cmetrics" where
  "Run sendInterval retryNum script m =
     (let m0 = setConnStateUnestablished m
      in if retryNum < 0 then forever_loop sendInterval 0 script m0
         else retry_loop sendInterval (nat retryNum) 0 script m0)"

section \<open>Server\<close>

record smetrics =
  sv_receiveSuccess :: nat
  sv_receiveError :: nat
  sv_sendSuccess :: nat
  sv_sendError :: nat

definition Recieve :: "conn_read \<Rightarrow> smetrics \<Rightarrow> (cl_error, string) result \<times> smetrics" where
  "Recieve rd m =
     (case rd of
        ReadErr e \<Rightarrow>
          (Inl (case e of Eof \<Rightarrow> GotEOF | ErrClosed \<Rightarrow> ConnClosed | OtherRead s \<Rightarrow> ReadFailed s),
           m\<lparr>sv_receiveError := sv_receiveError m + 1\<rparr>)
      | ReadOk bytes \<Rightarrow> (Inr (take 1024 bytes), m\<lparr>sv_receiveSuccess := sv_receiveSuccess m + 1\<rparr>))"

text \<open>The connection is written through \<open>conn_write\<close>, which keeps what has been written in a state of its own.\<close>

definition server_Send ::
  "(string \<Rightarrow> 'o \<Rightarrow> (string, unit) result \<times> 'o) \<Rightarrow> string \<Rightarrow> 'o \<Rightarrow> smetrics \<Rightarrow> (cl_error, unit) result \<times> 'o \<times> smetrics" where
  "server_Send conn_write msg ou m =
     (case conn_write msg ou of
        (Inl e, ou') \<Rightarrow> (Inl (WriteErr e), ou', m\<lparr>sv_sendError := sv_sendError m + 1\<rparr>)
      | (Inr _, ou') \<Rightarrow> (Inr (), ou', m\<lparr>sv_sendSuccess := sv_sendSuccess m + 1\<rparr>))"

definition server_handle ::
  "conn_read \<Rightarrow> (string \<Rightarrow> 'o \<Rightarrow> (string, unit) result \<times> 'o) \<Rightarrow> 'o \<Rightarrow> smetrics \<Rightarrow> (cl_error, unit) result \<times> 'o \<times> smetrics" where
  "server_handle rd conn_write ou m =
     (case Recieve rd m of
        (Inl e, m1) \<Rightarrow> (Inl e, ou, m1)
      | (Inr msg, m1) \<Rightarrow> server_Send conn_write msg ou m1)"

text \<open>\<open>Handle\<close>: rounds of \<open>handle\<close>, each with whether the context is done when its result is taken; then
  that result is returned. \<^term>\<open>None\<close> while the connection is served.\<close>

fun server_Handle ::
  "(conn_read \<times> (string \<Rightarrow> 'o \<Rightarrow> (string, unit) result \<times> 'o) \<times> bool) list \<Rightarrow> 'o \<Rightarrow> smetrics
     \<Rightarrow> (cl_error, unit) result option \<times> 'o \<times> smetrics" where
  "server_Handle [] ou m = (None, ou, m)"
| "server_Handle ((rd, wr, ctx_done) # rounds) ou m =
     (case server_handle rd wr ou m of
        (r, ou1, m1) \<Rightarrow>
          if ctx_done then (Some r, ou1, m1)
          else (case r of Inl e \<Rightarrow> (Some (Inl e), ou1, m1) | Inr _ \<Rightarrow> server_Handle rounds ou1 m1))"

section \<open>Connection state\<close>

text \<open>Exactly one of the three gauges is set.\<close>

definition one_hot :: "cmetrics \<Rightarrow> bool" where
  "one_hot m \<longleftrightarrow> (connStateUnestablished m, connStateEstablished m, connStateClosed m) \<in> {(1, 0, 0), (0, 1, 0), (0, 0, 1)}"

lemma one_hot_set [simp]:
  "one_hot (setConnStateUnestablished m)" "one_hot (setConnStateEstablished m)" "one_hot (setConnStateClosed m)"
  by (simp_all add: one_hot_def setConnStateUnestablished_def setConnStateEstablished_def setConnStateClosed_def)

lemma one_hot_counters [simp]:
  "one_hot (m\<lparr>retryTotal := a\<rparr>) = one_hot m" "one_hot (m\<lparr>retryCount := a\<rparr>) = one_hot m"
  "one_hot (m\<lparr>sendSuccessTotal := a\<rparr>) = one_hot m" "one_hot (m\<lparr>sendErrorTotal := a\<rparr>) = one_hot m"
  "one_hot (m\<lparr>sendTimeoutTotal := a\<rparr>) = one_hot m" "one_hot (m\<lparr>receiveSuccessTotal := a\<rparr>) = one_hot m"
  "one_hot (m\<lparr>receiveErrorTotal := a\<rparr>) = one_hot m" "one_hot (m\<lparr>receiveTimeoutTotal := a\<rparr>) = one_hot m"
  by (simp_all add: one_hot_def)

lemma SendAndReceive_keeps:
  "one_hot (snd (SendAndReceive x m)) = one_hot m \<and> retryTotal (snd (SendAndReceive x m)) = retryTotal m"
  by (auto simp: SendAndReceive_def exchange_until_def Send_def Receive_def Let_def
      split: exchange.splits progress.splits sum.splits conn_read.splits)

lemma period_loop_keeps:
  "one_hot (snd (period_loop xs m)) = one_hot m \<and> retryTotal (snd (period_loop xs m)) = retryTotal m"
proof (induction xs arbitrary: m)
  case (Cons xb xs)
  obtain x b where xb: "xb = (x, b)" by fastforce
  obtain r m1 where r: "SendAndReceive x m = (r, m1)" by fastforce
  have "one_hot m1 = one_hot m" "retryTotal m1 = retryTotal m" using SendAndReceive_keeps [of x m] r by simp_all
  then show ?case using Cons [of m1] by (cases r) (simp_all add: xb r)
qed simp

lemma client_run_keeps:
  "(one_hot m \<longrightarrow> one_hot (snd (client_run d a m))) \<and> retryTotal (snd (client_run d a m)) = retryTotal m"
proof (cases "Dial a m")
  case (Pair c m1)
  have m1: "one_hot m \<longrightarrow> one_hot m1" "retryTotal m1 = retryTotal m"
    using Pair by (auto simp: Dial_def split: sum.splits) (simp_all add: setConnStateEstablished_def)
  obtain r m2 where r: "SendByPeriod d (exchanges a) m1 = (r, m2)" by fastforce
  have "one_hot m2 = one_hot m1" "retryTotal m2 = retryTotal m1"
    using period_loop_keeps [of "exchanges a" m1] r by (auto simp: SendByPeriod_def split: if_splits)
  moreover have "retryTotal (setConnStateClosed m2) = retryTotal m2" by (simp add: setConnStateClosed_def)
  ultimately show ?thesis
    using m1 Pair r by (cases c; cases r) (simp_all add: client_run_def)
qed

lemma forever_loop_one_hot: "one_hot m \<Longrightarrow> one_hot (snd (forever_loop d cnt as m))"
proof (induction as arbitrary: cnt m)
  case (Cons a as)
  have "one_hot (snd (client_run d a (m\<lparr>retryTotal := cnt, retryCount := cnt\<rparr>)))"
    using client_run_keeps [of "m\<lparr>retryTotal := cnt, retryCount := cnt\<rparr>" d a] Cons.prems by simp
  then show ?case using Cons by (auto split: prod.splits call.splits)
qed simp

lemma retry_loop_one_hot: "one_hot m \<Longrightarrow> one_hot (snd (retry_loop d n i as m))"
proof (induction as arbitrary: i m)
  case (Cons a as)
  have "one_hot (snd (client_run d a (m\<lparr>retryCount := i\<rparr>)))"
    using client_run_keeps [of "m\<lparr>retryCount := i\<rparr>" d a] Cons.prems by simp
  then show ?case using Cons by (auto simp: Let_def split: prod.splits call.splits sum.splits)
qed simp

section \<open>Retries\<close>

text \<open>An attempt that fails, and one that ends because the context is done.\<close>

definition fails :: "int \<Rightarrow> attempt \<Rightarrow> bool" where
  "fails d a \<longleftrightarrow> \<not> ctx_err a \<and> (\<exists>e. \<forall>m. fst (client_run d a m) = Returns (Inl e))"

definition cancelled_in :: "int \<Rightarrow> attempt \<Rightarrow> bool" where
  "cancelled_in d a \<longleftrightarrow> \<not> ctx_err a \<and> (\<forall>m. fst (client_run d a m) = Returns (Inr ()))"

lemma retry_loop_fails:
  assumes "list_all (fails d) bs" and "i + length bs \<le> n + 1"
  shows "\<exists>m'. retry_loop d n i (bs @ as) m = retry_loop d n (i + length bs) as m' \<and> retryTotal m' = retryTotal m + length bs"
  using assms
proof (induction bs arbitrary: i m)
  case (Cons b bs)
  obtain e where e: "\<not> ctx_err b" "fst (client_run d b (m\<lparr>retryCount := i\<rparr>)) = Returns (Inl e)"
    using Cons.prems(1) by (auto simp: fails_def)
  then obtain m1 where m1: "client_run d b (m\<lparr>retryCount := i\<rparr>) = (Returns (Inl e), m1)" by (metis prod.collapse)
  have t: "retryTotal m1 = retryTotal m" using client_run_keeps [of "m\<lparr>retryCount := i\<rparr>" d b] m1 by simp
  have "retry_loop d n i ((b # bs) @ as) m = retry_loop d n (i + 1) (bs @ as) (m1\<lparr>retryTotal := retryTotal m1 + 1\<rparr>)"
    using Cons.prems(2) e(1) m1 by (simp add: Let_def)
  moreover have "\<exists>m'. retry_loop d n (i + 1) (bs @ as) (m1\<lparr>retryTotal := retryTotal m1 + 1\<rparr>)
      = retry_loop d n (i + 1 + length bs) as m' \<and> retryTotal m' = retryTotal m1 + 1 + length bs"
    using Cons.IH [of "i + 1" "m1\<lparr>retryTotal := retryTotal m1 + 1\<rparr>"] Cons.prems by simp
  ultimately show ?case using t by simp
qed auto

section \<open>Properties\<close>

text \<open>
  The connection gauges of the client are consistent: whatever the network and the context do, at the end of a
  (finished or still running) script exactly one of unestablished, established and closed is 1 and the others
  are 0.
\<close>

theorem Run_one_hot: "one_hot (snd (Run sendInterval retryNum script m))"
  by (simp add: Run_def Let_def forever_loop_one_hot retry_loop_one_hot)

text \<open>
  C22. With a limit of \<open>n\<close> retries a client whose attempts all fail gives up after exactly \<open>n + 1\<close> attempts: it is
  still running after \<open>n\<close> of them, and after one more it returns the retry error and has counted \<open>n + 1\<close> retries,
  whatever would come next.
\<close>

theorem Run_gives_up:
  assumes "list_all (fails d) bs" and "length bs = n + 1"
  shows "fst (Run d (int n) (bs @ rest) m) = Returns (Inl RetryLimitExceeded)
     \<and> retryTotal (snd (Run d (int n) (bs @ rest) m)) = retryTotal m + n + 1
     \<and> fst (Run d (int n) (take n bs) m) = Runs"
proof -
  let ?m = "setConnStateUnestablished m"
  obtain m' where m': "retry_loop d n 0 (bs @ rest) ?m = retry_loop d n (n + 1) rest m'"
      "retryTotal m' = retryTotal ?m + (n + 1)"
    using retry_loop_fails [OF assms(1), of 0 n rest ?m] assms(2) by auto
  have e: "retry_loop d n (n + 1) rest m' = (Returns (Inl RetryLimitExceeded), m')" by (cases rest) simp_all
  have "list_all (fails d) (take n bs)" using assms(1) by (auto simp: list_all_iff dest: in_set_takeD)
  then obtain m2 where "retry_loop d n 0 (take n bs @ []) ?m = retry_loop d n (0 + length (take n bs)) [] m2"
    using retry_loop_fails [of d "take n bs" 0 n "[]" ?m] assms(2) by auto
  moreover have "length (take n bs) = n" using assms(2) by simp
  ultimately have r: "fst (retry_loop d n 0 (take n bs) ?m) = Runs" by simp
  show ?thesis
    using m' e r by (simp add: Run_def setConnStateUnestablished_def)
qed

text \<open>
  C23. What a client returns when the context is cancelled while it is connected, after \<open>k\<close> failed attempts: nil, as
  for a cancellation between attempts, except that without retries (the default of the command line) it
  returns the retry error, because the index is reset to 0 and then incremented past the limit.
\<close>

theorem Run_cancelled:
  assumes "list_all (fails d) bs" and "length bs \<le> n" and "cancelled_in d a" and "ctx_err b"
  shows "fst (Run d (int n) (bs @ a # b # rest) m) = Returns (if n = 0 then Inl RetryLimitExceeded else Inr ())"
proof -
  obtain m' where m': "retry_loop d n 0 (bs @ a # b # rest) (setConnStateUnestablished m)
      = retry_loop d n (length bs) (a # b # rest) m'"
    using retry_loop_fails [OF assms(1), of 0 n "a # b # rest"] assms(2) by auto
  obtain m1 where "client_run d a (m'\<lparr>retryCount := length bs\<rparr>) = (Returns (Inr ()), m1)" "\<not> ctx_err a"
    using assms(3) unfolding cancelled_in_def by (metis prod.collapse)
  then have "retry_loop d n (length bs) (a # b # rest) m' = retry_loop d n 1 (b # rest) m1"
    using assms(2) by (simp add: Let_def)
  then show ?thesis using m' assms(4) by (simp add: Run_def Let_def)
qed

text \<open>An interval that is not positive passes the validation of the settings; such a client runs until it is
  connected and then panics.\<close>

lemma Run_panics:
  assumes "list_all (fails d) bs" and "retryNum < 0 \<or> int (length bs) \<le> retryNum" and "d \<le> 0" and "\<not> ctx_err a"
    and "resolve a = Inr ()" and "dial a = Inr ()"
  shows "fst (Run d retryNum (bs @ a # rest) m) = Panics ''non-positive interval for NewTicker''"
proof (cases "retryNum < 0")
  case True
  have "fst (forever_loop d cnt (bs @ a # rest) m) = Panics ''non-positive interval for NewTicker''" for cnt m
    using assms(1)
  proof (induction bs arbitrary: cnt m)
    case Nil
    show ?case using assms(3-6) by (simp add: client_run_def Dial_def SendByPeriod_def)
  next
    case (Cons b bs)
    obtain e where "\<not> ctx_err b" "fst (client_run d b (m\<lparr>retryTotal := cnt, retryCount := cnt\<rparr>)) = Returns (Inl e)"
      using Cons.prems by (auto simp: fails_def)
    then show ?case using Cons by (auto split: prod.splits)
  qed
  then show ?thesis using True by (simp add: Run_def Let_def)
next
  case False
  then have "0 + length bs \<le> nat retryNum + 1" using assms(2) by linarith
  from retry_loop_fails [OF assms(1) this, of "a # rest" "setConnStateUnestablished m"]
  obtain m' where "retry_loop d (nat retryNum) 0 (bs @ a # rest) (setConnStateUnestablished m)
      = retry_loop d (nat retryNum) (length bs) (a # rest) m'" by auto
  then show ?thesis using False assms(2-6)
    by (simp add: Run_def Let_def client_run_def Dial_def SendByPeriod_def not_less nat_less_iff)
qed

text \<open>
  Client and server fit together: when the client's message reaches the server and the server's answer reaches the
  client, the server echoes the message, the exchange succeeds, and both sides count one successful send
  and one successful receive and nothing else.
\<close>

lemma echo_roundtrip:
  assumes "server_handle (ReadOk clientMessage) (\<lambda>d ou. (Inr (), ou @ d)) [] sm = (r, echo, sm')"
  shows "r = Inr () \<and> sm' = sm\<lparr>sv_receiveSuccess := sv_receiveSuccess sm + 1, sv_sendSuccess := sv_sendSuccess sm + 1\<rparr>
    \<and> SendAndReceive (Completes (Inr ()) (ReadOk echo)) m =
      (Inr (), m\<lparr>sendSuccessTotal := sendSuccessTotal m + 1, receiveSuccessTotal := receiveSuccessTotal m + 1\<rparr>)"
proof -
  have "r = Inr ()" "echo = clientMessage"
    "sm' = sm\<lparr>sv_receiveSuccess := sv_receiveSuccess sm + 1, sv_sendSuccess := sv_sendSuccess sm + 1\<rparr>"
    using assms by (auto simp: server_handle_def Recieve_def server_Send_def clientMessage_def)
  then show ?thesis by (simp add: SendAndReceive_def Send_def Receive_def clientMessage_def)
qed

section \<open>Examples\<close>

definition down :: attempt where
  "down = \<lparr>ctx_err = False, resolve = Inr (), dial = Inl ''refused'', exchanges = []\<rparr>"

definition until_cancel :: attempt where
  "until_cancel = \<lparr>ctx_err = False, resolve = Inr (), dial = Inr (),
     exchanges = [(Completes (Inr ()) (ReadOk ''hello''), False), (Completes (Inr ()) (ReadOk ''hello''), True)]\<rparr>"

definition after_cancel :: attempt where
  "after_cancel = down\<lparr>ctx_err := True\<rparr>"

definition zero_metrics :: cmetrics where
  "zero_metrics = \<lparr>retryTotal = 0, retryCount = 0, sendSuccessTotal = 0, sendErrorTotal = 0, sendTimeoutTotal = 0,
     receiveSuccessTotal = 0, receiveErrorTotal = 0, receiveTimeoutTotal = 0, connStateUnestablished = 0,
     connStateEstablished = 0, connStateClosed = 0\<rparr>"

lemma down_fails: "fails d down"
  by (simp add: fails_def down_def client_run_def Dial_def)

lemma until_cancel_cancelled: "0 < d \<Longrightarrow> cancelled_in d until_cancel"
  by (simp add: cancelled_in_def until_cancel_def client_run_def Dial_def SendByPeriod_def SendAndReceive_def Send_def Receive_def
      clientMessage_def)

theorem Run_gives_up_witness:
  "fst (Run 5 (int 2) ([down, down, down] @ [until_cancel]) zero_metrics) = Returns (Inl RetryLimitExceeded)
     \<and> retryTotal (snd (Run 5 (int 2) ([down, down, down] @ [until_cancel]) zero_metrics)) = 3
     \<and> fst (Run 5 (int 2) [down, down] zero_metrics) = Runs"
proof -
  have z: "retryTotal zero_metrics = 0" by (simp add: zero_metrics_def)
  have t: "take 2 [down, down, down] = [down, down]" by simp
  have "list_all (fails 5) [down, down, down]" "length [down, down, down] = 2 + 1" by (simp_all add: down_fails)
  from Run_gives_up [OF this, of "[until_cancel]" zero_metrics] show ?thesis unfolding z t by simp
qed

theorem Run_cancelled_witness:
  "fst (Run 5 (int 0) ([] @ until_cancel # after_cancel # []) zero_metrics) = Returns (Inl RetryLimitExceeded)
   \<and> fst (Run 5 (int 1) ([down] @ until_cancel # after_cancel # []) zero_metrics) = Returns (Inr ())"
  using Run_cancelled [of 5 "[]" 0 until_cancel after_cancel "[]" zero_metrics]
    Run_cancelled [of 5 "[down]" 1 until_cancel after_cancel "[]" zero_metrics]
  by (simp add: down_fails until_cancel_cancelled after_cancel_def)

end
