(* ===== verification/Keepalive_Server.thy ===== *)
theory Keepalive_Server
  imports Tcp_Keepalive
begin

text \<open>
  The server of tcp-keepalive as a whole (\<open>internal/server\<close>), with the validation of the settings of both programs: the
  accept loop, the two goroutines of each connection (the one that runs \<open>Handle\<close> and the reader that it starts) and the
  counters that they share, as a step relation. The listener, the connections and \<open>net.ResolveTCPAddr\<close> are decided by
  the environment.
\<close>

section \<open>Settings\<close>

record metrics_config =
  Export :: bool
  AddrPort :: string

definition metrics_Validate :: "(string \<Rightarrow> string option) \<Rightarrow> metrics_config \<Rightarrow> (string, unit) result" where
  "metrics_Validate ParseAddrPort cfg =
     (case ParseAddrPort (AddrPort cfg) of Some e \<Rightarrow> Inl e | None \<Rightarrow> Inr ())"

text \<open>\<open>NewMetrics\<close>; a nil configuration is \<^term>\<open>None\<close>.\<close>

definition NewMetrics :: "(string \<Rightarrow> string option) \<Rightarrow> metrics_config option \<Rightarrow> (string, metrics_config) result" where
  "NewMetrics ParseAddrPort cfg =
     (case cfg of
        None \<Rightarrow> Inl ''metrics config is nil''
      | Some c \<Rightarrow> (case metrics_Validate ParseAddrPort c of Inl e \<Rightarrow> Inl e | Inr _ \<Rightarrow> Inr c))"

text \<open>Durations are in nanoseconds.\<close>

record client_config =
  ReceiveTimeout :: int
  RetryInterval :: int
  RetryNum :: int
  SendInterval :: int
  ServerAddr :: string

definition client_Validate :: "(string \<Rightarrow> string option) \<Rightarrow> client_config \<Rightarrow> (string, unit) result" where
  "client_Validate ResolveTCPAddr cfg =
     (case ResolveTCPAddr (ServerAddr cfg) of Some e \<Rightarrow> Inl e | None \<Rightarrow> Inr ())"

definition NewClient ::
  "(string \<Rightarrow> string option) \<Rightarrow> (string \<Rightarrow> string option) \<Rightarrow> client_config \<Rightarrow> metrics_config option
     \<Rightarrow> (string, client_config \<times> metrics_config) result" where
  "NewClient ResolveTCPAddr ParseAddrPort cfg mcfg =
     (case client_Validate ResolveTCPAddr cfg of
        Inl e \<Rightarrow> Inl e
      | Inr _ \<Rightarrow> (case NewMetrics ParseAddrPort mcfg of Inl e \<Rightarrow> Inl e | Inr m \<Rightarrow> Inr (cfg, m)))"

definition server_Validate :: "(string \<Rightarrow> string option) \<Rightarrow> string \<Rightarrow> (string, unit) result" where
  "server_Validate ResolveTCPAddr listenAddr =
     (case ResolveTCPAddr listenAddr of Some e \<Rightarrow> Inl e | None \<Rightarrow> Inr ())"

definition NewServer ::
  "(string \<Rightarrow> string option) \<Rightarrow> (string \<Rightarrow> string option) \<Rightarrow> string \<Rightarrow> metrics_config option
     \<Rightarrow> (string, string \<times> metrics_config) result" where
  "NewServer ResolveTCPAddr ParseAddrPort listenAddr mcfg =
     (case server_Validate ResolveTCPAddr listenAddr of
        Inl e \<Rightarrow> Inl e
      | Inr _ \<Rightarrow> (case NewMetrics ParseAddrPort mcfg of Inl e \<Rightarrow> Inl e | Inr m \<Rightarrow> Inr (listenAddr, m)))"

section \<open>The server\<close>

text \<open>Where the accept loop stands: before the test of the context, in \<open>Accept\<close>, or returned.\<close>

datatype accept_pc = AtTop | Accepting | Returned

text \<open>Where the reader of a connection stands: in \<open>Recieve\<close>, in \<open>Send\<close> with a message, or blocked on the channel
  with a result. \<open>Handle\<close> waits for results until it has returned one.\<close>

datatype reader = Reading | Sending string | Handing "(cl_error, unit) result"

datatype handler = Handling | HandleReturned "(cl_error, unit) result"

record conn_state =
  c_reader :: reader
  c_handler :: handler
  c_closed :: bool
  c_received :: "string list"
  c_written :: "(string \<times> bool) list"

text \<open>The two ends of the connection as the network sees them: \<open>c_received\<close> are the texts that the reads delivered, in
  order, and \<open>c_written\<close> the bytes handed to each call of \<open>Write\<close>, with whether the call succeeded. \<open>s_late\<close> is
  the number of connections accepted after the context was done. They are for the statements only. The listener is nil,
  open or closed.\<close>

record srv =
  s_pc :: accept_pc
  s_ctx_done :: bool
  s_listener :: "bool option"
  s_conns :: "nat \<rightharpoonup> conn_state"
  s_metrics :: smetrics
  s_late :: nat

definition srv_new :: "srv" where
  "srv_new = \<lparr>s_pc = AtTop, s_ctx_done = False, s_listener = None, s_conns = Map.empty,
     s_metrics = \<lparr>sv_receiveSuccess = 0, sv_receiveError = 0, sv_sendSuccess = 0, sv_sendError = 0\<rparr>, s_late = 0\<rparr>"

definition Listen :: "(string, unit) result \<Rightarrow> (string, unit) result \<Rightarrow> srv \<Rightarrow> (string, srv) result" where
  "Listen resolved listened s =
     (case resolved of
        Inl e \<Rightarrow> Inl (''failed to resolve address: '' @ e)
      | Inr _ \<Rightarrow> (case listened of
                    Inl e \<Rightarrow> Inl (''failed to start listen: '' @ e)
                  | Inr _ \<Rightarrow> Inr (s\<lparr>s_listener := Some True\<rparr>)))"

definition server_Close :: "srv \<Rightarrow> srv" where
  "server_Close s = (case s_listener s of None \<Rightarrow> s | Some _ \<Rightarrow> s\<lparr>s_listener := Some False\<rparr>)"

text \<open>\<open>Accept\<close> gives the next connection of the environment, or an error when there is none or the listener is closed.\<close>

definition Accept :: "nat option \<Rightarrow> srv \<Rightarrow> nat option" where
  "Accept pending s = (if s_listener s = Some True then pending else None)"

text \<open>The state in which the accept loop starts.\<close>

definition srv_start :: "srv" where
  "srv_start = srv_new\<lparr>s_listener := Some True\<rparr>"

text \<open>The head of the loop: \<open>Run\<close> returns nil when the context is done, and the deferred \<open>Close\<close> runs.\<close>

definition loop_top :: "srv \<Rightarrow> srv" where
  "loop_top s = (if s_ctx_done s then server_Close (s\<lparr>s_pc := Returned\<rparr>) else s\<lparr>s_pc := Accepting\<rparr>)"

text \<open>\<open>Accept\<close> returned a new connection, which gets its goroutines, or an error, which is only logged.\<close>

definition accepted :: "nat option \<Rightarrow> srv \<Rightarrow> srv" where
  "accepted c s =
     (case c of
        None \<Rightarrow> s\<lparr>s_pc := AtTop\<rparr>
      | Some i \<Rightarrow> s\<lparr>s_pc := AtTop,
                    s_conns := (s_conns s)(i \<mapsto> \<lparr>c_reader = Reading, c_handler = Handling, c_closed = False,
                                               c_received = [], c_written = []\<rparr>),
                    s_late := s_late s + (if s_ctx_done s then 1 else 0)\<rparr>)"

text \<open>\<open>Read\<close> and \<open>Write\<close> of the connection: a read fills at most a buffer of the caller, 1024 bytes; a write is noted with
  the bytes that it is given.\<close>

definition conn_Read :: "conn_read \<Rightarrow> string list \<Rightarrow> string list" where
  "conn_Read rd got = (case rd of ReadOk bytes \<Rightarrow> got @ [take 1024 bytes] | ReadErr _ \<Rightarrow> got)"

definition conn_Write ::
  "(string \<Rightarrow> (string, unit) result) \<Rightarrow> string \<Rightarrow> (string \<times> bool) list \<Rightarrow> (string, unit) result \<times> (string \<times> bool) list" where
  "conn_Write wr bytes written = (wr bytes, written @ [(bytes, wr bytes = Inr ())])"

text \<open>The reader: \<open>handle\<close> in two steps, then the result is offered on the channel.\<close>

definition reader_receive :: "nat \<Rightarrow> conn_state \<Rightarrow> conn_read \<Rightarrow> srv \<Rightarrow> srv" where
  "reader_receive i c rd s =
     (let c' = c\<lparr>c_received := conn_Read rd (c_received c)\<rparr>
      in case Recieve rd (s_metrics s) of
           (Inl e, m) \<Rightarrow> s\<lparr>s_metrics := m, s_conns := (s_conns s)(i \<mapsto> c'\<lparr>c_reader := Handing (Inl e)\<rparr>)\<rparr>
         | (Inr msg, m) \<Rightarrow> s\<lparr>s_metrics := m, s_conns := (s_conns s)(i \<mapsto> c'\<lparr>c_reader := Sending msg\<rparr>)\<rparr>)"

definition reader_send :: "nat \<Rightarrow> conn_state \<Rightarrow> string \<Rightarrow> (string \<Rightarrow> (string, unit) result) \<Rightarrow> srv \<Rightarrow> srv" where
  "reader_send i c msg wr s =
     (case server_Send (conn_Write wr) msg (c_written c) (s_metrics s) of
        (r, written, m) \<Rightarrow> s\<lparr>s_metrics := m, s_conns := (s_conns s)(i \<mapsto> c\<lparr>c_reader := Handing r, c_written := written\<rparr>)\<rparr>)"

text \<open>\<open>Handle\<close> takes a result: it returns it when its \<open>select\<close> saw the context done, and an error in any case. The
  reader starts over either way.\<close>

definition handle_result :: "nat \<Rightarrow> conn_state \<Rightarrow> (cl_error, unit) result \<Rightarrow> bool \<Rightarrow> srv \<Rightarrow> srv" where
  "handle_result i c r saw_done s =
     s\<lparr>s_conns := (s_conns s)(i \<mapsto> c\<lparr>c_reader := Reading,
         c_handler := (if saw_done then HandleReturned r else case r of Inl e \<Rightarrow> HandleReturned (Inl e) | Inr _ \<Rightarrow> Handling)\<rparr>)\<rparr>"

text \<open>The connection is closed after \<open>Handle\<close> has returned.\<close>

definition conn_Close :: "nat \<Rightarrow> conn_state \<Rightarrow> srv \<Rightarrow> srv" where
  "conn_Close i c s = s\<lparr>s_conns := (s_conns s)(i \<mapsto> c\<lparr>c_closed := True\<rparr>)\<rparr>"

text \<open>Reads and writes on a closed connection fail.\<close>

inductive srv_step :: "srv \<Rightarrow> srv \<Rightarrow> bool" where
  top: "s_pc s = AtTop \<Longrightarrow> srv_step s (loop_top s)"
| accept: "s_pc s = Accepting \<Longrightarrow> (\<And>i. c = Some i \<Longrightarrow> s_conns s i = None) \<Longrightarrow> srv_step s (accepted (Accept c s) s)"
| receive: "s_conns s i = Some c \<Longrightarrow> c_reader c = Reading \<Longrightarrow> (c_closed c \<Longrightarrow> \<exists>e. rd = ReadErr e)
    \<Longrightarrow> srv_step s (reader_receive i c rd s)"
| send: "s_conns s i = Some c \<Longrightarrow> c_reader c = Sending msg \<Longrightarrow> (c_closed c \<Longrightarrow> \<exists>e. wr msg = Inl e)
    \<Longrightarrow> srv_step s (reader_send i c msg wr s)"
| result: "s_conns s i = Some c \<Longrightarrow> c_reader c = Handing r \<Longrightarrow> c_handler c = Handling \<Longrightarrow> (saw_done \<Longrightarrow> s_ctx_done s)
    \<Longrightarrow> srv_step s (handle_result i c r saw_done s)"
| close: "s_conns s i = Some c \<Longrightarrow> c_handler c = HandleReturned r \<Longrightarrow> srv_step s (conn_Close i c s)"
| cancel: "srv_step s (s\<lparr>s_ctx_done := True\<rparr>)"

inductive srv_reach :: "srv \<Rightarrow> bool" where
  srv_init: "srv_reach srv_start"
| srv_next: "srv_reach s \<Longrightarrow> srv_step s s' \<Longrightarrow> srv_reach s'"

lemma Listen_start: "Listen (Inr ()) (Inr ()) srv_new = Inr srv_start"
  by (simp add: Listen_def srv_start_def)

section \<open>Properties\<close>

text \<open>The connections whose reader has received a message and not yet tried to answer it.\<close>

definition sending :: "srv \<Rightarrow> nat set" where
  "sending s = {i. \<exists>c msg. s_conns s i = Some c \<and> c_reader c = Sending msg}"

definition all_but_last :: "nat \<Rightarrow> (string \<times> bool) list \<Rightarrow> bool" where
  "all_but_last k l \<longleftrightarrow> list_all snd (take (length l - k) l)"

text \<open>How many of the last messages may have failed.\<close>

definition slack :: "conn_state \<Rightarrow> nat" where
  "slack c =
     (case c_handler c of
        Handling \<Rightarrow> (case c_reader c of Handing (Inl _) \<Rightarrow> 1 | _ \<Rightarrow> 0)
      | HandleReturned _ \<Rightarrow> (case c_reader c of Handing _ \<Rightarrow> 2 | _ \<Rightarrow> 1))"

text \<open>The message that the reader has received and not yet written back.\<close>

definition unanswered :: "conn_state \<Rightarrow> string list" where
  "unanswered c = (case c_reader c of Sending msg \<Rightarrow> [msg] | _ \<Rightarrow> [])"

definition conn_ok :: "conn_state \<Rightarrow> bool" where
  "conn_ok c \<longleftrightarrow> map fst (c_written c) @ unanswered c = c_received c \<and> all_but_last (slack c) (c_written c)
     \<and> (c_closed c \<longrightarrow> c_handler c \<noteq> Handling)"

definition srv_inv :: "srv \<Rightarrow> bool" where
  "srv_inv s \<longleftrightarrow> finite (dom (s_conns s))
     \<and> sv_receiveSuccess (s_metrics s) = sv_sendSuccess (s_metrics s) + sv_sendError (s_metrics s) + card (sending s)
     \<and> (\<forall>i c. s_conns s i = Some c \<longrightarrow> conn_ok c)
     \<and> (if s_ctx_done s then s_late s \<le> (if s_pc s = Accepting then 0 else 1) else s_late s = 0)
     \<and> (if s_pc s = Returned then s_ctx_done s \<and> s_listener s = Some False else s_listener s = Some True)"

lemma all_but_last_mono:
  assumes "all_but_last k l" and "k \<le> k'"
  shows "all_but_last k' l"
proof -
  have "set (take (length l - k') l) \<subseteq> set (take (length l - k) l)"
    by (rule set_take_subset_set_take) (use assms(2) in simp)
  then show ?thesis using assms(1) by (auto simp: all_but_last_def list_all_iff)
qed

lemma all_but_last_snoc:
  "all_but_last k l \<Longrightarrow> all_but_last (Suc k) (l @ [x])"
  "all_but_last 0 l \<Longrightarrow> snd x \<Longrightarrow> all_but_last 0 (l @ [x])"
  by (simp_all add: all_but_last_def)

text \<open>Replacing the state of one connection.\<close>

lemma sending_upd:
  "sending (s\<lparr>s_metrics := m, s_conns := (s_conns s)(i \<mapsto> c)\<rparr>) =
     (if \<exists>msg. c_reader c = Sending msg then insert i (sending s) else sending s - {i})"
  by (auto simp: sending_def split: if_splits)

lemma sending_subset: "sending s \<subseteq> dom (s_conns s)"
  by (auto simp: sending_def)

text \<open>A step of one connection keeps the invariant when the counters follow the reader into and out of \<open>Send\<close>.\<close>

lemma conn_update_inv:
  assumes inv: "srv_inv s" and c: "s_conns s i = Some c" and ok: "conn_ok c \<Longrightarrow> conn_ok c'"
    and counts: "sv_receiveSuccess m + sv_sendSuccess (s_metrics s) + sv_sendError (s_metrics s) + of_bool (i \<in> sending s)
      = sv_receiveSuccess (s_metrics s) + sv_sendSuccess m + sv_sendError m + of_bool (\<exists>msg. c_reader c' = Sending msg)"
  shows "srv_inv (s\<lparr>s_metrics := m, s_conns := (s_conns s)(i \<mapsto> c')\<rparr>)"
proof -
  have fin: "finite (sending s)" using inv finite_subset [OF sending_subset] by (simp add: srv_inv_def)
  have "card (sending (s\<lparr>s_metrics := m, s_conns := (s_conns s)(i \<mapsto> c')\<rparr>)) + of_bool (i \<in> sending s)
      = card (sending s) + of_bool (\<exists>msg. c_reader c' = Sending msg)"
    unfolding sending_upd using fin card.remove [OF fin, of i] by (simp add: card_insert_if)
  then have "sv_receiveSuccess m =
      sv_sendSuccess m + sv_sendError m + card (sending (s\<lparr>s_metrics := m, s_conns := (s_conns s)(i \<mapsto> c')\<rparr>))"
    using counts inv by (simp add: srv_inv_def)
  then show ?thesis using inv c ok by (auto simp: srv_inv_def)
qed

lemma sending_reader: "s_conns s i = Some c \<Longrightarrow> i \<in> sending s \<longleftrightarrow> (\<exists>msg. c_reader c = Sending msg)"
  by (simp add: sending_def)

lemma reader_receive_inv:
  assumes "srv_inv s" and "s_conns s i = Some c" and "c_reader c = Reading"
  shows "srv_inv (reader_receive i c rd s)"
proof (cases rd)
  case (ReadOk b)
  have "conn_ok (c\<lparr>c_received := c_received c @ [take 1024 b], c_reader := Sending (take 1024 b)\<rparr>)" if "conn_ok c"
    using that assms(3) by (cases "c_handler c") (simp_all add: conn_ok_def slack_def unanswered_def)
  then show ?thesis unfolding reader_receive_def ReadOk Recieve_def conn_Read_def Let_def
    using conn_update_inv [OF assms(1,2)] assms(3) sending_reader [OF assms(2)] by simp
next
  case (ReadErr e)
  have "conn_ok (c\<lparr>c_reader := Handing r\<rparr>)" if "conn_ok c" "r = Inl x" for r and x :: cl_error
    using that assms(3) all_but_last_mono
    by (cases "c_handler c") (fastforce simp: conn_ok_def slack_def unanswered_def)+
  then show ?thesis unfolding reader_receive_def ReadErr Recieve_def conn_Read_def Let_def
    using conn_update_inv [OF assms(1,2)] assms(3) sending_reader [OF assms(2)] by simp
qed

lemma reader_send_inv:
  assumes "srv_inv s" and "s_conns s i = Some c" and "c_reader c = Sending msg"
  shows "srv_inv (reader_send i c msg wr s)"
proof (cases "wr msg")
  case (Inl e)
  have "conn_ok (c\<lparr>c_reader := Handing (Inl (WriteErr e)), c_written := c_written c @ [(msg, False)]\<rparr>)" if "conn_ok c"
    using that assms(3)
    by (cases "c_handler c") (auto simp: conn_ok_def slack_def unanswered_def numeral_2_eq_2 intro: all_but_last_snoc(1))
  then show ?thesis unfolding reader_send_def server_Send_def conn_Write_def Inl
    using conn_update_inv [OF assms(1,2)] assms(3) sending_reader [OF assms(2)] by simp
next
  case (Inr u)
  have "conn_ok (c\<lparr>c_reader := Handing (Inr ()), c_written := c_written c @ [(msg, True)]\<rparr>)" if "conn_ok c"
    using that assms(3)
    by (cases "c_handler c") (auto simp: conn_ok_def slack_def unanswered_def numeral_2_eq_2 intro: all_but_last_snoc)
  then show ?thesis unfolding reader_send_def server_Send_def conn_Write_def Inr
    using conn_update_inv [OF assms(1,2)] assms(3) sending_reader [OF assms(2)] by simp
qed

text \<open>Steps that change the state of a connection and no counter.\<close>

lemma conn_only_inv:
  assumes "srv_inv s" and "s_conns s i = Some c" and "conn_ok c \<Longrightarrow> conn_ok c'"
    and "(\<exists>msg. c_reader c' = Sending msg) = (\<exists>msg. c_reader c = Sending msg)"
  shows "srv_inv (s\<lparr>s_conns := (s_conns s)(i \<mapsto> c')\<rparr>)"
  using conn_update_inv [of s i c c' "s_metrics s", OF assms(1-3)] assms(4) sending_reader [OF assms(2)] by simp

lemma handle_result_inv:
  assumes "srv_inv s" and "s_conns s i = Some c" and "c_reader c = Handing r" and "c_handler c = Handling"
  shows "srv_inv (handle_result i c r saw_done s)"
  unfolding handle_result_def
proof (rule conn_only_inv [OF assms(1,2)])
  show "conn_ok (c\<lparr>c_reader := Reading,
      c_handler := if saw_done then HandleReturned r else case r of Inl e \<Rightarrow> HandleReturned (Inl e) | Inr _ \<Rightarrow> Handling\<rparr>)"
    if "conn_ok c"
    using that assms(3,4) all_but_last_mono [of 0 "c_written c" 1]
    by (cases r) (auto simp: conn_ok_def slack_def unanswered_def)
qed (simp add: assms(3))

lemma conn_Close_inv:
  assumes "srv_inv s" and "s_conns s i = Some c" and "c_handler c = HandleReturned r"
  shows "srv_inv (conn_Close i c s)"
  unfolding conn_Close_def by (rule conn_only_inv [OF assms(1,2)]) (simp_all add: conn_ok_def slack_def unanswered_def assms(3))

lemma accepted_inv:
  assumes "srv_inv s" and "s_pc s = Accepting" and "\<And>i. c = Some i \<Longrightarrow> s_conns s i = None"
  shows "srv_inv (accepted c s)"
proof (cases c)
  case None
  have "sending (s\<lparr>s_pc := AtTop\<rparr>) = sending s" by (simp add: sending_def)
  then show ?thesis using assms(1,2) None by (auto simp: srv_inv_def accepted_def split: if_splits)
next
  case (Some i)
  have "sending (accepted c s) = sending s" using assms(3) [OF Some] Some by (auto simp: sending_def accepted_def split: if_splits)
  moreover have "conn_ok \<lparr>c_reader = Reading, c_handler = Handling, c_closed = False, c_received = [], c_written = []\<rparr>"
    by (simp add: conn_ok_def slack_def unanswered_def all_but_last_def)
  ultimately show ?thesis using assms(1,2) Some by (auto simp: srv_inv_def accepted_def)
qed

lemma srv_step_inv: "srv_step s s' \<Longrightarrow> srv_inv s \<Longrightarrow> srv_inv s'"
proof (induction rule: srv_step.induct)
  case (top s)
  have "sending (loop_top s) = sending s" by (simp add: sending_def loop_top_def server_Close_def split: option.splits)
  then show ?case using top by (auto simp: srv_inv_def loop_top_def server_Close_def)
next
  case (accept s c)
  then show ?case by (intro accepted_inv) (auto simp: Accept_def split: if_splits)
next
  case (cancel s)
  have "sending (s\<lparr>s_ctx_done := True\<rparr>) = sending s" by (simp add: sending_def)
  then show ?case using cancel by (cases "s_ctx_done s") (auto simp: srv_inv_def split: if_splits)
qed (auto intro: reader_receive_inv reader_send_inv handle_result_inv conn_Close_inv)

lemma srv_reach_inv: "srv_reach s \<Longrightarrow> srv_inv s"
proof (induction rule: srv_reach.induct)
  case srv_init
  show ?case by (simp add: srv_inv_def srv_start_def srv_new_def sending_def)
next
  case (srv_next s s')
  then show ?case using srv_step_inv by blast
qed

text \<open>The reader of a connection whose \<open>Handle\<close> has returned is stuck once it has its next result: no step changes the
  connection any more, but for closing it. Every connection that ended leaves such a goroutine behind.\<close>

lemma reader_leaks:
  assumes "srv_step s s'" and "s_conns s i = Some c" and "c_handler c = HandleReturned r" and "c_reader c = Handing x"
  shows "\<exists>c'. s_conns s' i = Some c' \<and> c_handler c' = HandleReturned r \<and> c_reader c' = Handing x
    \<and> c_received c' = c_received c \<and> c_written c' = c_written c"
  using assms(1-4)
  by (cases rule: srv_step.cases)
    (auto simp: loop_top_def server_Close_def accepted_def Accept_def reader_receive_def reader_send_def handle_result_def
      conn_Close_def Let_def split: option.splits prod.splits sum.splits)

text \<open>
  C40. The server of tcp-keepalive in every reachable state, whatever the connections do and however their
  goroutines interleave. Each connection echoes: the bytes handed to its writes are, in order and message by message,
  the bytes that its reads delivered, but for one message that is about to be written. All of these writes
  succeeded but at most the last one while \<open>Handle\<close> runs, and but the last two after it has returned (its
  reader takes one more message). The shared counters account for every message that was received with exactly one
  attempt to answer it, but for the messages whose answer is still due. After the context is done at most one more
  connection is accepted; a connection is closed only after its \<open>Handle\<close> has returned, and the listener is open until
  \<open>Run\<close> returns and closed from then on.
\<close>

theorem server_accounts:
  assumes "srv_reach s"
  shows "sv_receiveSuccess (s_metrics s) = sv_sendSuccess (s_metrics s) + sv_sendError (s_metrics s) + card (sending s)
    \<and> (\<forall>i c. s_conns s i = Some c \<longrightarrow>
          map fst (c_written c) @ (case c_reader c of Sending msg \<Rightarrow> [msg] | _ \<Rightarrow> []) = c_received c
          \<and> list_all snd (take (length (c_written c) - (if c_handler c = Handling then 1 else 2)) (c_written c))
          \<and> (c_closed c \<longrightarrow> c_handler c \<noteq> Handling))
    \<and> s_late s \<le> 1 \<and> s_listener s = Some (s_pc s \<noteq> Returned) \<and> (s_pc s = Returned \<longrightarrow> s_ctx_done s)"
proof -
  note inv = srv_reach_inv [OF assms]
  have "map fst (c_written c) @ unanswered c = c_received c
      \<and> all_but_last (if c_handler c = Handling then 1 else 2) (c_written c) \<and> (c_closed c \<longrightarrow> c_handler c \<noteq> Handling)"
    if "s_conns s i = Some c" for i c
  proof -
    have "conn_ok c" using inv that by (auto simp: srv_inv_def)
    moreover have "slack c \<le> (if c_handler c = Handling then 1 else 2)"
      by (simp add: slack_def split: handler.splits reader.splits sum.splits)
    ultimately show ?thesis using all_but_last_mono by (auto simp: conn_ok_def simp del: One_nat_def)
  qed
  then show ?thesis using inv unfolding all_but_last_def unanswered_def by (auto simp: srv_inv_def split: if_splits)
qed

definition fresh_conn :: conn_state where
  "fresh_conn = \<lparr>c_reader = Reading, c_handler = Handling, c_closed = False, c_received = [], c_written = []\<rparr>"

definition demo_sending :: srv where
  "demo_sending = reader_receive 0 fresh_conn (ReadOk ''hello'') (accepted (Some 0) (loop_top srv_start))"

definition demo_served :: srv where
  "demo_served = reader_send 0 (fresh_conn\<lparr>c_received := [''hello''], c_reader := Sending ''hello''\<rparr>) ''hello'' (\<lambda>_. Inr ()) demo_sending"

theorem server_accounts_witness:
  "map_option c_written (s_conns demo_served 0) = Some [(''hello'', True)]
   \<and> map_option (\<lambda>c. map fst (c_written c)) (s_conns demo_served 0) = map_option c_received (s_conns demo_served 0) \<and> sv_receiveSuccess (s_metrics demo_served) = 1
   \<and> sv_sendSuccess (s_metrics demo_served) + sv_sendError (s_metrics demo_served) + card (sending demo_served) = 1
   \<and> s_listener demo_served = Some True"
proof -
  note ds = demo_served_def demo_sending_def fresh_conn_def reader_send_def reader_receive_def accepted_def loop_top_def
    srv_start_def srv_new_def Recieve_def server_Send_def conn_Read_def conn_Write_def
  have 1: "srv_reach (loop_top srv_start)"
    by (rule srv_next [OF srv_init]) (rule srv_step.top, simp add: srv_start_def srv_new_def)
  have "srv_step (loop_top srv_start) (accepted (Accept (Some 0) (loop_top srv_start)) (loop_top srv_start))"
    by (rule srv_step.accept) (simp_all add: loop_top_def srv_start_def srv_new_def)
  then have 2: "srv_reach (accepted (Some 0) (loop_top srv_start))"
    using srv_next [OF 1] by (simp add: Accept_def loop_top_def srv_start_def srv_new_def)
  have 3: "srv_reach demo_sending" unfolding demo_sending_def
    by (rule srv_next [OF 2]) (rule srv_step.receive, simp_all add: accepted_def fresh_conn_def)
  have "srv_reach demo_served" unfolding demo_served_def
    by (rule srv_next [OF 3]) (rule srv_step.send, simp_all add: ds)
  from server_accounts [OF this] show ?thesis by (simp add: ds)
qed

section \<open>The commands\<close>

text \<open>The defaults of the flags of both commands.\<close>

definition second :: int where
  "second = 1000000000"

definition client_flags :: "client_config \<times> metrics_config" where
  "client_flags =
     (\<lparr>ReceiveTimeout = 15 * second, RetryInterval = second, RetryNum = 0, SendInterval = 5 * second,
       ServerAddr = ''127.0.0.1:8000''\<rparr>,
      \<lparr>Export = True, AddrPort = ''0.0.0.0:8080''\<rparr>)"

definition server_flags :: "string \<times> metrics_config" where
  "server_flags = (''127.0.0.1:8000'', \<lparr>Export = True, AddrPort = ''0.0.0.0:8080''\<rparr>)"

text \<open>How a command ends: the object cannot be created, a signal arrived (the program then sleeps for five seconds and
  ends), or \<open>Run\<close> returned. \<open>signalled\<close> is the case that the \<open>select\<close> took.\<close>

datatype 'e cmd_end = NotCreated string | SignalStop | RunFailed 'e | RunReturned | StillRuns | Crashed string

definition select_done :: "bool \<Rightarrow> ('e, unit) result call \<Rightarrow> 'e cmd_end" where
  "select_done signalled done =
     (case done of
        Panics e \<Rightarrow> Crashed e
      | _ \<Rightarrow>
          if signalled then SignalStop
          else case done of
            Returns (Inl e) \<Rightarrow> RunFailed e
          | Returns (Inr _) \<Rightarrow> RunReturned
          | _ \<Rightarrow> StillRuns)"

definition runClient ::
  "(string \<Rightarrow> string option) \<Rightarrow> (string \<Rightarrow> string option) \<Rightarrow> client_config \<Rightarrow> metrics_config
     \<Rightarrow> attempt list \<Rightarrow> cmetrics \<Rightarrow> bool \<Rightarrow> cl_error cmd_end" where
  "runClient ResolveTCPAddr ParseAddrPort cfg mcfg script m signalled =
     (case NewClient ResolveTCPAddr ParseAddrPort cfg (Some mcfg) of
        Inl e \<Rightarrow> NotCreated e
      | Inr (c, _) \<Rightarrow> select_done signalled (fst (Run (SendInterval c) (RetryNum c) script m)))"

text \<open>\<open>Server.Run\<close>: the listener is opened, then the accept loop runs until it returns nil; \<open>s\<close> is a state that it
  reaches.\<close>

definition server_Run :: "(string, unit) result \<Rightarrow> (string, unit) result \<Rightarrow> srv \<Rightarrow> (string, unit) result call" where
  "server_Run resolved listened s =
     (case Listen resolved listened srv_new of
        Inl e \<Rightarrow> Returns (Inl e)
      | Inr _ \<Rightarrow> if s_pc s = Returned then Returns (Inr ()) else Runs)"

definition runServer ::
  "(string \<Rightarrow> string option) \<Rightarrow> (string \<Rightarrow> string option) \<Rightarrow> string \<Rightarrow> metrics_config
     \<Rightarrow> (string, unit) result \<Rightarrow> srv \<Rightarrow> bool \<Rightarrow> string cmd_end" where
  "runServer ResolveTCPAddr ParseAddrPort listenAddr mcfg listened s signalled =
     (case NewServer ResolveTCPAddr ParseAddrPort listenAddr (Some mcfg) of
        Inl e \<Rightarrow> NotCreated e
      | Inr (addr, _) \<Rightarrow>
          select_done signalled
            (server_Run (case ResolveTCPAddr addr of Some e \<Rightarrow> Inl e | None \<Rightarrow> Inr ()) listened s))"

text \<open>\<open>Client.Close\<close>: without a connection nothing happens; the state of the connection is set to closed also when
  closing fails.\<close>

definition client_Close :: "bool \<Rightarrow> cmetrics \<Rightarrow> cmetrics" where
  "client_Close has_conn m = (if has_conn then setConnStateClosed m else m)"

text \<open>With the defaults of the flags a client whose first attempt fails ends at once with the retry error, and so
  does one that is cancelled while connected, unless the command has taken the signal first.\<close>

lemma runClient_defaults:
  assumes "ResolveTCPAddr ''127.0.0.1:8000'' = None" and "ParseAddrPort ''0.0.0.0:8080'' = None"
    and "fails (5 * second) a \<or> cancelled_in (5 * second) a"
  shows "runClient ResolveTCPAddr ParseAddrPort (fst client_flags) (snd client_flags) (a # rest) m signalled =
    (if signalled then SignalStop else RunFailed RetryLimitExceeded)"
proof -
  from assms(3) obtain r m1
    where "client_run (5 * second) a (setConnStateUnestablished m\<lparr>retryCount := 0\<rparr>) = (Returns r, m1)" "\<not> ctx_err a"
    unfolding fails_def cancelled_in_def by (metis prod.collapse)
  then have "fst (Run (5 * second) 0 (a # rest) m) = Returns (Inl RetryLimitExceeded)"
    by (cases r; cases rest) (simp_all add: Run_def Let_def)
  then show ?thesis using assms(1,2)
    by (simp add: runClient_def NewClient_def client_Validate_def NewMetrics_def metrics_Validate_def client_flags_def
        select_done_def)
qed

text \<open>The accept loop returns only after the context is done, so without a signal a server that listens runs on.\<close>

lemma srv_returned_done: "srv_reach s \<Longrightarrow> s_pc s = Returned \<Longrightarrow> s_ctx_done s"
  using srv_reach_inv [of s] by (simp add: srv_inv_def)

lemma runServer_runs:
  assumes "srv_reach s" and "\<not> s_ctx_done s" and "ResolveTCPAddr listenAddr = None" and "ParseAddrPort (AddrPort mcfg) = None"
  shows "runServer ResolveTCPAddr ParseAddrPort listenAddr mcfg (Inr ()) s False = StillRuns"
  using srv_returned_done [OF assms(1)] assms(2-4)
  by (auto simp: runServer_def NewServer_def server_Validate_def NewMetrics_def metrics_Validate_def server_Run_def Listen_def
      select_done_def)

section \<open>The server of the metrics\<close>

text \<open>\<open>Metrics.Serve\<close> registers its handler with the default multiplexer, which panics when the pattern is taken, and serves.
  \<open>Run\<close> of client and server call it in a loop. The events are the errors with which \<open>ListenAndServe\<close> returns.\<close>

definition metrics_Serve :: "string set \<Rightarrow> (string set) option" where
  "metrics_Serve mux = (if ''/metrics'' \<in> mux then None else Some (insert ''/metrics'' mux))"

fun metrics_loop :: "string list \<Rightarrow> string set \<Rightarrow> string set process" where
  "metrics_loop errs mux =
     (case metrics_Serve mux of
        None \<Rightarrow> Panicked ''pattern /metrics is already registered''
      | Some mux' \<Rightarrow> (case errs of [] \<Rightarrow> Running mux' | e # es \<Rightarrow> metrics_loop es mux'))"

definition serve_metrics :: "metrics_config \<Rightarrow> string list \<Rightarrow> string set \<Rightarrow> string set process" where
  "serve_metrics cfg errs mux = (if Export cfg then metrics_loop errs mux else Running mux)"

text \<open>A server for the metrics that fails once takes the whole program down: the retry panics.\<close>

lemma metrics_retry_panics:
  "serve_metrics cfg errs {} =
     (if \<not> Export cfg then Running {} else if errs = [] then Running {''/metrics''}
      else Panicked ''pattern /metrics is already registered'')"
  by (cases errs) (simp_all add: serve_metrics_def metrics_Serve_def)

end
