(* ===== verification/Exporter.thy ===== *)
theory Exporter
  imports Prelude Complex_Main "HOL-Library.Char_ord" "HOL-Library.List_Lexorder"
begin

text \<open>
  The core of neco-exporter: metric names (\<open>helper.go\<close>), the registry of metrics and one round of the
  collection loop (\<open>exporter.go\<close>), the selection of collectors (\<open>main.go\<close>) and the mock collector.

  A label map is the list of its entries. \<open>float64\<close> values are rational numbers; they are only stored. The
  registry of the metrics package is a map from names to values. What the collectors return in a round is an
  argument; the collectors themselves are in the theory of the collectors. A panic is \<^term>\<open>None\<close>.
\<close>

section \<open>Metric names\<close>

type_synonym labels = "(string \<times> string) list"

record Metric =
  Name :: string
  Labels :: labels
  Value :: rat

definition needs_escape :: "string \<Rightarrow> bool" where
  "needs_escape v \<longleftrightarrow> CHR 0x5C \<in> set v \<or> CHR 0x22 \<in> set v \<or> CHR 0x0A \<in> set v"

fun label_text :: "labels \<Rightarrow> string option" where
  "label_text [] = Some []"
| "label_text ((k, v) # ls) =
     (if needs_escape v then None
      else map_option (\<lambda>t. '','' @ k @ ''='' @ CHR 0x22 # v @ CHR 0x22 # t) (label_text ls))"

definition BuildMetricName :: "string \<Rightarrow> string \<Rightarrow> string \<Rightarrow> labels \<Rightarrow> string option" where
  "BuildMetricName scope pfx name labels =
     (if 0 < length labels
      then (case label_text (sort_key fst labels) of
              None \<Rightarrow> None
            | Some lbls \<Rightarrow> Some (''neco_'' @ scope @ ''_'' @ pfx @ ''_'' @ name @ ''{'' @ tl lbls @ ''}''))
      else Some (''neco_'' @ scope @ ''_'' @ pfx @ ''_'' @ name))"

section \<open>One round of the collection loop\<close>

record collector =
  coll_scope :: string
  MetricsPrefix :: string
  IsLeaderMetrics :: bool

definition ScopeCluster :: string where
  "ScopeCluster = ''cluster''"

definition ScopeNode :: string where
  "ScopeNode = ''node''"

type_synonym registry = "string \<rightharpoonup> rat"

record ex_state =
  registry :: registry
  prev :: "nat \<Rightarrow> string set"
  health :: "nat \<Rightarrow> bool"
  dur :: "nat \<Rightarrow> rat"

text \<open>What happens in a round: leadership, the result of each \<open>Collect\<close> and its duration.\<close>

record round_env =
  isLeader :: bool
  collect :: "nat \<Rightarrow> (string, Metric list) result"
  elapsed :: "nat \<Rightarrow> rat"

text \<open>Setting the collected metrics, with the names seen before and those of this round.\<close>

fun set_metrics ::
  "string \<Rightarrow> string \<Rightarrow> Metric list \<Rightarrow> registry \<Rightarrow> string set \<Rightarrow> string set
     \<Rightarrow> (registry \<times> string set \<times> string set) option" where
  "set_metrics scope pfx [] reg old new = Some (reg, old, new)"
| "set_metrics scope pfx (m # ms) reg old new =
     (case BuildMetricName scope pfx (Name m) (Labels m) of
        None \<Rightarrow> None
      | Some n \<Rightarrow> set_metrics scope pfx ms (reg(n \<mapsto> Value m)) (old - {n}) (insert n new))"

definition active :: "round_env \<Rightarrow> collector \<Rightarrow> bool" where
  "active env c \<longleftrightarrow> isLeader env \<or> \<not> IsLeaderMetrics c"

text \<open>Removing the stale metrics and remembering the new names.\<close>

definition finish_collector :: "nat \<Rightarrow> registry \<Rightarrow> string set \<Rightarrow> string set \<Rightarrow> ex_state \<Rightarrow> ex_state" where
  "finish_collector i reg old new st =
     st\<lparr>registry := (\<lambda>n. if n \<in> old then None else reg n), prev := (prev st)(i := new)\<rparr>"

definition run_collector ::
  "string \<Rightarrow> collector list \<Rightarrow> round_env \<Rightarrow> nat \<Rightarrow> ex_state \<Rightarrow> ex_state option" where
  "run_collector scope cs env i st =
     (if active env (cs ! i) then
        (case collect env i of
           Inl e \<Rightarrow>
             Some (finish_collector i (registry st) (prev st i) {}
               (st\<lparr>health := (health st)(i := False), dur := (dur st)(i := elapsed env i)\<rparr>))
         | Inr ms \<Rightarrow>
             (case set_metrics scope (MetricsPrefix (cs ! i)) ms (registry st) (prev st i) {} of
                None \<Rightarrow> None
              | Some (reg, old, new) \<Rightarrow>
                  Some (finish_collector i reg old new
                    (st\<lparr>health := (health st)(i := True), dur := (dur st)(i := elapsed env i)\<rparr>))))
      else Some (finish_collector i (registry st) (prev st i) {} st))"

fun run_collectors ::
  "string \<Rightarrow> collector list \<Rightarrow> round_env \<Rightarrow> nat list \<Rightarrow> ex_state \<Rightarrow> ex_state option" where
  "run_collectors scope cs env [] st = Some st"
| "run_collectors scope cs env (i # is) st = Option.bind (run_collector scope cs env i st) (run_collectors scope cs env is)"

definition set_counter :: "string option \<Rightarrow> rat \<Rightarrow> ex_state \<Rightarrow> ex_state option" where
  "set_counter name v st = map_option (\<lambda>n. st\<lparr>registry := (registry st)(n \<mapsto> v)\<rparr>) name"

definition collectorPrefix :: string where
  "collectorPrefix = ''collector''"

definition set_leader :: "string \<Rightarrow> round_env \<Rightarrow> ex_state \<Rightarrow> ex_state option" where
  "set_leader scope env st =
     (if scope = ScopeCluster
      then set_counter (BuildMetricName scope collectorPrefix ''leader'' []) (if isLeader env then 1 else 0) st
      else Some st)"

fun set_health ::
  "string \<Rightarrow> collector list \<Rightarrow> round_env \<Rightarrow> nat list \<Rightarrow> ex_state \<Rightarrow> ex_state option" where
  "set_health scope cs env [] st = Some st"
| "set_health scope cs env (i # is) st =
     (if active env (cs ! i) then
        (let labels = [(''collector'', MetricsPrefix (cs ! i))] in
         Option.bind (set_counter (BuildMetricName scope collectorPrefix ''health'' labels)
                (if health st i then 1 else 0) st) (\<lambda>st1.
         Option.bind (set_counter (BuildMetricName scope collectorPrefix ''process_seconds'' labels) (dur st1 i) st1)
           (set_health scope cs env is)))
      else set_health scope cs env is st)"

text \<open>
  The body of the loop. The collectors run concurrently; \<open>sched\<close> is the order in which they take effect. They
  write different entries of the slices, and (with the prefixes of the registry) different metrics.
\<close>

definition ex_round ::
  "string \<Rightarrow> collector list \<Rightarrow> round_env \<Rightarrow> nat list \<Rightarrow> ex_state \<Rightarrow> ex_state option" where
  "ex_round scope cs env sched st =
     Option.bind (run_collectors scope cs env sched st) (\<lambda>st1.
     Option.bind (set_leader scope env st1)
       (set_health scope cs env [0 ..< length cs]))"

definition ex_start :: ex_state where
  "ex_start = \<lparr>registry = Map.empty, prev = (\<lambda>_. {}), health = (\<lambda>_. False), dur = (\<lambda>_. 0)\<rparr>"

section \<open>Selection of collectors\<close>

datatype run_error = UnknownCollector string | WrongScope string | SetupFailed string string

text \<open>The methods \<open>Scope\<close>, \<open>MetricsPrefix\<close> and \<open>IsLeaderMetrics\<close> of each collector.\<close>

definition cert_collector :: collector where
  "cert_collector = \<lparr>coll_scope = ScopeCluster, MetricsPrefix = ''cert'', IsLeaderMetrics = True\<rparr>"

definition ciliumid_collector :: collector where
  "ciliumid_collector = \<lparr>coll_scope = ScopeCluster, MetricsPrefix = ''ciliumid'', IsLeaderMetrics = True\<rparr>"

definition mock_collector :: collector where
  "mock_collector = \<lparr>coll_scope = ScopeCluster, MetricsPrefix = ''mock'', IsLeaderMetrics = True\<rparr>"

definition networkfence_collector :: collector where
  "networkfence_collector = \<lparr>coll_scope = ScopeCluster, MetricsPrefix = ''networkfence'', IsLeaderMetrics = True\<rparr>"

definition bpf_collector :: collector where
  "bpf_collector = \<lparr>coll_scope = ScopeNode, MetricsPrefix = ''bpf'', IsLeaderMetrics = False\<rparr>"

definition cpupinning_collector :: collector where
  "cpupinning_collector = \<lparr>coll_scope = ScopeNode, MetricsPrefix = ''cpupinning'', IsLeaderMetrics = False\<rparr>"

definition kubelet_collector :: collector where
  "kubelet_collector = \<lparr>coll_scope = ScopeNode, MetricsPrefix = ''kubelet'', IsLeaderMetrics = False\<rparr>"

definition nicirq_collector :: collector where
  "nicirq_collector = \<lparr>coll_scope = ScopeNode, MetricsPrefix = ''nicirq'', IsLeaderMetrics = False\<rparr>"

text \<open>The registered collectors, in the order of \<open>registry.go\<close>.\<close>

definition registered :: "collector list" where
  "registered = [cert_collector, ciliumid_collector, mock_collector, networkfence_collector,
     bpf_collector, cpupinning_collector, kubelet_collector, nicirq_collector]"

lemmas registered_defs = registered_def cert_collector_def ciliumid_collector_def mock_collector_def
  networkfence_collector_def bpf_collector_def cpupinning_collector_def kubelet_collector_def nicirq_collector_def

text \<open>The mock collector: every second call fails.\<close>

definition mock_Collect :: "nat \<Rightarrow> (string, Metric list) result \<times> nat" where
  "mock_Collect cnt =
     (let cnt' = cnt + 1
      in if cnt' mod 2 = 0 then (Inl ''test'', cnt')
         else (Inr [\<lparr>Name = ''test'', Labels = [], Value = 100\<rparr>], cnt'))"

section \<open>Names and prefixes\<close>

definition own_prefix :: "string \<Rightarrow> string \<Rightarrow> string" where
  "own_prefix scope p = ''neco_'' @ scope @ ''_'' @ p @ ''_''"

definition own :: "string \<Rightarrow> string \<Rightarrow> string \<Rightarrow> bool" where
  "own scope p n \<longleftrightarrow> has_prefix n (own_prefix scope p)"

lemma BuildMetricName_own: "BuildMetricName scope p name ls = Some n \<Longrightarrow> own scope p n"
  by (auto simp: BuildMetricName_def own_def own_prefix_def has_prefix_iff split: if_splits option.splits)

lemma own_unique:
  assumes "CHR ''_'' \<notin> set p" and "CHR ''_'' \<notin> set q" and "own scope p n" and "own scope q n"
  shows "p = q"
  using assms sep_inj [of "CHR ''_''" p q] by (auto simp: own_def own_prefix_def has_prefix_iff)

text \<open>The name does not depend on the order in which the labels are given.\<close>

lemma sort_key_map_order:
  assumes "mset ls = mset ls'" and "distinct (map fst ls)"
  shows "sort_key fst ls = sort_key fst (ls' :: labels)"
proof -
  have "inj_on fst (set ls)" using assms(2) by (simp add: distinct_map)
  moreover have "mset ls = mset (sort_key fst ls')" using assms(1) by simp
  ultimately show ?thesis by (intro sort_key_inj_key_eq) simp_all
qed

lemma BuildMetricName_order:
  assumes "mset ls = mset ls'" and "distinct (map fst ls)"
  shows "BuildMetricName scope p name ls = BuildMetricName scope p name ls'"
proof -
  have "length ls = length ls'" using mset_eq_length [OF assms(1)] .
  then show ?thesis by (simp add: BuildMetricName_def sort_key_map_order [OF assms])
qed

section \<open>The registry after a round\<close>

text \<open>The metrics of a result by name; a later metric wins.\<close>

definition named :: "string \<Rightarrow> string \<Rightarrow> Metric list \<Rightarrow> (string \<rightharpoonup> rat)" where
  "named scope p ms =
     map_of (rev (map (\<lambda>m. (the (BuildMetricName scope p (Name m) (Labels m)), Value m)) ms))"

lemma named_Cons: "named scope p (m # ms) =
    [the (BuildMetricName scope p (Name m) (Labels m)) \<mapsto> Value m] ++ named scope p ms"
  by (simp add: named_def map_of_append [symmetric] del: map_of_append) (simp add: map_add_def)

lemma set_metrics_effect:
  assumes "set_metrics scope p ms reg old new = Some (reg', old', new')"
  shows "reg' = reg ++ named scope p ms \<and> old' = old - dom (named scope p ms)
     \<and> new' = new \<union> dom (named scope p ms) \<and> (\<forall>n \<in> dom (named scope p ms). own scope p n)"
  using assms
proof (induction ms arbitrary: reg old new)
  case Nil
  then show ?case by (simp add: named_def)
next
  case (Cons m ms)
  then obtain n where n: "BuildMetricName scope p (Name m) (Labels m) = Some n"
      "set_metrics scope p ms (reg(n \<mapsto> Value m)) (old - {n}) (insert n new) = Some (reg', old', new')"
    by (auto split: option.splits)
  have upd: "reg(n \<mapsto> Value m) ++ F = reg ++ ([n \<mapsto> Value m] ++ F)" for F :: "string \<rightharpoonup> rat" by simp
  have nm: "named scope p (m # ms) = [n \<mapsto> Value m] ++ named scope p ms" by (simp add: named_Cons n(1))
  have dm: "dom (named scope p (m # ms)) = insert n (dom (named scope p ms))" unfolding nm by auto
  note IH = Cons.IH [OF n(2)]
  have "reg' = reg ++ named scope p (m # ms)" unfolding nm using IH upd by (simp only:)
  moreover have "old' = old - dom (named scope p (m # ms))" unfolding dm using IH by auto
  moreover have "new' = new \<union> dom (named scope p (m # ms))" unfolding dm using IH by auto
  moreover have "\<forall>k \<in> dom (named scope p (m # ms)). own scope p k"
    unfolding dm using IH BuildMetricName_own [OF n(1)] by auto
  ultimately show ?case by blast
qed

text \<open>Which metrics a collector should have after a round.\<close>

definition expected :: "string \<Rightarrow> collector list \<Rightarrow> round_env \<Rightarrow> nat \<Rightarrow> (string \<rightharpoonup> rat)" where
  "expected scope cs env i =
     (if active env (cs ! i)
      then (case collect env i of Inl _ \<Rightarrow> Map.empty | Inr ms \<Rightarrow> named scope (MetricsPrefix (cs ! i)) ms)
      else Map.empty)"

text \<open>The invariant: the remembered names of a collector are its metrics in the registry.\<close>

definition ex_inv :: "string \<Rightarrow> collector list \<Rightarrow> ex_state \<Rightarrow> bool" where
  "ex_inv scope cs st \<longleftrightarrow>
     (\<forall>i < length cs. \<forall>n. own scope (MetricsPrefix (cs ! i)) n \<longrightarrow> (registry st n \<noteq> None \<longleftrightarrow> n \<in> prev st i))
   \<and> (\<forall>i < length cs. \<forall>n \<in> prev st i. own scope (MetricsPrefix (cs ! i)) n)"

text \<open>Prefixes that tell the collectors apart, and from the exporter's own metrics.\<close>

definition prefixes_ok :: "collector list \<Rightarrow> bool" where
  "prefixes_ok cs \<longleftrightarrow> distinct (map MetricsPrefix cs)
     \<and> list_all (\<lambda>c. CHR ''_'' \<notin> set (MetricsPrefix c) \<and> MetricsPrefix c \<noteq> collectorPrefix) cs"

lemma prefixes_own:
  assumes "prefixes_ok cs" and "i < length cs" and "j < length cs"
    and "own scope (MetricsPrefix (cs ! i)) n" and "own scope (MetricsPrefix (cs ! j)) n"
  shows "i = j"
proof -
  have "MetricsPrefix (cs ! i) = MetricsPrefix (cs ! j)"
    using assms own_unique [of "MetricsPrefix (cs ! i)" "MetricsPrefix (cs ! j)"]
    by (auto simp: prefixes_ok_def list_all_length)
  then show ?thesis
    using assms(1-3) nth_eq_iff_index_eq [of "map MetricsPrefix cs" i j] by (simp add: prefixes_ok_def)
qed

text \<open>A collector's part of the registry after it ran, and that it leaves the others alone.\<close>

lemma run_collector_effect:
  assumes "ex_inv scope cs st" and "i < length cs" and "run_collector scope cs env i st = Some st'"
  shows "own scope (MetricsPrefix (cs ! i)) n \<Longrightarrow> registry st' n = expected scope cs env i n"
    and "\<not> own scope (MetricsPrefix (cs ! i)) n \<Longrightarrow> registry st' n = registry st n"
    and "prev st' = (prev st)(i := dom (expected scope cs env i))"
    and "\<forall>n \<in> dom (expected scope cs env i). own scope (MetricsPrefix (cs ! i)) n"
proof -
  let ?p = "MetricsPrefix (cs ! i)" and ?e = "expected scope cs env i"
  have old: "n \<in> prev st i \<Longrightarrow> own scope ?p n" and live: "own scope ?p n \<Longrightarrow> registry st n \<noteq> None \<longleftrightarrow> n \<in> prev st i" for n
    using assms(1,2) by (auto simp: ex_inv_def)
  have rr: "registry st' = (\<lambda>n. if n \<in> prev st i - dom ?e then None else (registry st ++ ?e) n)
      \<and> prev st' = (prev st)(i := dom ?e) \<and> (\<forall>n \<in> dom ?e. own scope ?p n)"
  proof (cases "active env (cs ! i) \<and> (\<exists>ms. collect env i = Inr ms)")
    case True
    then obtain ms where ms: "active env (cs ! i)" "collect env i = Inr ms" by blast
    then obtain reg rest new where s: "set_metrics scope ?p ms (registry st) (prev st i) {} = Some (reg, rest, new)"
        "st' = finish_collector i reg rest new (st\<lparr>health := (health st)(i := True), dur := (dur st)(i := elapsed env i)\<rparr>)"
      using assms(3) by (auto simp: run_collector_def split: option.splits)
    have "?e = named scope ?p ms" using ms by (simp add: expected_def)
    moreover have "reg = registry st ++ named scope ?p ms" "rest = prev st i - dom (named scope ?p ms)"
        "new = dom (named scope ?p ms)" "\<forall>n \<in> dom (named scope ?p ms). own scope ?p n"
      using set_metrics_effect [OF s(1)] by auto
    ultimately show ?thesis using s(2) by (simp add: finish_collector_def cong: if_cong)
  next
    case False
    then have "?e = Map.empty" by (auto simp: expected_def split: sum.splits)
    moreover have "registry st' = (\<lambda>n. if n \<in> prev st i then None else registry st n)" "prev st' = (prev st)(i := {})"
      using False assms(3) by (auto simp: run_collector_def finish_collector_def split: if_splits sum.splits)
    ultimately show ?thesis by (simp cong: if_cong)
  qed
  then have r: "registry st' = (\<lambda>n. if n \<in> prev st i - dom ?e then None else (registry st ++ ?e) n)"
      "prev st' = (prev st)(i := dom ?e)" "\<forall>n \<in> dom ?e. own scope ?p n" by blast+
  show "registry st' n = ?e n" if "own scope ?p n"
    using live [OF that] r(1) by (cases "?e n") (auto simp: map_add_def)
  show "registry st' n = registry st n" if "\<not> own scope ?p n"
  proof -
    have "n \<notin> prev st i" "?e n = None" using that old r(3) by (auto simp: domIff)
    then show ?thesis using r(1) by (simp add: map_add_def)
  qed
  show "prev st' = (prev st)(i := dom ?e)" by (rule r(2))
  show "\<forall>n \<in> dom ?e. own scope ?p n" by (rule r(3))
qed

lemma run_collector_inv:
  assumes "prefixes_ok cs" and "ex_inv scope cs st" and "i < length cs" and "run_collector scope cs env i st = Some st'"
  shows "ex_inv scope cs st'"
proof -
  note eff = run_collector_effect [OF assms(2-4)]
  have "registry st' n \<noteq> None \<longleftrightarrow> n \<in> prev st' j" if "j < length cs" "own scope (MetricsPrefix (cs ! j)) n" for j n
  proof (cases "j = i")
    case True
    then show ?thesis using eff(1,3) that(2) by (simp add: domIff)
  next
    case False
    then have "\<not> own scope (MetricsPrefix (cs ! i)) n" using prefixes_own [OF assms(1) that(1) assms(3) that(2)] by blast
    then show ?thesis using eff(2,3) assms(2) that False by (simp add: ex_inv_def)
  qed
  moreover have "own scope (MetricsPrefix (cs ! j)) n" if "j < length cs" "n \<in> prev st' j" for j n
    using that eff(3,4) assms(2) by (cases "j = i") (auto simp: ex_inv_def)
  ultimately show ?thesis by (auto simp: ex_inv_def)
qed

lemma run_collectors_effect:
  assumes "prefixes_ok cs" and "ex_inv scope cs st" and "distinct sched" and "set sched \<subseteq> {..< length cs}"
    and "run_collectors scope cs env sched st = Some st'"
  shows "ex_inv scope cs st' \<and> (\<forall>i < length cs. \<forall>n. own scope (MetricsPrefix (cs ! i)) n \<longrightarrow>
      registry st' n = (if i \<in> set sched then expected scope cs env i n else registry st n))"
  using assms(2-5)
proof (induction sched arbitrary: st)
  case Nil
  then show ?case by simp
next
  case (Cons k ks)
  then obtain st1 where st1: "run_collector scope cs env k st = Some st1" "run_collectors scope cs env ks st1 = Some st'"
    by (auto simp: bind_eq_Some_conv)
  have k: "k < length cs" "k \<notin> set ks" using Cons.prems(2,3) by auto
  note eff = run_collector_effect [OF Cons.prems(1) k(1) st1(1)]
  have inv: "ex_inv scope cs st1" by (rule run_collector_inv [OF assms(1) Cons.prems(1) k(1) st1(1)])
  have IH: "ex_inv scope cs st'" "\<And>i n. i < length cs \<Longrightarrow> own scope (MetricsPrefix (cs ! i)) n \<Longrightarrow>
      registry st' n = (if i \<in> set ks then expected scope cs env i n else registry st1 n)"
    using Cons.IH [OF inv _ _ st1(2)] Cons.prems(2,3) by auto
  have "registry st' n = (if i \<in> set (k # ks) then expected scope cs env i n else registry st n)"
    if "i < length cs" "own scope (MetricsPrefix (cs ! i)) n" for i n
  proof (cases "i = k")
    case True
    then show ?thesis using IH(2) [OF that] eff(1) that(2) k(2) by simp
  next
    case False
    then have "\<not> own scope (MetricsPrefix (cs ! k)) n" using prefixes_own [OF assms(1) that(1) k(1) that(2)] by blast
    then show ?thesis using IH(2) [OF that] eff(2) False by simp
  qed
  then show ?case using IH(1) by blast
qed

text \<open>The exporter's own metrics do not touch those of the collectors.\<close>

lemma set_counter_own:
  assumes "set_counter (BuildMetricName scope collectorPrefix name ls) v st = Some st'"
    and "\<not> own scope collectorPrefix n"
  shows "registry st' n = registry st n" and "prev st' = prev st" and "health st' = health st" and "dur st' = dur st"
  using assms BuildMetricName_own [of scope collectorPrefix name ls] by (auto simp: set_counter_def)

lemma set_leader_frame:
  assumes "set_leader scope env st = Some st'" and "\<not> own scope collectorPrefix n"
  shows "registry st' n = registry st n \<and> prev st' = prev st"
  using assms set_counter_own by (auto simp: set_leader_def split: if_splits)

lemma set_health_frame:
  assumes "set_health scope cs env is st = Some st'" and "\<not> own scope collectorPrefix n"
  shows "registry st' n = registry st n \<and> prev st' = prev st"
  using assms(1)
proof (induction "is" arbitrary: st)
  case (Cons i js)
  show ?case
  proof (cases "active env (cs ! i)")
    case True
    then obtain st1 st2 where s:
        "set_counter (BuildMetricName scope collectorPrefix ''health'' [(''collector'', MetricsPrefix (cs ! i))])
           (if health st i then 1 else 0) st = Some st1"
        "set_counter (BuildMetricName scope collectorPrefix ''process_seconds'' [(''collector'', MetricsPrefix (cs ! i))])
           (dur st1 i) st1 = Some st2"
        "set_health scope cs env js st2 = Some st'"
      using Cons.prems by (auto simp: Let_def bind_eq_Some_conv)
    then show ?thesis
      using Cons.IH [OF s(3)] set_counter_own [OF s(1) assms(2)] set_counter_own [OF s(2) assms(2)] by simp
  next
    case False
    then show ?thesis using Cons by simp
  qed
qed simp

lemma ex_round_effect:
  assumes "prefixes_ok cs" and "ex_inv scope cs st" and "distinct sched" and "set sched = {..< length cs}"
    and "ex_round scope cs env sched st = Some st'"
  shows "ex_inv scope cs st' \<and> (\<forall>i < length cs. \<forall>n. own scope (MetricsPrefix (cs ! i)) n \<longrightarrow>
      registry st' n = expected scope cs env i n)"
proof -
  obtain st1 st2 where s: "run_collectors scope cs env sched st = Some st1" "set_leader scope env st1 = Some st2"
      "set_health scope cs env [0 ..< length cs] st2 = Some st'"
    using assms(5) by (auto simp: ex_round_def bind_eq_Some_conv)
  have r: "ex_inv scope cs st1" "\<And>i n. i < length cs \<Longrightarrow> own scope (MetricsPrefix (cs ! i)) n \<Longrightarrow>
      registry st1 n = expected scope cs env i n"
    using run_collectors_effect [OF assms(1-3) _ s(1)] assms(4) by auto
  have notown: "\<not> own scope collectorPrefix n" if "i < length cs" "own scope (MetricsPrefix (cs ! i)) n" for i n
    using that assms(1) own_unique [of "MetricsPrefix (cs ! i)" collectorPrefix scope n]
    by (auto simp: prefixes_ok_def list_all_length collectorPrefix_def)
  have same: "registry st' n = registry st1 n \<and> prev st' = prev st1" if "\<not> own scope collectorPrefix n" for n
    using set_leader_frame [OF s(2) that] set_health_frame [OF s(3) that] by simp
  have "\<not> own scope collectorPrefix []" by (simp add: own_def own_prefix_def has_prefix_def)
  then have "prev st' = prev st1" using same by blast
  then have "ex_inv scope cs st'" using r(1) same notown by (auto simp: ex_inv_def)
  moreover have "registry st' n = expected scope cs env i n" if "i < length cs" "own scope (MetricsPrefix (cs ! i)) n" for i n
    using r(2) [OF that] same [OF notown [OF that]] by simp
  ultimately show ?thesis by blast
qed

text \<open>The states of the collection loop.\<close>

inductive ex_reach :: "string \<Rightarrow> collector list \<Rightarrow> ex_state \<Rightarrow> bool" for scope cs where
  ex_init: "ex_reach scope cs ex_start"
| ex_next: "ex_reach scope cs st \<Longrightarrow> distinct sched \<Longrightarrow> set sched = {..< length cs} \<Longrightarrow>
     ex_round scope cs env sched st = Some st' \<Longrightarrow> ex_reach scope cs st'"

lemma ex_reach_inv: "ex_reach scope cs st \<Longrightarrow> prefixes_ok cs \<Longrightarrow> ex_inv scope cs st"
proof (induction rule: ex_reach.induct)
  case ex_init
  then show ?case by (simp add: ex_inv_def ex_start_def)
next
  case (ex_next st sched env st')
  then show ?case using ex_round_effect by blast
qed

section \<open>Properties\<close>

text \<open>
  C24. After every round of the collection loop the registry shows exactly the latest results: for each selected
  collector the metrics under its prefix are those it has just returned, and there are none when it failed
  or was not allowed to run (a collector for the leader only). No stale metric survives, whatever happened in
  earlier rounds and in whatever order the concurrent collectors take effect.
\<close>

theorem registry_is_latest:
  assumes "ex_reach scope cs st" and "prefixes_ok cs" and "distinct sched" and "set sched = {..< length cs}"
    and "ex_round scope cs env sched st = Some st'"
    and "i < length cs" and "own scope (MetricsPrefix (cs ! i)) n"
  shows "registry st' n =
     (if isLeader env \<or> \<not> IsLeaderMetrics (cs ! i)
      then (case collect env i of Inl _ \<Rightarrow> None | Inr ms \<Rightarrow> named scope (MetricsPrefix (cs ! i)) ms n)
      else None)"
proof -
  have "registry st' n = expected scope cs env i n"
    using ex_round_effect [OF assms(2) ex_reach_inv [OF assms(1,2)] assms(3-5)] assms(6,7) by blast
  then show ?thesis by (auto simp: expected_def active_def split: sum.splits)
qed

text \<open>The registered collectors have such prefixes.\<close>

lemma registered_prefixes: "prefixes_ok registered"
  by (simp add: prefixes_ok_def registered_defs collectorPrefix_def)

section \<open>Examples\<close>

definition demo_collectors :: "collector list" where
  "demo_collectors = [registered ! 2]"

definition demo_env :: round_env where
  "demo_env = \<lparr>isLeader = True, collect = (\<lambda>_. fst (mock_Collect 0)), elapsed = (\<lambda>_. 2)\<rparr>"

lemma demo_round: "\<exists>st'. ex_round ScopeCluster demo_collectors demo_env [0] ex_start = Some st'"
  by (simp add: ex_round_def run_collector_def active_def demo_env_def mock_Collect_def BuildMetricName_def
      set_leader_def set_counter_def demo_collectors_def registered_defs needs_escape_def Let_def)

theorem registry_is_latest_witness:
  "\<exists>st'. ex_round ScopeCluster demo_collectors demo_env [0] ex_start = Some st'
     \<and> registry st' ''neco_cluster_mock_test'' = Some 100"
proof -
  obtain st' where st': "ex_round ScopeCluster demo_collectors demo_env [0] ex_start = Some st'" using demo_round by blast
  have "prefixes_ok demo_collectors" by (simp add: prefixes_ok_def demo_collectors_def registered_defs collectorPrefix_def)
  moreover have "own ScopeCluster (MetricsPrefix (demo_collectors ! 0)) ''neco_cluster_mock_test''"
    by (simp add: own_def own_prefix_def has_prefix_def demo_collectors_def registered_defs ScopeCluster_def)
  moreover have "set [0] = {..< length demo_collectors}" "0 < length demo_collectors" by (auto simp: demo_collectors_def)
  ultimately have "registry st' ''neco_cluster_mock_test'' =
     (if isLeader demo_env \<or> \<not> IsLeaderMetrics (demo_collectors ! 0)
      then (case collect demo_env 0 of Inl _ \<Rightarrow> None
            | Inr ms \<Rightarrow> named ScopeCluster (MetricsPrefix (demo_collectors ! 0)) ms ''neco_cluster_mock_test'')
      else None)"
    using registry_is_latest [OF ex_reach.ex_init _ _ _ st'] by simp
  then show ?thesis
    using st' by (simp add: demo_env_def mock_Collect_def named_def BuildMetricName_def demo_collectors_def registered_defs ScopeCluster_def)
qed

end
