(* ===== verification/Collectors.thy ===== *)
theory Collectors
  imports Exporter Json_Text "HOL-Library.AList"
begin

text \<open>
  The collectors of neco-exporter: Cilium identities, certificates of TLS Secrets, NetworkFences (cluster scope),
  kubelet configuration, CPU pinning, NIC interrupts and BPF programs (node scope). The interface
  \<open>exporter.Collector\<close> is a locale that promises metrics whose labels need no escaping.

  A Go map is the list of its entries in the order in which a loop visits them; \<open>AList.update\<close> is the
  assignment to a key. Accessors of unstructured objects, PEM and X.509 parsing, \<open>resource.ParseQuantity\<close>,
  the Kubernetes, gRPC and BPF calls are arguments: what they return is part of the input.
\<close>

section \<open>The collector interface\<close>

definition labels_ok :: "Metric \<Rightarrow> bool" where
  "labels_ok m \<longleftrightarrow> list_all (\<lambda>(k, v). \<not> needs_escape v) (Labels m)"

text \<open>The contract of \<open>Collect\<close> on a well-formed input: it returns, it does not panic (\<^term>\<open>None\<close>), and the labels of its
  metrics need no escaping.\<close>

locale collector_impl =
  fixes input_ok :: "'i \<Rightarrow> bool" and collect_fn :: "'i \<Rightarrow> (string, Metric list) result option"
  assumes returns: "input_ok x \<Longrightarrow> collect_fn x \<noteq> None"
    and no_escape: "input_ok x \<Longrightarrow> collect_fn x = Some (Inr ms) \<Longrightarrow> list_all labels_ok ms"

lemma label_text_ok: "list_all (\<lambda>(k, v). \<not> needs_escape v) ls \<Longrightarrow> label_text ls \<noteq> None"
  by (induction ls rule: label_text.induct) auto

lemma BuildMetricName_ok: "labels_ok m \<Longrightarrow> BuildMetricName scope p (Name m) (Labels m) \<noteq> None"
  using label_text_ok [of "sort_key fst (Labels m)"]
  by (auto simp: BuildMetricName_def labels_ok_def list_all_iff split: option.splits)

lemma set_metrics_ok: "list_all labels_ok ms \<Longrightarrow> set_metrics scope p ms reg old new \<noteq> None"
proof (induction ms arbitrary: reg old new)
  case (Cons m ms)
  then show ?case using BuildMetricName_ok [of m scope p] by (auto split: option.splits)
qed simp

context collector_impl
begin

lemma no_panic:
  assumes "input_ok x" and "collect_fn x = Some (collect env i)"
  shows "run_collector scope cs env i st \<noteq> None"
proof (cases "collect env i")
  case (Inl e)
  then show ?thesis by (simp add: run_collector_def)
next
  case (Inr ms)
  then have "set_metrics scope (MetricsPrefix (cs ! i)) ms (registry st) (prev st i) {} \<noteq> None"
    using no_escape [OF assms(1)] assms(2) set_metrics_ok by simp
  then show ?thesis using Inr by (auto simp: run_collector_def split: option.splits)
qed

end

definition plain_text :: "string \<Rightarrow> bool" where
  "plain_text s \<longleftrightarrow> \<not> needs_escape s"

lemma plain_simps [simp]:
  "plain_text []" "plain_text (a @ b) \<longleftrightarrow> plain_text a \<and> plain_text b"
  "plain_text (c # s) \<longleftrightarrow> c \<noteq> CHR 0x5C \<and> c \<noteq> CHR 0x22 \<and> c \<noteq> CHR 0x0A \<and> plain_text s"
  by (auto simp: plain_text_def needs_escape_def)

section \<open>Cilium identities\<close>

definition namespaceSecurityLabel :: string where
  "namespaceSecurityLabel = ''k8s:io.kubernetes.pod.namespace''"

definition label_char :: "char \<Rightarrow> bool" where
  "label_char c \<longleftrightarrow> is_lower c \<or> is_upper c \<or> is_digit c \<or> c = CHR ''_''"

text \<open>The loop ranges over the runes of the key; a byte that starts no valid encoding is a rune of its own.\<close>

function sanitize_runes :: "string \<Rightarrow> string" where
  "sanitize_runes key =
     (case key of
        [] \<Rightarrow> []
      | c # _ \<Rightarrow> (if label_char c then c else CHR ''_'') # sanitize_runes (drop (max 1 (rune_len key)) key))"
  by pat_completeness auto
termination
  by (relation "measure length") auto

declare sanitize_runes.simps [simp del]

definition sanitizeLabelName :: "string \<Rightarrow> string" where
  "sanitizeLabelName key = ''label_'' @ sanitize_runes key"

text \<open>The name has one character for each rune, all of them allowed in a label.\<close>

lemma sanitize_runes_chars: "list_all label_char (sanitize_runes key)"
proof (induction key rule: sanitize_runes.induct)
  case (1 key)
  show ?case
  proof (cases key)
    case Nil
    then show ?thesis using sanitize_runes.simps [of key] by simp
  next
    case (Cons c t)
    have "label_char (if label_char c then c else CHR ''_'')" by (simp add: label_char_def)
    then show ?thesis using sanitize_runes.simps [of key] 1 [OF Cons] Cons by simp
  qed
qed

definition conflictedLabelValue :: string where
  "conflictedLabelValue = ''<CONFLICTED>''"

fun prom_loop :: "labels \<Rightarrow> labels \<Rightarrow> labels" where
  "prom_loop [] labels = labels"
| "prom_loop ((k, v) # es) labels =
     (if k = namespaceSecurityLabel then prom_loop es labels
      else let name = sanitizeLabelName k;
               v' = (case map_of labels name of Some _ \<Rightarrow> conflictedLabelValue | None \<Rightarrow> v)
           in prom_loop es (AList.update name v' labels))"

definition securityLabelsToPromLabels :: "labels \<Rightarrow> labels" where
  "securityLabelsToPromLabels es = prom_loop es []"

definition formatSecurityLabels :: "labels \<Rightarrow> string" where
  "formatSecurityLabels es = join '','' (sort (map (\<lambda>(k, v). if v = [] then k else k @ ''='' @ v) es))"

text \<open>A CiliumIdentity: \<open>NestedString\<close> of the namespace label and \<open>NestedStringMap\<close> of all labels.\<close>

record cilium_identity =
  cid_name :: string
  cid_uid :: string
  ns_label :: "(string, string option) result"
  security_labels :: "(string, labels) result"

definition getIdentityNamespace :: "cilium_identity \<Rightarrow> (string, string) result" where
  "getIdentityNamespace cid =
     (case ns_label cid of Inl e \<Rightarrow> Inl e | Inr None \<Rightarrow> Inr ''(null)'' | Inr (Some ns) \<Rightarrow> Inr ns)"

definition indexByNamespace :: "cilium_identity \<Rightarrow> string list" where
  "indexByNamespace cid = (case getIdentityNamespace cid of Inl _ \<Rightarrow> [] | Inr ns \<Rightarrow> [ns])"

record identityInfo =
  uid :: string
  securityLabels :: labels

record identityWatcher =
  identityCount :: "(string \<times> nat) list"
  identities :: "(string \<times> identityInfo) list"

definition newIdentityWatcher :: identityWatcher where
  "newIdentityWatcher = \<lparr>identityCount = [], identities = []\<rparr>"

text \<open>\<open>listed ns\<close> is the number of items the cached client lists for the index value; none when it fails.\<close>

definition id_update :: "(string \<Rightarrow> nat) \<Rightarrow> cilium_identity \<Rightarrow> bool \<Rightarrow> identityWatcher \<Rightarrow> identityWatcher" where
  "id_update listed cid deleted w =
     (case getIdentityNamespace cid of
        Inl _ \<Rightarrow> w
      | Inr ns \<Rightarrow>
          let info = (if \<not> deleted
                      then (case security_labels cid of
                              Inl _ \<Rightarrow> None
                            | Inr sl \<Rightarrow> Some \<lparr>uid = cid_uid cid, securityLabels = sl\<rparr>)
                      else None)
          in \<lparr>identityCount = (if 0 < listed ns then AList.update ns (listed ns) (identityCount w)
                              else AList.delete ns (identityCount w)),
             identities = (case info of
                             Some i \<Rightarrow> AList.update (cid_name cid) i (identities w)
                           | None \<Rightarrow> AList.delete (cid_name cid) (identities w))\<rparr>)"

text \<open>What an informer hands to an event handler.\<close>

datatype 'a informer_obj = Obj 'a | Tombstone 'a | Unknown

definition id_handler :: "(string \<Rightarrow> nat) \<Rightarrow> cilium_identity informer_obj \<Rightarrow> bool \<Rightarrow> identityWatcher \<Rightarrow> identityWatcher" where
  "id_handler listed ob deleted w =
     (case ob of Obj cid \<Rightarrow> id_update listed cid deleted w
      | Tombstone cid \<Rightarrow> id_update listed cid deleted w
      | Unknown \<Rightarrow> w)"

definition identity_metric :: "string \<times> identityInfo \<Rightarrow> Metric" where
  "identity_metric = (\<lambda>(name, info).
     let l0 = securityLabelsToPromLabels (securityLabels info);
         l1 = AList.update ''identity'' name l0;
         l2 = AList.update ''uid'' (uid info) l1;
         l3 = AList.update ''security_labels'' (formatSecurityLabels (securityLabels info)) l2;
         l4 = (case map_of (securityLabels info) namespaceSecurityLabel of
                 Some ns \<Rightarrow> AList.update ''namespace'' ns l3 | None \<Rightarrow> l3)
     in \<lparr>Name = ''identity_info'', Labels = l4, Value = 1\<rparr>)"

definition ciliumid_Collect :: "identityWatcher \<Rightarrow> (string, Metric list) result" where
  "ciliumid_Collect w =
     Inr (map (\<lambda>(ns, n). \<lparr>Name = ''identity_count'', Labels = [(''namespace'', ns)], Value = of_nat n\<rparr>) (identityCount w)
          @ map identity_metric (identities w))"

section \<open>Certificates\<close>

record Secret =
  s_namespace :: string
  s_name :: string
  s_type :: string
  tls_crt :: "string option"
  owners :: "(string \<times> string) list"

type_synonym secretWatcher = "((string \<times> string) \<times> int) list"

text \<open>\<open>pem\<close> is \<open>pem.Decode\<close> (type and bytes of the first block), \<open>x509\<close> the \<open>NotAfter\<close> of a parsed certificate.\<close>

definition cert_update ::
  "(string \<Rightarrow> (string \<times> string) option) \<Rightarrow> (string \<Rightarrow> int option) \<Rightarrow> Secret \<Rightarrow> bool \<Rightarrow> secretWatcher \<Rightarrow> secretWatcher" where
  "cert_update pem x509 s deleted w =
     (let nn = (s_namespace s, s_name s) in
      if deleted then AList.delete nn w
      else (case tls_crt s of
              None \<Rightarrow> w
            | Some data \<Rightarrow>
                (case pem data of
                   None \<Rightarrow> w
                 | Some (ty, bytes) \<Rightarrow>
                     if ty \<noteq> ''CERTIFICATE'' then w
                     else (case x509 bytes of None \<Rightarrow> w | Some notAfter \<Rightarrow> AList.update nn notAfter w))))"

definition cert_managed :: "Secret \<Rightarrow> bool" where
  "cert_managed s \<longleftrightarrow> (''cert-manager.io/v1'', ''Certificate'') \<in> set (owners s)"

text \<open>A tombstone is no \<open>*corev1.Secret\<close>, so the type assertion fails.\<close>

definition cert_handler ::
  "(string \<Rightarrow> (string \<times> string) option) \<Rightarrow> (string \<Rightarrow> int option) \<Rightarrow> Secret informer_obj \<Rightarrow> bool
     \<Rightarrow> secretWatcher \<Rightarrow> secretWatcher" where
  "cert_handler pem x509 ob deleted w =
     (case ob of
        Obj s \<Rightarrow>
          if s_type s \<noteq> ''kubernetes.io/tls'' then w
          else if \<not> cert_managed s then cert_update pem x509 s deleted w else w
      | Tombstone _ \<Rightarrow> w
      | Unknown \<Rightarrow> w)"

text \<open>A Secret that cert-manager has taken over is passed by, so its deletion leaves an earlier expiration in place.\<close>

lemma cert_adopted: "cert_managed s \<Longrightarrow> cert_handler pem x509 (Obj s) deleted w = w"
  by (simp add: cert_handler_def)

definition cert_Collect :: "secretWatcher \<Rightarrow> (string, Metric list) result" where
  "cert_Collect w =
     Inr (map (\<lambda>((ns, n), t). \<lparr>Name = ''expiration_timestamp_seconds'',
            Labels = [(''namespace'', ns), (''name'', n)], Value = of_int t\<rparr>) w)"

section \<open>NetworkFences\<close>

record network_fence =
  nf_name :: string
  nf_driver :: "(string, string option) result"
  nf_fenceState :: "(string, string option) result"
  nf_result :: "(string, string option) result"

fun fence_loop :: "network_fence list \<Rightarrow> Metric list" where
  "fence_loop [] = []"
| "fence_loop (f # fs) =
     (case (nf_driver f, nf_fenceState f, nf_result f) of
        (Inr d, Inr (Some st), Inr r) \<Rightarrow>
          \<lparr>Name = ''info'',
           Labels = [(''name'', nf_name f), (''driver'', case d of None \<Rightarrow> [] | Some x \<Rightarrow> x),
                     (''fence_state'', st), (''result'', case r of None \<Rightarrow> [] | Some x \<Rightarrow> x)],
           Value = 1\<rparr> # fence_loop fs
      | _ \<Rightarrow> fence_loop fs)"

definition networkfence_Collect :: "(string, network_fence list) result \<Rightarrow> (string, Metric list) result" where
  "networkfence_Collect listed = (case listed of Inl e \<Rightarrow> Inl e | Inr items \<Rightarrow> Inr (fence_loop items))"

section \<open>Kubelet configuration\<close>

record reservation =
  r_resource :: string
  r_unit :: string
  r_value :: rat

definition systemReservedResources :: "(string \<times> string) list" where
  "systemReservedResources = [(''cpu'', ''core''), (''memory'', ''byte'')]"

definition configPath :: string where
  "configPath = ''/var/lib/kubelet/config.yaml''"

text \<open>\<open>os.ReadFile\<close>, \<open>yaml.Unmarshal\<close> into the map \<open>systemReserved\<close>, \<open>resource.ParseQuantity\<close> with
  \<open>AsApproximateFloat64\<close>, and the quoted form that \<open>%q\<close> prints.\<close>

record kubelet_env =
  ReadFile :: "string \<Rightarrow> (string, string) result"
  Unmarshal :: "string \<Rightarrow> (string, string \<rightharpoonup> string) result"
  ParseQuantity :: "string \<Rightarrow> (string, rat) result"
  quoted :: "string \<Rightarrow> string"

fun reserve_loop ::
  "kubelet_env \<Rightarrow> (string \<rightharpoonup> string) \<Rightarrow> (string \<times> string) list \<Rightarrow> reservation list \<Rightarrow> (string, reservation list) result" where
  "reserve_loop env reserved [] acc = Inr acc"
| "reserve_loop env reserved ((res, un) # rs) acc =
     (case reserved res of
        None \<Rightarrow> Inl (''systemReserved.'' @ res @ '' is not set in kubelet config '' @ configPath)
      | Some raw \<Rightarrow>
          (case ParseQuantity env raw of
             Inl e \<Rightarrow> Inl (''failed to parse systemReserved.'' @ res @ '' '' @ quoted env raw @ '': '' @ e)
           | Inr q \<Rightarrow> reserve_loop env reserved rs (acc @ [\<lparr>r_resource = res, r_unit = un, r_value = q\<rparr>])))"

definition kubelet_Setup :: "kubelet_env \<Rightarrow> string \<Rightarrow> (string, string \<times> reservation list) result" where
  "kubelet_Setup env node =
     (if node = [] then Inl ''NODE_NAME environment variable is not set''
      else (case ReadFile env configPath of
              Inl e \<Rightarrow> Inl (''failed to read kubelet config '' @ configPath @ '': '' @ e)
            | Inr data \<Rightarrow>
           (case Unmarshal env data of
              Inl e \<Rightarrow> Inl (''failed to parse kubelet config '' @ configPath @ '': '' @ e)
            | Inr reserved \<Rightarrow>
           (case reserve_loop env reserved systemReservedResources [] of
              Inl e \<Rightarrow> Inl e
            | Inr rs \<Rightarrow> Inr (node, rs)))))"

text \<open>A collector that was set up has both reservations, in the order of the table.\<close>

lemma kubelet_Setup_reserved:
  assumes "kubelet_Setup env node = Inr (node', rs)"
  shows "node' = node \<and> map (\<lambda>r. (r_resource r, r_unit r)) rs = systemReservedResources"
  using assms
  by (auto simp: kubelet_Setup_def systemReservedResources_def split: if_splits sum.splits option.splits)

definition kubelet_Collect :: "string \<times> reservation list \<Rightarrow> (string, Metric list) result" where
  "kubelet_Collect = (\<lambda>(node, rs).
     Inr (map (\<lambda>r. \<lparr>Name = ''system_reserved'',
            Labels = [(''node'', node), (''resource'', r_resource r), (''unit'', r_unit r)], Value = r_value r\<rparr>) rs))"

section \<open>CPU pinning\<close>

record pod_container =
  ct_name :: string
  cpu_ids :: "int list"

record pod_resources =
  pr_namespace :: string
  pr_name :: string
  containers :: "pod_container list"

record cpuPinningCollector =
  cp_node :: string
  cp_socketPath :: string

definition defaultSocketPath :: string where
  "defaultSocketPath = ''/var/lib/kubelet/pod-resources/kubelet.sock''"

text \<open>The calls to kubelet: \<open>grpc.NewClient\<close> for a target, and \<open>List\<close> over the connection to it.\<close>

record pod_resources_api =
  grpc_NewClient :: "string \<Rightarrow> string option"
  pr_List :: "string \<Rightarrow> (string, pod_resources list) result"

definition cpupinning_Collect :: "cpuPinningCollector \<times> pod_resources_api \<Rightarrow> (string, Metric list) result" where
  "cpupinning_Collect = (\<lambda>(c, api). let target = ''unix://'' @ cp_socketPath c in
     (case grpc_NewClient api target of
        Some e \<Rightarrow> Inl (''failed to create PodResources client for '' @ cp_socketPath c @ '': '' @ e)
      | None \<Rightarrow>
     (case pr_List api target of
        Inl e \<Rightarrow> Inl (''failed to list pod resources via '' @ cp_socketPath c @ '': '' @ e)
      | Inr pods \<Rightarrow>
          Inr (concat (map (\<lambda>pod. concat (map (\<lambda>ct. map (\<lambda>cpu.
            \<lparr>Name = ''info'', Labels = [(''node'', cp_node c), (''namespace'', pr_namespace pod), (''pod'', pr_name pod),
               (''container'', ct_name ct), (''cpu'', itoa cpu)], Value = 1\<rparr>) (cpu_ids ct))
            (containers pod))) pods)))))"

section \<open>NIC interrupts\<close>

definition skipReasons :: "string list" where
  "skipReasons = [''read_error'', ''not_single_cpu'', ''unmatched_action'']"

record queueIRQ =
  irq :: int
  q_action :: string
  q_driver :: string
  q_device :: string
  q_queue :: string

record skip =
  sk_queue :: queueIRQ
  sk_reason :: string

text \<open>The groups of \<open>^([a-z0-9_]+)-(.+)-TxRx-([0-9]+)$\<close>: the driver ends at the first hyphen, the queue number is the
  run of digits at the end.\<close>

definition match_action :: "string \<Rightarrow> (string \<times> string \<times> string) option" where
  "match_action name =
     (case str_cut CHR ''-'' name of
        None \<Rightarrow> None
      | Some (drv, rest) \<Rightarrow>
          let digits = rev (takeWhile is_digit (rev rest));
              body = take (length rest - length digits) rest;
              device = take (length body - 6) body
          in if drv = [] \<or> \<not> list_all (\<lambda>c. is_lower c \<or> is_digit c \<or> c = CHR ''_'') drv \<or> digits = []
                \<or> device = [] \<or> CHR 0x0A \<in> set device \<or> body \<noteq> device @ ''-TxRx-''
             then None else Some (drv, device, digits))"

definition queue_like :: "string \<Rightarrow> bool" where
  "queue_like name \<longleftrightarrow> list_ex (\<lambda>t. has_prefix t ''txrx'') (suffixes (to_lower name))"

datatype dir_listing = NotExist | ListErr string | Listed "(string \<times> bool) list"

fun list_actions :: "int \<Rightarrow> (string \<times> bool) list \<Rightarrow> queueIRQ list \<times> skip list" where
  "list_actions n [] = ([], [])"
| "list_actions n ((name, isdir) # as) =
     (let (queues, unmatched) = list_actions n as in
      if \<not> isdir then (queues, unmatched)
      else (case match_action name of
              None \<Rightarrow>
                if queue_like name
                then (queues, \<lparr>sk_queue = \<lparr>irq = n, q_action = name, q_driver = [], q_device = [], q_queue = []\<rparr>,
                              sk_reason = ''unmatched_action''\<rparr> # unmatched)
                else (queues, unmatched)
            | Some (drv, dev, que) \<Rightarrow>
                (\<lparr>irq = n, q_action = name, q_driver = drv, q_device = dev, q_queue = que\<rparr> # queues, unmatched)))"

definition listQueueIRQs :: "dir_listing \<Rightarrow> int \<Rightarrow> (string, queueIRQ list \<times> skip list) result" where
  "listQueueIRQs d n =
     (case d of NotExist \<Rightarrow> Inr ([], []) | ListErr e \<Rightarrow> Inl e | Listed as \<Rightarrow> Inr (list_actions n as))"

definition collectQueue :: "string \<Rightarrow> (string, string) result \<Rightarrow> queueIRQ \<Rightarrow> (skip, Metric) result" where
  "collectQueue node data q =
     (case data of
        Inl _ \<Rightarrow> Inl \<lparr>sk_queue = q, sk_reason = ''read_error''\<rparr>
      | Inr s \<Rightarrow>
          (case atoi (trim_space s) of
             None \<Rightarrow> Inl \<lparr>sk_queue = q, sk_reason = ''not_single_cpu''\<rparr>
           | Some cpu \<Rightarrow>
               if cpu < 0 then Inl \<lparr>sk_queue = q, sk_reason = ''not_single_cpu''\<rparr>
               else Inr \<lparr>Name = ''queue_cpu'',
                         Labels = [(''node'', node), (''driver'', q_driver q), (''device'', q_device q), (''queue'', q_queue q)],
                         Value = of_int cpu\<rparr>))"

fun collect_queues :: "string \<Rightarrow> (string, string) result \<Rightarrow> queueIRQ list \<Rightarrow> Metric list \<times> skip list" where
  "collect_queues node data [] = ([], [])"
| "collect_queues node data (q # qs) =
     (let (ms, sks) = collect_queues node data qs in
      (case collectQueue node data q of Inl sk \<Rightarrow> (ms, sk # sks) | Inr m \<Rightarrow> (m # ms, sks)))"

text \<open>The host's \<open>/proc/irq\<close>: its entries, and the directory and the affinity file of each.\<close>

record irq_tree =
  irq_entries :: "(string, (string \<times> bool) list) result"
  irq_dir :: "string \<Rightarrow> dir_listing"
  affinity :: "string \<Rightarrow> (string, string) result"

fun irq_loop :: "string \<Rightarrow> irq_tree \<Rightarrow> (string \<times> bool) list \<Rightarrow> Metric list \<times> skip list" where
  "irq_loop node t [] = ([], [])"
| "irq_loop node t ((name, isdir) # es) =
     (let (ms, sks) = irq_loop node t es in
      if \<not> isdir then (ms, sks)
      else (case atoi name of
              None \<Rightarrow> (ms, sks)
            | Some n \<Rightarrow>
                (case listQueueIRQs (irq_dir t name) n of
                   Inl _ \<Rightarrow> (ms, \<lparr>sk_queue = \<lparr>irq = n, q_action = [], q_driver = [], q_device = [], q_queue = []\<rparr>,
                                  sk_reason = ''read_error''\<rparr> # sks)
                 | Inr (queues, unmatched) \<Rightarrow>
                     let (ms1, sks1) = collect_queues node (affinity t name) queues
                     in (ms1 @ ms, unmatched @ sks1 @ sks))))"

definition skip_count :: "skip list \<Rightarrow> string \<Rightarrow> nat" where
  "skip_count sks reason = length (filter (\<lambda>s. sk_reason s = reason) sks)"

definition skippedMetrics :: "string \<Rightarrow> skip list \<Rightarrow> Metric list" where
  "skippedMetrics node sks =
     map (\<lambda>reason. \<lparr>Name = ''skipped_queues'', Labels = [(''node'', node), (''reason'', reason)],
                    Value = of_nat (skip_count sks reason)\<rparr>) skipReasons"

text \<open>\<open>logSkipChanges\<close> writes a message when the counts differ from the last collection: with the counts in the
  order of the reasons and, unless all queues are reported again, the first skipped interrupt and action.\<close>

datatype skip_log = ReportedAgain "(string \<times> nat) list" | LeftOut nat "(string \<times> nat) list" int string

definition logSkipChanges :: "(string \<Rightarrow> nat) \<Rightarrow> skip list \<Rightarrow> skip_log option \<times> (string \<Rightarrow> nat)" where
  "logSkipChanges lastSkipped sks =
     (let counts = skip_count sks; attrs = map (\<lambda>r. (r, counts r)) skipReasons in
      (if \<not> list_ex (\<lambda>r. counts r \<noteq> lastSkipped r) skipReasons then None
       else (case sks of
               [] \<Rightarrow> Some (ReportedAgain attrs)
             | first # _ \<Rightarrow> Some (LeftOut (length sks) attrs (irq (sk_queue first)) (q_action (sk_queue first)))),
       counts))"

definition defaultProcRoot :: string where
  "defaultProcRoot = ''/proc''"

definition nicirq_Collect ::
  "string \<times> irq_tree \<Rightarrow> (string \<Rightarrow> nat) \<Rightarrow> (string, Metric list) result \<times> skip_log option \<times> (string \<Rightarrow> nat)" where
  "nicirq_Collect = (\<lambda>(node, t) lastSkipped.
     (case irq_entries t of
        Inl e \<Rightarrow> (Inl (''failed to list '' @ defaultProcRoot @ ''/irq: '' @ e), None, lastSkipped)
      | Inr es \<Rightarrow>
          let (ms, sks) = irq_loop node t es
          in (Inr (ms @ skippedMetrics node sks), logSkipChanges lastSkipped sks)))"

text \<open>A collection with the same counts as the one before is silent.\<close>

lemma logSkipChanges_quiet: "fst (logSkipChanges (snd (logSkipChanges last0 sks)) sks) = None"
  by (simp add: logSkipChanges_def Let_def list_ex_iff)

section \<open>BPF programs\<close>

datatype attach_type = TCXIngress | TCXEgress | OtherAttach

record TCXMetadata =
  Ifindex :: nat
  Direction :: string

text \<open>An endpoint of Cilium's model: the pointers \<open>Status\<close>, \<open>Networking\<close> (of which the index of the interface is read)
  and \<open>ExternalIdentifiers\<close> may be nil.\<close>

record external_identifiers =
  ep_namespace :: string
  ep_pod :: string
  ep_container :: string

record endpoint_status =
  Networking :: "int option"
  ExternalIdentifiers :: "external_identifiers option"

type_synonym endpoint = "endpoint_status option"

definition CheckBPFStatsEnabled :: "(string, string) result \<Rightarrow> (string, unit) result" where
  "CheckBPFStatsEnabled flg =
     (case flg of
        Inl e \<Rightarrow> Inl e
      | Inr s \<Rightarrow> if trim_space s = ''0'' then Inl ''BPF stats is not enabled'' else Inr ())"

fun tcx_loop ::
  "(string, nat \<times> (nat \<times> attach_type) option) result list \<Rightarrow> (nat \<rightharpoonup> TCXMetadata)
     \<Rightarrow> (string, nat \<rightharpoonup> TCXMetadata) result" where
  "tcx_loop [] ret = Inr ret"
| "tcx_loop (Inl e # ls) ret = Inl e"
| "tcx_loop (Inr (prog, None) # ls) ret = tcx_loop ls ret"
| "tcx_loop (Inr (prog, Some (ifindex, ty)) # ls) ret =
     tcx_loop ls (ret(prog \<mapsto> \<lparr>Ifindex = ifindex,
       Direction = (case ty of TCXIngress \<Rightarrow> ''ingress'' | TCXEgress \<Rightarrow> ''egress'' | OtherAttach \<Rightarrow> ''unknown'')\<rparr>))"

definition CollectTCXMetadata ::
  "(string, nat \<times> (nat \<times> attach_type) option) result list \<Rightarrow> (string, nat \<rightharpoonup> TCXMetadata) result" where
  "CollectTCXMetadata ls = tcx_loop ls Map.empty"

text \<open>The interface index is converted to \<open>uint32\<close>. A nil pointer on the way to it panics, which is \<^term>\<open>None\<close>.\<close>

definition interface_index :: "endpoint \<Rightarrow> nat option" where
  "interface_index ep =
     (case ep of None \<Rightarrow> None | Some st \<Rightarrow> map_option (\<lambda>i. nat (i mod 2 ^ 32)) (Networking st))"

fun endpoint_loop :: "endpoint list \<Rightarrow> (nat \<rightharpoonup> endpoint) \<Rightarrow> (nat \<rightharpoonup> endpoint) option" where
  "endpoint_loop [] ret = Some ret"
| "endpoint_loop (ep # eps) ret =
     (case interface_index ep of None \<Rightarrow> None | Some i \<Rightarrow> endpoint_loop eps (ret(i \<mapsto> ep)))"

definition CollectEndpointMetadata ::
  "(string, endpoint list) result \<Rightarrow> (string, nat \<rightharpoonup> endpoint) result option" where
  "CollectEndpointMetadata resp =
     (case resp of Inl e \<Rightarrow> Some (Inl e) | Inr eps \<Rightarrow> map_option Inr (endpoint_loop eps Map.empty))"

datatype btf_type = BtfFunc string | BtfOther nat

definition is_func :: "btf_type \<Rightarrow> bool" where
  "is_func t = (case t of BtfFunc _ \<Rightarrow> True | BtfOther _ \<Rightarrow> False)"

text \<open>\<open>GetLongProgramName\<close>: the types of the specification come in the order of a map.\<close>

definition GetLongProgramName ::
  "'i option \<Rightarrow> ('i \<Rightarrow> (string, (string, btf_type list) result) result) \<Rightarrow> (string, string) result" where
  "GetLongProgramName btf_id handle_spec =
     (case btf_id of
        None \<Rightarrow> Inl ''no BTFID found''
      | Some i \<Rightarrow>
          (case handle_spec i of
             Inl e \<Rightarrow> Inl e
           | Inr (Inl e) \<Rightarrow> Inl e
           | Inr (Inr ts) \<Rightarrow>
               (case filter is_func ts of
                  [] \<Rightarrow> Inl ''BTF contains no function spec''
                | [BtfFunc n] \<Rightarrow> Inr n
                | _ \<Rightarrow> Inl ''BTF contains multiple function spec'')))"

text \<open>What the calls for a program return: \<open>Stats\<close>, \<open>Info\<close>, and the handle and specification of its BTF.\<close>

record prog_stats =
  run_count :: nat
  run_seconds :: rat

record prog_info =
  info_type :: string
  info_name :: string
  btf_id :: "nat option"
  btf_spec :: "nat \<Rightarrow> (string, (string, btf_type list) result) result"

datatype prog_open = ProgGone | ProgErr string | ProgOpen "(string, prog_stats) result" "(string, prog_info) result"

text \<open>The labels of a program; \<^term>\<open>None\<close> when the identifiers of its endpoint are nil.\<close>

definition identifiers :: "endpoint \<Rightarrow> external_identifiers option" where
  "identifiers ep = (case ep of None \<Rightarrow> None | Some st \<Rightarrow> ExternalIdentifiers st)"

definition program_labels :: "nat \<Rightarrow> (nat \<rightharpoonup> TCXMetadata) \<Rightarrow> (nat \<rightharpoonup> endpoint) \<Rightarrow> prog_info \<Rightarrow> labels option" where
  "program_labels n tcxMeta endpointMeta i =
     (let l0 = [(''id'', show_nat n), (''type'', info_type i), (''name'', info_name i)];
          l1 = (case GetLongProgramName (btf_id i) (btf_spec i) of Inr x \<Rightarrow> AList.update ''name'' x l0 | Inl _ \<Rightarrow> l0)
      in (case tcxMeta n of
            None \<Rightarrow> Some l1
          | Some m \<Rightarrow>
              let l2 = AList.update ''direction'' (Direction m) (AList.update ''ifindex'' (show_nat (Ifindex m)) l1)
              in (case endpointMeta (Ifindex m) of
                    None \<Rightarrow> Some l2
                  | Some ep \<Rightarrow>
                      map_option (\<lambda>x. AList.update ''container'' (ep_container x)
                                (AList.update ''pod'' (ep_pod x) (AList.update ''namespace'' (ep_namespace x) l2)))
                        (identifiers ep))))"

definition collectProgramMetrics ::
  "nat \<Rightarrow> (nat \<rightharpoonup> TCXMetadata) \<Rightarrow> (nat \<rightharpoonup> endpoint) \<Rightarrow> prog_open \<Rightarrow> (string, Metric list) result option" where
  "collectProgramMetrics n tcxMeta endpointMeta po =
     (case po of
        ProgGone \<Rightarrow> Some (Inr [])
      | ProgErr e \<Rightarrow> Some (Inl (''failed to open BPF Program: '' @ e))
      | ProgOpen (Inl e) _ \<Rightarrow> Some (Inl (''failed to get BPF stats: '' @ e))
      | ProgOpen (Inr stats) info \<Rightarrow>
          if run_count stats = 0 then Some (Inr [])
          else (case info of
                  Inl e \<Rightarrow> Some (Inl (''failed to get BPF program info: '' @ e))
                | Inr i \<Rightarrow>
                    map_option (\<lambda>ls. Inr [\<lparr>Name = ''run_time_seconds_total'', Labels = ls, Value = run_seconds stats\<rparr>,
                            \<lparr>Name = ''run_count_total'', Labels = ls, Value = of_nat (run_count stats)\<rparr>])
                      (program_labels n tcxMeta endpointMeta i)))"

text \<open>The programs in the order of their ids, each with whether the context is done after it, and how the iteration
  ends.\<close>

fun program_loop ::
  "(nat \<rightharpoonup> TCXMetadata) \<Rightarrow> (nat \<rightharpoonup> endpoint) \<Rightarrow> (nat \<times> prog_open \<times> bool) list \<Rightarrow> (string, unit) result \<Rightarrow> Metric list
     \<Rightarrow> (string, Metric list) result option" where
  "program_loop tcx eps [] fin ret =
     Some (case fin of Inl e \<Rightarrow> Inl (''failed to iterate BPF Program: '' @ e) | Inr _ \<Rightarrow> Inr ret)"
| "program_loop tcx eps ((n, po, ctx_done) # ps) fin ret =
     (case collectProgramMetrics n tcx eps po of
        None \<Rightarrow> None
      | Some (Inl e) \<Rightarrow> Some (Inl e)
      | Some (Inr sub) \<Rightarrow> if ctx_done then Some (Inl ''context is done'') else program_loop tcx eps ps fin (ret @ sub))"

record bpf_input =
  stats_flag :: "(string, string) result"
  tcx_links :: "(string, nat \<times> (nat \<times> attach_type) option) result list"
  endpoints_first :: "(string, endpoint list) result"
  reopen :: "(string, unit) result"
  endpoints_retry :: "(string, endpoint list) result"
  programs :: "(nat \<times> prog_open \<times> bool) list"
  program_end :: "(string, unit) result"

text \<open>\<open>Setup\<close>: the client of the Cilium socket, which a failing read of the endpoints opens once more.\<close>

definition bpf_open :: "(string, unit) result \<Rightarrow> (string, unit) result" where
  "bpf_open new_client =
     (case new_client of Inl e \<Rightarrow> Inl (''failed to open Cilium socket: '' @ e) | Inr _ \<Rightarrow> Inr ())"

definition bpf_endpoints :: "bpf_input \<Rightarrow> (string, nat \<rightharpoonup> endpoint) result option" where
  "bpf_endpoints b =
     (case CollectEndpointMetadata (endpoints_first b) of
        None \<Rightarrow> None
      | Some (Inr m) \<Rightarrow> Some (Inr m)
      | Some (Inl _) \<Rightarrow>
          (case bpf_open (reopen b) of
             Inl e \<Rightarrow> Some (Inl (''failed to reopen Cilium socket: '' @ e))
           | Inr _ \<Rightarrow>
               (case CollectEndpointMetadata (endpoints_retry b) of
                  None \<Rightarrow> None
                | Some (Inl e) \<Rightarrow> Some (Inl (''failed to read from Cilium socket: '' @ e))
                | Some (Inr m) \<Rightarrow> Some (Inr m))))"

definition bpf_Collect :: "bpf_input \<Rightarrow> (string, Metric list) result option" where
  "bpf_Collect b =
     (case CheckBPFStatsEnabled (stats_flag b) of Inl e \<Rightarrow> Some (Inl e) | Inr _ \<Rightarrow>
     (case CollectTCXMetadata (tcx_links b) of Inl e \<Rightarrow> Some (Inl (''failed to read TCX info: '' @ e)) | Inr tcx \<Rightarrow>
     (case bpf_endpoints b of None \<Rightarrow> None | Some (Inl e) \<Rightarrow> Some (Inl e) | Some (Inr eps) \<Rightarrow>
        program_loop tcx eps (programs b) (program_end b) [])))"

section \<open>Labels of the collected metrics\<close>

definition lok :: "labels \<Rightarrow> bool" where
  "lok ls \<longleftrightarrow> list_all (\<lambda>(k, v). plain_text v) ls"

lemma labels_ok_lok [simp]: "labels_ok m \<longleftrightarrow> lok (Labels m)"
  by (simp add: labels_ok_def lok_def plain_text_def)

lemma lok_simps [simp]: "lok []" "lok ((k, v) # ls) \<longleftrightarrow> plain_text v \<and> lok ls"
  by (simp_all add: lok_def)

lemma lok_update: "lok ls \<Longrightarrow> plain_text v \<Longrightarrow> lok (AList.update k v ls)"
  by (induction ls) auto

lemma plain_digits: "list_all is_digit s \<Longrightarrow> plain_text s"
  by (auto simp: plain_text_def needs_escape_def list_all_iff is_digit_def)

lemma plain_show_nat [simp]: "plain_text (show_nat n)"
  by (rule plain_digits [OF show_nat_digits])

lemma plain_itoa [simp]: "plain_text (itoa i)"
  by (simp add: itoa_def)

lemma plain_join: "plain_text sep \<Longrightarrow> list_all plain_text xs \<Longrightarrow> plain_text (join sep xs)"
  by (induction sep xs rule: join.induct) auto

lemma lok_prom_loop: "lok es \<Longrightarrow> lok ls \<Longrightarrow> lok (prom_loop es ls)"
proof (induction es ls rule: prom_loop.induct)
  case (2 k v es ls)
  then show ?case
    by (auto simp: Let_def lok_update conflictedLabelValue_def split: option.splits)
qed simp

definition cilium_ok :: "identityWatcher \<Rightarrow> bool" where
  "cilium_ok w \<longleftrightarrow> list_all (\<lambda>(ns, n). plain_text ns) (identityCount w)
     \<and> list_all (\<lambda>(name, info). plain_text name \<and> plain_text (uid info)
         \<and> list_all (\<lambda>(k, v). plain_text k \<and> plain_text v) (securityLabels info)) (identities w)"

lemma plain_format: "list_all (\<lambda>(k, v). plain_text k \<and> plain_text v) es \<Longrightarrow> plain_text (formatSecurityLabels es)"
  unfolding formatSecurityLabels_def by (rule plain_join) (auto simp: list_all_iff)

lemma identity_metric_ok:
  assumes "plain_text name" and "plain_text (uid info)" and "list_all (\<lambda>(k, v). plain_text k \<and> plain_text v) (securityLabels info)"
  shows "lok (Labels (identity_metric (name, info)))"
proof -
  have l: "lok (securityLabels info)" using assms(3) by (auto simp: lok_def list_all_iff)
  have "plain_text ns" if "map_of (securityLabels info) k = Some ns" for k ns
    using assms(3) map_of_SomeD [OF that] by (auto simp: list_all_iff)
  then show ?thesis
    using assms lok_prom_loop [OF l, of "[]"] plain_format [OF assms(3)]
    by (auto simp: identity_metric_def Let_def securityLabelsToPromLabels_def lok_update split: option.splits)
qed

interpretation ciliumid: collector_impl cilium_ok "\<lambda>x. Some (ciliumid_Collect x)"
proof unfold_locales
  fix w ms
  assume "cilium_ok w" "Some (ciliumid_Collect w) = Some (Inr ms)"
  then show "list_all labels_ok ms"
    using identity_metric_ok by (fastforce simp: cilium_ok_def ciliumid_Collect_def list_all_iff)
qed simp

definition cert_ok :: "secretWatcher \<Rightarrow> bool" where
  "cert_ok w \<longleftrightarrow> list_all (\<lambda>e. plain_text (fst (fst e)) \<and> plain_text (snd (fst e))) w"

interpretation cert: collector_impl cert_ok "\<lambda>x. Some (cert_Collect x)"
  by unfold_locales (simp, fastforce simp: cert_Collect_def cert_ok_def list_all_iff)

definition fence_ok :: "(string, network_fence list) result \<Rightarrow> bool" where
  "fence_ok listed \<longleftrightarrow> (case listed of Inl _ \<Rightarrow> True | Inr fs \<Rightarrow>
     list_all (\<lambda>f. plain_text (nf_name f) \<and> list_all (\<lambda>r. case r of Inr (Some x) \<Rightarrow> plain_text x | _ \<Rightarrow> True)
       [nf_driver f, nf_fenceState f, nf_result f]) fs)"

lemma fence_loop_ok: "fence_ok (Inr fs) \<Longrightarrow> list_all labels_ok (fence_loop fs)"
  by (induction fs) (auto simp: fence_ok_def split: sum.splits option.splits)

interpretation fence: collector_impl fence_ok "\<lambda>x. Some (networkfence_Collect x)"
  by unfold_locales (auto simp: networkfence_Collect_def fence_loop_ok split: sum.splits)

definition kubelet_ok :: "string \<times> reservation list \<Rightarrow> bool" where
  "kubelet_ok x \<longleftrightarrow> plain_text (fst x) \<and> list_all (\<lambda>r. plain_text (r_resource r) \<and> plain_text (r_unit r)) (snd x)"

interpretation kubelet: collector_impl kubelet_ok "\<lambda>x. Some (kubelet_Collect x)"
  by unfold_locales (auto simp: kubelet_Collect_def kubelet_ok_def list_all_iff)

definition pods_ok :: "cpuPinningCollector \<times> pod_resources_api \<Rightarrow> bool" where
  "pods_ok = (\<lambda>(c, api). plain_text (cp_node c)
     \<and> (\<forall>target. case pr_List api target of Inl _ \<Rightarrow> True | Inr pods \<Rightarrow>
          list_all (\<lambda>p. plain_text (pr_namespace p) \<and> plain_text (pr_name p)
            \<and> list_all (\<lambda>c. plain_text (ct_name c)) (containers p)) pods))"

interpretation cpupinning: collector_impl pods_ok "\<lambda>x. Some (cpupinning_Collect x)"
proof unfold_locales
  fix x ms
  assume "pods_ok x" and "Some (cpupinning_Collect x) = Some (Inr ms)"
  moreover obtain c api where x: "x = (c, api)" by fastforce
  ultimately obtain pods where "pr_List api (''unix://'' @ cp_socketPath c) = Inr pods" "plain_text (cp_node c)"
      "list_all (\<lambda>p. plain_text (pr_namespace p) \<and> plain_text (pr_name p)
        \<and> list_all (\<lambda>c. plain_text (ct_name c)) (containers p)) pods"
    by (auto simp: cpupinning_Collect_def pods_ok_def Let_def split: sum.splits option.splits)
  with \<open>Some (cpupinning_Collect x) = Some (Inr ms)\<close> show "list_all labels_ok ms"
    by (auto simp: x cpupinning_Collect_def Let_def list_all_iff split: option.splits)
qed simp

text \<open>Action names come from the kernel's interrupt descriptions.\<close>

definition irq_ok :: "string \<times> irq_tree \<Rightarrow> bool" where
  "irq_ok = (\<lambda>(node, t). plain_text node \<and>
     (\<forall>name. case irq_dir t name of Listed as \<Rightarrow> list_all (\<lambda>(a, d). plain_text a) as | _ \<Rightarrow> True))"

lemma plain_sub: "set a \<subseteq> set b \<Longrightarrow> plain_text b \<Longrightarrow> plain_text a"
  by (auto simp: plain_text_def needs_escape_def)

lemma match_action_plain:
  assumes "match_action name = Some (drv, dev, que)" and "plain_text name"
  shows "plain_text drv \<and> plain_text dev \<and> plain_text que"
proof -
  obtain rest where c: "str_cut CHR ''-'' name = Some (drv, rest)"
    and m: "dev = take (length (take (length rest - length que) rest) - 6) (take (length rest - length que) rest)"
      "que = rev (takeWhile is_digit (rev rest))"
    using assms(1) by (auto simp: match_action_def Let_def split: option.splits if_splits)
  have "name = drv @ CHR ''-'' # rest" using c by (simp add: str_cut_Some)
  moreover have "set dev \<subseteq> set rest" "set que \<subseteq> set rest"
    using m by (auto dest!: in_set_takeD set_takeWhileD)
  ultimately show ?thesis using assms(2) by (auto intro: plain_sub [of _ rest])
qed

lemma list_actions_plain:
  "list_all (\<lambda>(a, d). plain_text a) as \<Longrightarrow> q \<in> set (fst (list_actions n as)) \<Longrightarrow>
     plain_text (q_driver q) \<and> plain_text (q_device q) \<and> plain_text (q_queue q)"
proof (induction n as rule: list_actions.induct)
  case (2 n name isdir as)
  then show ?case
    using match_action_plain [of name]
    by (auto simp: Let_def case_prod_unfold split: if_splits option.splits)
qed simp

lemma collect_queues_ok:
  assumes "plain_text node" and "\<And>q. q \<in> set qs \<Longrightarrow> plain_text (q_driver q) \<and> plain_text (q_device q) \<and> plain_text (q_queue q)"
  shows "list_all labels_ok (fst (collect_queues node data qs))"
  using assms(2)
proof (induction qs)
  case (Cons q qs)
  then show ?case
    using assms(1) by (auto simp: case_prod_unfold Let_def collectQueue_def split: sum.splits option.splits if_splits)
qed simp

lemma irq_loop_ok: "irq_ok (node, t) \<Longrightarrow> list_all labels_ok (fst (irq_loop node t es))"
proof (induction node t es rule: irq_loop.induct)
  case (2 node t name isdir es)
  have node: "plain_text node" using "2.prems" by (simp add: irq_ok_def)
  have "list_all labels_ok (fst (collect_queues node (affinity t name) qs))"
    if "listQueueIRQs (irq_dir t name) n = Inr (qs, un)" for n qs un
  proof (rule collect_queues_ok [OF node])
    fix q assume "q \<in> set qs"
    then show "plain_text (q_driver q) \<and> plain_text (q_device q) \<and> plain_text (q_queue q)"
      using that "2.prems" list_actions_plain [of _ q n]
      by (auto simp: irq_ok_def listQueueIRQs_def split: dir_listing.splits) (metis dir_listing.simps(12) fst_conv)+
  qed
  then show ?case
    using "2.IH" "2.prems"
    by (auto simp: Let_def case_prod_unfold simp del: labels_ok_lok split: option.splits sum.splits)
qed simp

lemma skipped_ok: "plain_text node \<Longrightarrow> list_all labels_ok (skippedMetrics node sks)"
  by (simp add: skippedMetrics_def skipReasons_def)

interpretation nicirq: collector_impl irq_ok "\<lambda>x. Some (fst (nicirq_Collect x lastSkipped))"
proof unfold_locales
  fix x ms
  assume "irq_ok x" "Some (fst (nicirq_Collect x lastSkipped)) = Some (Inr ms)"
  then have h: "irq_ok x" "fst (nicirq_Collect x lastSkipped) = Inr ms" by simp_all
  obtain node t where x: "x = (node, t)" by fastforce
  obtain es where "irq_entries t = Inr es" using h(2) by (auto simp: x nicirq_Collect_def split: sum.splits)
  then have "ms = fst (irq_loop node t es) @ skippedMetrics node (snd (irq_loop node t es))"
    using h(2) by (simp add: x nicirq_Collect_def case_prod_unfold Let_def)
  moreover have "plain_text node" using h(1) by (simp add: x irq_ok_def)
  ultimately show "list_all labels_ok ms"
    using irq_loop_ok [of node t es] h(1) skipped_ok [of node] by (simp add: x del: labels_ok_lok)
qed simp

text \<open>Names of BPF programs, interfaces and endpoints.\<close>

definition info_ok :: "prog_info \<Rightarrow> bool" where
  "info_ok i \<longleftrightarrow> plain_text (info_type i) \<and> plain_text (info_name i)
     \<and> (case GetLongProgramName (btf_id i) (btf_spec i) of Inr x \<Rightarrow> plain_text x | Inl _ \<Rightarrow> True)"

definition prog_ok :: "prog_open \<Rightarrow> bool" where
  "prog_ok po \<longleftrightarrow> (case po of ProgOpen _ (Inr i) \<Rightarrow> info_ok i | _ \<Rightarrow> True)"

text \<open>An endpoint with all its pointers set and plain identifiers.\<close>

definition ep_ok :: "endpoint \<Rightarrow> bool" where
  "ep_ok ep \<longleftrightarrow> interface_index ep \<noteq> None
     \<and> (case identifiers ep of
          None \<Rightarrow> False
        | Some x \<Rightarrow> plain_text (ep_namespace x) \<and> plain_text (ep_pod x) \<and> plain_text (ep_container x))"

definition bpf_ok :: "bpf_input \<Rightarrow> bool" where
  "bpf_ok b \<longleftrightarrow>
     list_all (\<lambda>p. prog_ok (fst (snd p))) (programs b)
   \<and> list_all (\<lambda>r. case r of Inl _ \<Rightarrow> True | Inr eps \<Rightarrow> list_all ep_ok eps) [endpoints_first b, endpoints_retry b]"

lemma endpoint_loop_ok:
  assumes "list_all ep_ok eps" and "\<And>k e. m0 k = Some e \<Longrightarrow> ep_ok e"
  shows "\<exists>m. endpoint_loop eps m0 = Some m \<and> (\<forall>k e. m k = Some e \<longrightarrow> ep_ok e)"
  using assms
proof (induction eps arbitrary: m0)
  case (Cons a eps)
  then obtain i where i: "interface_index a = Some i" by (auto simp: ep_ok_def)
  have "\<exists>m. endpoint_loop eps (m0(i \<mapsto> a)) = Some m \<and> (\<forall>k e. m k = Some e \<longrightarrow> ep_ok e)"
    by (rule Cons.IH) (use Cons.prems in \<open>auto split: if_splits\<close>)
  then show ?case using i by simp
qed simp

lemma CollectEndpointMetadata_ok:
  assumes "case r of Inl _ \<Rightarrow> True | Inr eps \<Rightarrow> list_all ep_ok eps"
  shows "\<exists>o'. CollectEndpointMetadata r = Some o' \<and> (\<forall>m k e. o' = Inr m \<longrightarrow> m k = Some e \<longrightarrow> ep_ok e)"
  using assms endpoint_loop_ok [of _ Map.empty]
  by (cases r) (fastforce simp: CollectEndpointMetadata_def)+

lemma bpf_endpoints_ok:
  assumes "bpf_ok b"
  shows "\<exists>o'. bpf_endpoints b = Some o' \<and> (\<forall>m k e. o' = Inr m \<longrightarrow> m k = Some e \<longrightarrow> ep_ok e)"
proof -
  obtain o1 o2 where o: "CollectEndpointMetadata (endpoints_first b) = Some o1" "CollectEndpointMetadata (endpoints_retry b) = Some o2"
      "\<forall>m k e. o1 = Inr m \<longrightarrow> m k = Some e \<longrightarrow> ep_ok e" "\<forall>m k e. o2 = Inr m \<longrightarrow> m k = Some e \<longrightarrow> ep_ok e"
    using assms CollectEndpointMetadata_ok [of "endpoints_first b"] CollectEndpointMetadata_ok [of "endpoints_retry b"]
    by (auto simp: bpf_ok_def)
  then show ?thesis by (cases o1; cases o2) (auto simp: bpf_endpoints_def split: sum.splits)
qed

lemma tcx_direction:
  assumes "tcx_loop ls m0 = Inr m" and "m k = Some x" and "\<And>k x. m0 k = Some x \<Longrightarrow> plain_text (Direction x)"
  shows "plain_text (Direction x)"
  using assms
proof (induction ls m0 rule: tcx_loop.induct)
  case (4 prog ifindex ty ls ret)
  have "tcx_loop (Inr (prog, Some (ifindex, ty)) # ls) ret = Inr m" by (rule "4.prems"(1))
  note t = this [unfolded tcx_loop.simps]
  show ?case
  proof (rule "4.IH" [OF t "4.prems"(2)])
    fix k' x' assume h: "(ret(prog \<mapsto> \<lparr>Ifindex = ifindex, Direction = (case ty of TCXIngress \<Rightarrow> ''ingress''
        | TCXEgress \<Rightarrow> ''egress'' | OtherAttach \<Rightarrow> ''unknown'')\<rparr>)) k' = Some x'"
    show "plain_text (Direction x')"
      using h "4.prems"(3) by (cases "k' = prog"; cases ty) auto
  qed
qed auto

lemma program_labels_ok:
  assumes "info_ok i" and "\<And>k x. tcx k = Some x \<Longrightarrow> plain_text (Direction x)" and "\<And>k e. eps k = Some e \<Longrightarrow> ep_ok e"
  shows "\<exists>ls. program_labels n tcx eps i = Some ls \<and> lok ls"
proof -
  have "\<exists>x. identifiers e = Some x \<and> plain_text (ep_namespace x) \<and> plain_text (ep_pod x) \<and> plain_text (ep_container x)"
    if "eps k = Some e" for k e
    using assms(3) [OF that] by (auto simp: ep_ok_def split: option.splits)
  then show ?thesis
    using assms(1,2)
    by (fastforce simp: program_labels_def info_ok_def Let_def lok_update split: option.splits sum.splits)
qed

lemma collectProgramMetrics_ok:
  assumes "prog_ok po" and "\<And>k x. tcx k = Some x \<Longrightarrow> plain_text (Direction x)" and "\<And>k e. eps k = Some e \<Longrightarrow> ep_ok e"
  shows "\<exists>r. collectProgramMetrics n tcx eps po = Some r \<and> (\<forall>ms. r = Inr ms \<longrightarrow> list_all labels_ok ms)"
proof -
  have "\<exists>ls. program_labels n tcx eps i = Some ls \<and> lok ls" if "info_ok i" for i
    using program_labels_ok [of i tcx eps n] assms(2,3) that by blast
  then show ?thesis
    using assms(1) by (fastforce simp: collectProgramMetrics_def prog_ok_def split: prog_open.splits sum.splits)
qed

lemma program_loop_ok:
  assumes "list_all labels_ok ret" and "list_all (\<lambda>p. prog_ok (fst (snd p))) ps"
    and "\<And>k x. tcx k = Some x \<Longrightarrow> plain_text (Direction x)" and "\<And>k e. eps k = Some e \<Longrightarrow> ep_ok e"
  shows "\<exists>r. program_loop tcx eps ps fin ret = Some r \<and> (\<forall>ms. r = Inr ms \<longrightarrow> list_all labels_ok ms)"
  using assms(1,2)
proof (induction ps arbitrary: ret)
  case Nil
  then show ?case by (auto split: sum.splits)
next
  case (Cons p ps)
  obtain n po d where p: "p = (n, po, d)" by (cases p) auto
  have "prog_ok po" using Cons.prems(2) by (simp add: p)
  then obtain r where r: "collectProgramMetrics n tcx eps po = Some r" "\<forall>ms. r = Inr ms \<longrightarrow> list_all labels_ok ms"
    using collectProgramMetrics_ok [of po tcx eps n] assms(3,4) by blast
  show ?case
  proof (cases r)
    case (Inr sub)
    then have "list_all labels_ok (ret @ sub)" using r(2) Cons.prems(1) by (simp del: labels_ok_lok)
    then show ?thesis using Cons.IH [of "ret @ sub"] Cons.prems(2) r(1) Inr by (simp add: p del: labels_ok_lok)
  qed (use r in \<open>simp add: p\<close>)
qed

lemma bpf_Collect_ok:
  assumes "bpf_ok b"
  shows "\<exists>r. bpf_Collect b = Some r \<and> (\<forall>ms. r = Inr ms \<longrightarrow> list_all labels_ok ms)"
proof -
  obtain o' where o': "bpf_endpoints b = Some o'" "\<forall>m k e. o' = Inr m \<longrightarrow> m k = Some e \<longrightarrow> ep_ok e"
    using bpf_endpoints_ok [OF assms] by blast
  have tcx: "plain_text (Direction x)" if "CollectTCXMetadata (tcx_links b) = Inr tcx" "tcx k = Some x" for tcx k x
    using tcx_direction [of "tcx_links b" Map.empty tcx k x] that by (simp add: CollectTCXMetadata_def)
  have "\<exists>r. program_loop tcx m (programs b) (program_end b) [] = Some r \<and> (\<forall>ms. r = Inr ms \<longrightarrow> list_all labels_ok ms)"
    if "CollectTCXMetadata (tcx_links b) = Inr tcx" "o' = Inr m" for tcx m
    using program_loop_ok [of "[]" "programs b" tcx m "program_end b"] tcx [OF that(1)] o'(2) that(2) assms
    by (simp add: bpf_ok_def)
  then show ?thesis using o'(1) by (auto simp: bpf_Collect_def split: sum.splits)
qed

interpretation bpf: collector_impl bpf_ok bpf_Collect
proof unfold_locales
  fix b
  assume "bpf_ok b"
  from bpf_Collect_ok [OF this] show "bpf_Collect b \<noteq> None" by blast
next
  fix b ms
  assume "bpf_ok b" "bpf_Collect b = Some (Inr ms)"
  with bpf_Collect_ok [of b] show "list_all labels_ok ms" by auto
qed

text \<open>An endpoint without status or networking, or one of a reported program without identifiers, makes the collector
  panic. Its goroutine has no recovery, so the exporter ends.\<close>

lemma bpf_nil_endpoint:
  assumes "CheckBPFStatsEnabled (stats_flag b) = Inr ()" and "CollectTCXMetadata (tcx_links b) = Inr tcx"
    and "endpoints_first b = Inr eps" and "ep \<in> set eps" and "interface_index ep = None"
  shows "bpf_Collect b = None"
proof -
  have "endpoint_loop eps m0 = None" for m0
    using assms(4,5) by (induction eps arbitrary: m0) (auto split: option.splits)
  then show ?thesis using assms by (simp add: bpf_Collect_def bpf_endpoints_def CollectEndpointMetadata_def)
qed

section \<open>Conflicting labels\<close>

text \<open>The entries that are converted to a given name.\<close>

definition entries_for :: "string \<Rightarrow> labels \<Rightarrow> labels" where
  "entries_for name es = filter (\<lambda>e. fst e \<noteq> namespaceSecurityLabel \<and> sanitizeLabelName (fst e) = name) es"

definition label_for :: "string option \<Rightarrow> labels \<Rightarrow> string option" where
  "label_for before es =
     (case es of [] \<Rightarrow> before
      | e # rest \<Rightarrow> if before = None \<and> rest = [] then Some (snd e) else Some conflictedLabelValue)"

lemma prom_loop_spec: "map_of (prom_loop es ls) name = label_for (map_of ls name) (entries_for name es)"
proof (induction es ls rule: prom_loop.induct)
  case (1 ls)
  then show ?case by (simp add: entries_for_def label_for_def)
next
  case (2 k v es ls)
  show ?case
  proof (cases "k = namespaceSecurityLabel")
    case True
    then show ?thesis using 2 by (simp add: entries_for_def)
  next
    case False
    let ?v = "case map_of ls (sanitizeLabelName k) of Some _ \<Rightarrow> conflictedLabelValue | None \<Rightarrow> v"
    have "map_of (prom_loop ((k, v) # es) ls) name
        = label_for (map_of (AList.update (sanitizeLabelName k) ?v ls) name) (entries_for name es)"
      using 2(2) [OF False refl refl] False by (simp add: Let_def)
    then show ?thesis
      using False by (auto simp: update_conv entries_for_def label_for_def split: option.splits list.splits)
  qed
qed

lemma label_for_cases:
  "label_for None es = (case es of [] \<Rightarrow> None | [e] \<Rightarrow> Some (snd e) | _ \<Rightarrow> Some conflictedLabelValue)"
  by (simp add: label_for_def split: list.splits)

lemma label_for_perm: "mset es = mset es' \<Longrightarrow> label_for None es = label_for None es'"
  by (cases es; cases "tl es") (auto simp: label_for_def split: list.splits dest: mset_eq_length)

section \<open>Accounting for interrupts\<close>

text \<open>The action directories of an interrupt that belong to a NIC queue.\<close>

definition queue_actions :: "dir_listing \<Rightarrow> nat" where
  "queue_actions d =
     (case d of
        NotExist \<Rightarrow> 0
      | ListErr _ \<Rightarrow> 1
      | Listed as \<Rightarrow> length (filter (\<lambda>a. snd a \<and> (match_action (fst a) \<noteq> None \<or> queue_like (fst a))) as))"

lemma list_actions_count:
  "length (fst (list_actions n as)) + length (snd (list_actions n as))
     = length (filter (\<lambda>a. snd a \<and> (match_action (fst a) \<noteq> None \<or> queue_like (fst a))) as)"
  by (induction n as rule: list_actions.induct) (auto simp: Let_def case_prod_unfold split: option.splits)

lemma collect_queues_count:
  "length (fst (collect_queues node data qs)) + length (snd (collect_queues node data qs)) = length qs"
  by (induction qs) (auto simp: Let_def case_prod_unfold split: sum.splits)

lemma irq_loop_count:
  "length (fst (irq_loop node t es)) + length (snd (irq_loop node t es))
     = sum_list (map (\<lambda>e. if snd e \<and> atoi (fst e) \<noteq> None then queue_actions (irq_dir t (fst e)) else 0) es)"
proof (induction node t es rule: irq_loop.induct)
  case (2 node t name isdir es)
  show ?case
  proof (cases "isdir \<and> atoi name \<noteq> None")
    case True
    then obtain n where n: "atoi name = Some n" by blast
    show ?thesis
    proof (cases "irq_dir t name")
      case (Listed as)
      obtain qs un where a: "list_actions n as = (qs, un)" by fastforce
      have "length qs + length un = queue_actions (irq_dir t name)"
        using list_actions_count [of n as] a Listed by (simp add: queue_actions_def)
      then show ?thesis
        using 2 True n Listed a collect_queues_count [of node "affinity t name" qs]
        by (simp add: Let_def case_prod_unfold listQueueIRQs_def)
    qed (use 2 True n in \<open>simp_all add: Let_def case_prod_unfold listQueueIRQs_def queue_actions_def\<close>)
  next
    case False
    then show ?thesis using 2 by (auto simp: Let_def case_prod_unfold)
  qed
qed simp

lemma skip_reasons_known: "sk \<in> set (snd (irq_loop node t es)) \<Longrightarrow> sk_reason sk \<in> set skipReasons"
proof (induction node t es rule: irq_loop.induct)
  case (2 node t name isdir es)
  have un: "sk_reason x \<in> set skipReasons" if "x \<in> set (snd (list_actions n as))" for x n as
    using that by (induction n as rule: list_actions.induct)
      (auto simp: Let_def case_prod_unfold skipReasons_def split: option.splits if_splits)
  have cq: "sk_reason x \<in> set skipReasons" if "x \<in> set (snd (collect_queues node data qs))" for x data qs
    using that by (induction qs)
      (auto simp: Let_def case_prod_unfold collectQueue_def skipReasons_def split: sum.splits option.splits if_splits)
  have un': "sk_reason x \<in> set skipReasons" if "list_actions n as = (a, b)" "x \<in> set b" for x n as a b
    using un [of x n as] that by simp
  have rr: "''read_error'' \<in> set skipReasons" by (simp add: skipReasons_def)
  show ?case
    using 2
    by (auto simp: Let_def case_prod_unfold listQueueIRQs_def rr dest: un' cq
        split: option.splits sum.splits if_splits dir_listing.splits)
qed simp

lemma skip_counts_total:
  assumes "list_all (\<lambda>s. sk_reason s \<in> set skipReasons) sks"
  shows "sum_list (map (skip_count sks) skipReasons) = length sks"
  using assms by (induction sks) (auto simp: skip_count_def skipReasons_def)

section \<open>Rounds without panic\<close>

text \<open>What the collectors do on well-formed inputs.\<close>

inductive collector_run :: "(string, Metric list) result option \<Rightarrow> bool" where
  run_failed: "collector_run (Some (Inl e))"
| run_mock: "collector_run (Some (fst (mock_Collect cnt)))"
| run_cilium: "cilium_ok w \<Longrightarrow> collector_run (Some (ciliumid_Collect w))"
| run_cert: "cert_ok s \<Longrightarrow> collector_run (Some (cert_Collect s))"
| run_fence: "fence_ok f \<Longrightarrow> collector_run (Some (networkfence_Collect f))"
| run_kubelet: "kubelet_ok k \<Longrightarrow> collector_run (Some (kubelet_Collect k))"
| run_pods: "pods_ok p \<Longrightarrow> collector_run (Some (cpupinning_Collect p))"
| run_irq: "irq_ok q \<Longrightarrow> collector_run (Some (fst (nicirq_Collect q lastSkipped)))"
| run_bpf: "bpf_ok b \<Longrightarrow> collector_run (bpf_Collect b)"

lemma unlabelled_ok [simp]: "labels_ok \<lparr>Name = n, Labels = [], Value = v\<rparr>"
  by simp

lemma collector_run_returns: "collector_run out \<Longrightarrow> out \<noteq> None"
  by (induction rule: collector_run.induct) (simp_all add: bpf.returns)

lemma collector_run_ok: "collector_run out \<Longrightarrow> out = Some (Inr ms) \<Longrightarrow> list_all labels_ok ms"
  by (induction rule: collector_run.induct)
    (auto simp: mock_Collect_def Let_def simp del: labels_ok_lok
      intro: ciliumid.no_escape cert.no_escape fence.no_escape kubelet.no_escape cpupinning.no_escape
        nicirq.no_escape bpf.no_escape split: if_splits)

lemma run_collectors_total:
  assumes "\<And>i. i \<in> set is \<Longrightarrow> active env (cs ! i) \<Longrightarrow> collector_run (Some (collect env i))"
  shows "\<exists>st'. run_collectors scope cs env is st = Some st'"
  using assms
proof (induction "is" arbitrary: st)
  case (Cons i js)
  have "run_collector scope cs env i st \<noteq> None"
  proof (cases "active env (cs ! i) \<and> (\<exists>ms. collect env i = Inr ms)")
    case True
    then obtain ms where ms: "collect env i = Inr ms" by blast
    then have "list_all labels_ok ms" using Cons.prems [of i] True collector_run_ok by simp
    then show ?thesis
      using ms set_metrics_ok [of ms scope "MetricsPrefix (cs ! i)" "registry st" "prev st i" "{}"]
      by (auto simp: run_collector_def split: option.splits)
  next
    case False
    then show ?thesis by (auto simp: run_collector_def split: sum.splits)
  qed
  moreover have "\<exists>st'. run_collectors scope cs env js st1 = Some st'" for st1 using Cons by simp
  ultimately show ?case by auto
qed simp

lemma set_counter_total: "lok ls \<Longrightarrow> \<exists>st'. set_counter (BuildMetricName scope p name ls) v st = Some st'"
  using BuildMetricName_ok [of "\<lparr>Name = name, Labels = ls, Value = 0\<rparr>" scope p] by (auto simp: set_counter_def)

lemma set_health_total:
  assumes "list_all (\<lambda>c. plain_text (MetricsPrefix c)) cs" and "list_all (\<lambda>i. i < length cs) is"
  shows "\<exists>st'. set_health scope cs env is st = Some st'"
  using assms(2)
proof (induction "is" arbitrary: st)
  case (Cons i js)
  have "i < length cs" using Cons.prems by simp
  then have l: "lok [(''collector'', MetricsPrefix (cs ! i))]" using assms(1) by (simp add: list_all_length)
  show ?case
  proof (cases "active env (cs ! i)")
    case True
    obtain st1 where 1: "set_counter (BuildMetricName scope collectorPrefix ''health'' [(''collector'', MetricsPrefix (cs ! i))])
        (if health st i then 1 else 0) st = Some st1" using set_counter_total [OF l] by blast
    obtain st2 where 2: "set_counter (BuildMetricName scope collectorPrefix ''process_seconds'' [(''collector'', MetricsPrefix (cs ! i))])
        (dur st1 i) st1 = Some st2" using set_counter_total [OF l] by blast
    show ?thesis using True 1 2 Cons by simp
  next
    case False
    then show ?thesis using Cons by simp
  qed
qed simp

lemma ex_round_completes:
  assumes "\<And>i. i \<in> set sched \<Longrightarrow> active env (cs ! i) \<Longrightarrow> collector_run (Some (collect env i))"
    and "list_all (\<lambda>c. plain_text (MetricsPrefix c)) cs"
  shows "\<exists>st'. ex_round scope cs env sched st = Some st'"
proof -
  obtain st1 where 1: "run_collectors scope cs env sched st = Some st1" using run_collectors_total [of sched env cs scope st] assms(1) by blast
  obtain st2 where 2: "set_leader scope env st1 = Some st2"
    using set_counter_total [of "[]" scope collectorPrefix "''leader''" "if isLeader env then 1 else 0" st1]
    by (cases "scope = ScopeCluster") (auto simp: set_leader_def)
  obtain st3 where "set_health scope cs env [0 ..< length cs] st2 = Some st3"
    using set_health_total [OF assms(2), of "[0 ..< length cs]" scope env st2] by (auto simp: list_all_iff)
  then show ?thesis using 1 2 by (simp add: ex_round_def)
qed

section \<open>Properties\<close>

text \<open>
  C26. The Prometheus labels of an identity do not depend on the order in which Go ranges over its security labels. A label
  has the value of the one security label that is converted to its name, and the conflict marker when there
  are several; the namespace label is left out.
\<close>

theorem security_labels_order_free:
  assumes "mset es = mset es'"
  shows "map_of (securityLabelsToPromLabels es) = map_of (securityLabelsToPromLabels es')
    \<and> map_of (securityLabelsToPromLabels es) name =
        (case filter (\<lambda>e. fst e \<noteq> namespaceSecurityLabel \<and> sanitizeLabelName (fst e) = name) es of
           [] \<Rightarrow> None | [e] \<Rightarrow> Some (snd e) | _ \<Rightarrow> Some conflictedLabelValue)
    \<and> formatSecurityLabels es = formatSecurityLabels es'"
proof -
  have spec: "map_of (securityLabelsToPromLabels xs) n = label_for None (entries_for n xs)" for xs n
    by (simp add: securityLabelsToPromLabels_def prom_loop_spec)
  have "mset (entries_for n es) = mset (entries_for n es')" for n using assms by (simp add: entries_for_def)
  then have "map_of (securityLabelsToPromLabels es) n = map_of (securityLabelsToPromLabels es') n" for n
    unfolding spec by (rule label_for_perm)
  then have "map_of (securityLabelsToPromLabels es) = map_of (securityLabelsToPromLabels es')" by (rule ext)
  moreover have "sort (map f es) = sort (map f es')" for f :: "string \<times> string \<Rightarrow> string"
    using assms by (intro properties_for_sort) simp_all
  then have "formatSecurityLabels es = formatSecurityLabels es'" by (simp only: formatSecurityLabels_def)
  moreover have "map_of (securityLabelsToPromLabels es) name =
        (case filter (\<lambda>e. fst e \<noteq> namespaceSecurityLabel \<and> sanitizeLabelName (fst e) = name) es of
           [] \<Rightarrow> None | [e] \<Rightarrow> Some (snd e) | _ \<Rightarrow> Some conflictedLabelValue)"
    unfolding spec label_for_cases entries_for_def ..
  ultimately show ?thesis by blast
qed

text \<open>
  C27. The NIC interrupt collector accounts for every queue: the reported queues and the skipped ones, summed over the
  reasons it exports, are together the action directories that name a NIC queue, plus one for each interrupt
  directory that cannot be read.
\<close>

theorem nicirq_accounts:
  assumes "irq_entries t = Inr es"
  shows "\<exists>ms sks. fst (nicirq_Collect (node, t) lastSkipped) = Inr (ms @ skippedMetrics node sks)
     \<and> length ms + sum_list (map (skip_count sks) skipReasons)
        = sum_list (map (\<lambda>e. if snd e \<and> atoi (fst e) \<noteq> None then queue_actions (irq_dir t (fst e)) else 0) es)"
proof -
  let ?r = "irq_loop node t es"
  have "list_all (\<lambda>s. sk_reason s \<in> set skipReasons) (snd ?r)" using skip_reasons_known by (simp add: list_all_iff)
  then have "length (fst ?r) + sum_list (map (skip_count (snd ?r)) skipReasons)
      = sum_list (map (\<lambda>e. if snd e \<and> atoi (fst e) \<noteq> None then queue_actions (irq_dir t (fst e)) else 0) es)"
    using irq_loop_count [of node t es] skip_counts_total by simp
  moreover have "fst (nicirq_Collect (node, t) lastSkipped) = Inr (fst ?r @ skippedMetrics node (snd ?r))"
    using assms by (simp add: nicirq_Collect_def Let_def case_prod_unfold)
  ultimately show ?thesis by blast
qed

text \<open>
  Deletions that an informer reports late, as a tombstone: the watcher of Cilium identities removes the identity; the
  watcher of TLS Secrets ignores the event, so the certificate of the deleted Secret keeps its metric, while a
  deletion reported directly removes it.
\<close>

theorem tombstones:
  assumes "getIdentityNamespace cid = Inr ns" and "s_type s = ''kubernetes.io/tls''" and "\<not> cert_managed s"
  shows "map_of (identities (id_handler listed (Tombstone cid) True w)) (cid_name cid) = None
     \<and> cert_handler pem x509 (Tombstone s) True c = c
     \<and> map_of (cert_handler pem x509 (Obj s) True c) (s_namespace s, s_name s) = None"
  using assms by (simp add: id_handler_def id_update_def cert_handler_def cert_update_def Let_def AList.delete_conv)

section \<open>Examples\<close>

definition demo_secret :: Secret where
  "demo_secret = \<lparr>s_namespace = ''ns'', s_name = ''web'', s_type = ''kubernetes.io/tls'', tls_crt = None, owners = []\<rparr>"

definition demo_identity :: cilium_identity where
  "demo_identity = \<lparr>cid_name = ''42'', cid_uid = ''u'', ns_label = Inr (Some ''ns''), security_labels = Inr []\<rparr>"

definition demo_irqs :: irq_tree where
  "demo_irqs = \<lparr>irq_entries = Inr [(''17'', True), (''default'', True)],
     irq_dir = (\<lambda>_. Listed [(''ice-eno1-TxRx-3'', True), (''ice_TxRx'', True), (''spurious'', False)]),
     affinity = (\<lambda>_. Inr ''5'')\<rparr>"

theorem security_labels_order_free_witness:
  "map_of (securityLabelsToPromLabels [(''k8s:a.b'', ''1''), (''k8s:a-b'', ''2'')]) ''label_k8s_a_b'' = Some ''<CONFLICTED>''
   \<and> map_of (securityLabelsToPromLabels [(''k8s:a.b'', ''1''), (''k8s:a-b'', ''2'')])
     = map_of (securityLabelsToPromLabels [(''k8s:a-b'', ''2''), (''k8s:a.b'', ''1'')])"
proof -
  have m: "mset [(''k8s:a.b'', ''1''), (''k8s:a-b'', ''2'')] = mset [(''k8s:a-b'', ''2''), (''k8s:a.b'', ''1'')]" by simp
  have f: "filter (\<lambda>e. fst e \<noteq> namespaceSecurityLabel \<and> sanitizeLabelName (fst e) = ''label_k8s_a_b'')
      [(''k8s:a.b'', ''1''), (''k8s:a-b'', ''2'')] = [(''k8s:a.b'', ''1''), (''k8s:a-b'', ''2'')]"
    by code_simp
  show ?thesis
    using security_labels_order_free [OF m, of "''label_k8s_a_b''"] 
    unfolding f conflictedLabelValue_def list.case by blast
qed

theorem nicirq_accounts_witness:
  "\<exists>ms sks. fst (nicirq_Collect (''n'', demo_irqs) (\<lambda>_. 0)) = Inr (ms @ skippedMetrics ''n'' sks)
     \<and> length ms + sum_list (map (skip_count sks) skipReasons) = 2"
proof -
  have e: "irq_entries demo_irqs = Inr [(''17'', True), (''default'', True)]" by (simp add: demo_irqs_def)
  have s: "sum_list (map (\<lambda>e. if snd e \<and> atoi (fst e) \<noteq> None then queue_actions (irq_dir demo_irqs (fst e)) else 0)
      [(''17'', True), (''default'', True)]) = 2"
    by code_simp
  show ?thesis using nicirq_accounts [OF e, of "''n''" "\<lambda>_. 0"] unfolding s .
qed

theorem tombstones_witness:
  "cert_handler (\<lambda>_. None) (\<lambda>_. None) (Tombstone demo_secret) True [((''ns'', ''web''), 7)] = [((''ns'', ''web''), 7)]
   \<and> map_of (identities (id_handler (\<lambda>_. 0) (Tombstone demo_identity) True newIdentityWatcher)) (cid_name demo_identity) = None"
  using tombstones [of demo_identity "''ns''" demo_secret "\<lambda>_. 0" newIdentityWatcher "\<lambda>_. None" "\<lambda>_. None" "[((''ns'', ''web''), 7)]"]
  by (simp add: demo_identity_def demo_secret_def getIdentityNamespace_def cert_managed_def)

end
