(* ===== verification/Exporter_Main.thy ===== *)
theory Exporter_Main
  imports Collectors
begin

text \<open>
  neco-exporter as a program (\<open>main.go\<close>, \<open>Exporter.Start\<close>, \<open>Exporter.Run\<close>): the set-up of each collector, the shared
  controller manager (\<open>pkg/manager\<close>), the loop around the rounds of \<open>Exporter\<close>, and the way the process
  stops. The manager and the informers of controller-runtime and the Cilium client are arguments.
\<close>

section \<open>Set-up\<close>

text \<open>The manager is created on the first request and kept.\<close>

definition EnsureManager ::
  "(string, unit) result \<Rightarrow> (string, 'g) result \<Rightarrow> 'g option \<Rightarrow> (string, 'g) result \<times> 'g option" where
  "EnsureManager add_scheme new_manager m =
     (case m of
        Some g \<Rightarrow> (Inr g, m)
      | None \<Rightarrow>
          (case add_scheme of
             Inl e \<Rightarrow> (Inl (''unable to add client-go objects: '' @ e), m)
           | Inr _ \<Rightarrow>
               (case new_manager of
                  Inl e \<Rightarrow> (Inl (''unable to start local manager: '' @ e), m)
                | Inr g \<Rightarrow> (Inr g, Some g))))"

record 'g setup_env =
  add_scheme :: "(string, unit) result"
  new_manager :: "(string, 'g) result"
  index_field :: "'g \<Rightarrow> (string, unit) result"
  get_informer :: "'g \<Rightarrow> string \<Rightarrow> (string, unit) result"
  add_handler :: "'g \<Rightarrow> string \<Rightarrow> (string, unit) result"
  cilium_client :: "(string, unit) result"
  node_env :: string
  kubelet :: kubelet_env

definition with_manager ::
  "'g setup_env \<Rightarrow> ('g \<Rightarrow> (string, unit) result) \<Rightarrow> 'g option \<Rightarrow> (string, unit) result \<times> 'g option" where
  "with_manager env f m =
     (case EnsureManager (add_scheme env) (new_manager env) m of
        (Inl e, m') \<Rightarrow> (Inl e, m')
      | (Inr g, m') \<Rightarrow> (f g, m'))"

text \<open>\<open>setupWithManager\<close> of the two watchers.\<close>

definition id_setupWithManager :: "'g setup_env \<Rightarrow> 'g \<Rightarrow> (string, unit) result" where
  "id_setupWithManager env g =
     (case index_field env g of
        Inl e \<Rightarrow> Inl e
      | Inr _ \<Rightarrow>
          (case get_informer env g ''CiliumIdentity'' of
             Inl e \<Rightarrow> Inl e
           | Inr _ \<Rightarrow> add_handler env g ''CiliumIdentity''))"

definition cert_setupWithManager :: "'g setup_env \<Rightarrow> 'g \<Rightarrow> (string, unit) result" where
  "cert_setupWithManager env g =
     (case get_informer env g ''Secret'' of Inl e \<Rightarrow> Inl e | Inr _ \<Rightarrow> add_handler env g ''Secret'')"

definition cert_Setup :: "'g setup_env \<Rightarrow> 'g option \<Rightarrow> (string, unit) result \<times> 'g option" where
  "cert_Setup env = with_manager env (cert_setupWithManager env)"

definition ciliumid_Setup :: "'g setup_env \<Rightarrow> 'g option \<Rightarrow> (string, unit) result \<times> 'g option" where
  "ciliumid_Setup env = with_manager env (id_setupWithManager env)"

definition networkfence_Setup :: "'g setup_env \<Rightarrow> 'g option \<Rightarrow> (string, unit) result \<times> 'g option" where
  "networkfence_Setup env = with_manager env (\<lambda>g. get_informer env g ''NetworkFence'')"

definition mock_Setup :: "'g option \<Rightarrow> (string, unit) result \<times> 'g option" where
  "mock_Setup m = (Inr (), m)"

definition bpf_Setup :: "'g setup_env \<Rightarrow> (string, unit) result" where
  "bpf_Setup env = bpf_open (cilium_client env)"

text \<open>The node name that the collectors of the node scope label their metrics with.\<close>

definition cpupinning_Setup :: "string \<Rightarrow> (string, string) result" where
  "cpupinning_Setup node =
     (if node = '''' then Inl ''NODE_NAME environment variable is not set'' else Inr node)"

definition nicirq_Setup :: "string \<Rightarrow> (string, string) result" where
  "nicirq_Setup node =
     (if node = '''' then Inl ''NODE_NAME environment variable is not set'' else Inr node)"

definition drop_value :: "('e, 'a) result \<Rightarrow> ('e, unit) result" where
  "drop_value r = (case r of Inl e \<Rightarrow> Inl e | Inr _ \<Rightarrow> Inr ())"

text \<open>The method \<open>Setup\<close> of a registered collector.\<close>

definition Setup :: "'g setup_env \<Rightarrow> collector \<Rightarrow> 'g option \<Rightarrow> (string, unit) result \<times> 'g option" where
  "Setup env c m =
     (if c = cert_collector then cert_Setup env m
      else if c = ciliumid_collector then ciliumid_Setup env m
      else if c = networkfence_collector then networkfence_Setup env m
      else if c = bpf_collector then (bpf_Setup env, m)
      else if c = cpupinning_collector then (drop_value (cpupinning_Setup (node_env env)), m)
      else if c = kubelet_collector then (drop_value (kubelet_Setup (kubelet env) (node_env env)), m)
      else if c = nicirq_collector then (drop_value (nicirq_Setup (node_env env)), m)
      else mock_Setup m)"

text \<open>The loop of \<open>runMain\<close> with the manager it may create.\<close>

fun activate ::
  "'g setup_env \<Rightarrow> collector list \<Rightarrow> string \<Rightarrow> string list \<Rightarrow> collector list \<Rightarrow> 'g option
     \<Rightarrow> (run_error, collector list) result \<times> 'g option" where
  "activate env candidates scope [] acc m = (Inr acc, m)"
| "activate env candidates scope (name # names) acc m =
     (case find (\<lambda>c. name = MetricsPrefix c) candidates of
        None \<Rightarrow> (Inl (UnknownCollector name), m)
      | Some c \<Rightarrow>
          if scope \<noteq> coll_scope c then (Inl (WrongScope name), m)
          else (case Setup env c m of
                  (Inl e, m') \<Rightarrow> (Inl (SetupFailed name e), m')
                | (Inr _, m') \<Rightarrow> activate env candidates scope names (acc @ [c]) m'))"

section \<open>The collection loop\<close>

text \<open>
  A round: the leadership, what each collector does (\<^term>\<open>None\<close> is a panic of \<open>Collect\<close>) and how long it takes, the
  order in which the concurrent collectors take effect, and whether the context is done when the round ends.
\<close>

record run_round =
  leading :: bool
  outcome :: "nat \<Rightarrow> (string, Metric list) result option"
  took :: "nat \<Rightarrow> rat"
  sched :: "nat list"
  ended :: bool

definition round_of :: "run_round \<Rightarrow> round_env" where
  "round_of r = \<lparr>isLeader = leading r, collect = (\<lambda>i. the (outcome r i)), elapsed = took r\<rparr>"

text \<open>A panic in the goroutine of a collector that runs ends the program, as does a name that needs escaping.\<close>

fun ex_loop :: "string \<Rightarrow> collector list \<Rightarrow> run_round list \<Rightarrow> ex_state \<Rightarrow> (bool \<times> ex_state) process" where
  "ex_loop scope cs [] st = Running (False, st)"
| "ex_loop scope cs (r # rounds) st =
     (if list_ex (\<lambda>i. active (round_of r) (cs ! i) \<and> outcome r i = None) (sched r)
      then Panicked ''nil pointer dereference''
      else (case ex_round scope cs (round_of r) (sched r) st of
              None \<Rightarrow> Panicked ''invalid metric name''
            | Some st' \<Rightarrow> if ended r then Running (True, st') else ex_loop scope cs rounds st'))"

text \<open>\<open>Run\<close> on a list of rounds; the flag tells whether the loop has returned.\<close>

definition ex_Run ::
  "int \<Rightarrow> string \<Rightarrow> collector list \<Rightarrow> run_round list \<Rightarrow> (bool \<times> ex_state) process" where
  "ex_Run interval scope cs rounds = NewTicker interval (ex_loop scope cs rounds ex_start)"

section \<open>Stopping\<close>

text \<open>An error, and whether \<open>errors.Is\<close> finds \<open>context.Canceled\<close> or \<open>context.DeadlineExceeded\<close> in it.\<close>

record go_error =
  err_text :: string
  err_context :: bool

definition wrap_error :: "string \<Rightarrow> go_error \<Rightarrow> go_error" where
  "wrap_error what e = e\<lparr>err_text := what @ '': '' @ err_text e\<rparr>"

definition Canceled :: go_error where
  "Canceled = \<lparr>err_text = ''context canceled'', err_context = True\<rparr>"

datatype server_return = ServerOk | ErrServerClosed | ServerFailed go_error

text \<open>The events that end the context of \<open>Start\<close>: a goroutine has returned, or a signal arrived.\<close>

datatype stop_cause =
    ManagerStopped "go_error option"
  | RunStopped "go_error option"
  | ServerStopped server_return
  | Signalled

fun cause_of :: "stop_cause \<Rightarrow> go_error" where
  "cause_of (ManagerStopped (Some e)) = wrap_error ''failed to start manager'' e"
| "cause_of (ManagerStopped None) = Canceled"
| "cause_of (RunStopped (Some e)) = wrap_error ''failed to scrape metrics'' e"
| "cause_of (RunStopped None) = Canceled"
| "cause_of (ServerStopped (ServerFailed e)) = wrap_error ''metrics server stopped'' e"
| "cause_of (ServerStopped ServerOk) = Canceled"
| "cause_of (ServerStopped ErrServerClosed) = Canceled"
| "cause_of Signalled = Canceled"

text \<open>\<open>cancelCause\<close> sets the cause only once.\<close>

fun cancel_all :: "stop_cause list \<Rightarrow> go_error option \<Rightarrow> go_error option" where
  "cancel_all [] cause = cause"
| "cancel_all (e # es) cause = cancel_all es (case cause of None \<Rightarrow> Some (cause_of e) | Some c \<Rightarrow> Some c)"

definition not_context :: "go_error option \<Rightarrow> go_error option" where
  "not_context e = (case e of Some x \<Rightarrow> if err_context x then None else Some x | None \<Rightarrow> None)"

text \<open>\<open>Start\<close> returns once the context has a cause; the deferred shutdown of the server may replace the result.\<close>

definition ex_Start :: "stop_cause list \<Rightarrow> go_error option \<Rightarrow> go_error option option" where
  "ex_Start events shutdown =
     (case cancel_all events None of
        None \<Rightarrow> None
      | Some cause \<Rightarrow>
          (let ret = not_context (Some cause); err = not_context shutdown
           in Some (case err of Some e \<Rightarrow> Some e | None \<Rightarrow> ret)))"

section \<open>Facts\<close>

lemma cancel_all_first: "cancel_all es (Some c) = Some c"
  by (induction es) simp_all

text \<open>The first goroutine that stops decides: its error is what \<open>Start\<close> returns, unless it belongs to the
  context or the server cannot be shut down.\<close>

lemma ex_Start_first:
  "ex_Start (e # es) shutdown =
     Some (case not_context shutdown of Some x \<Rightarrow> Some x | None \<Rightarrow> not_context (Some (cause_of e)))"
  by (simp add: ex_Start_def cancel_all_first Let_def)

lemma short_mset: "mset xs = mset ys \<Longrightarrow> length xs \<le> 1 \<Longrightarrow> ys = xs"
  by (cases xs) (auto simp: mset_single_iff mset_single_iff_right)

text \<open>The order in which the types are listed does not matter.\<close>

lemma GetLongProgramName_order:
  assumes "mset ts = mset ts'"
  shows "GetLongProgramName (Some i) (\<lambda>_. Inr (Inr ts)) = GetLongProgramName (Some i) (\<lambda>_. Inr (Inr ts'))"
proof -
  have m: "mset (filter is_func ts) = mset (filter is_func ts')" using assms by simp
  show ?thesis
  proof (cases "\<exists>n. filter is_func ts = [BtfFunc n] \<or> filter is_func ts = []")
    case True
    then have "filter is_func ts' = filter is_func ts" using short_mset [OF m] by auto
    then show ?thesis by (simp add: GetLongProgramName_def)
  next
    case False
    have "length (filter is_func ts') = length (filter is_func ts)" using m by (metis size_mset)
    moreover have "\<forall>t \<in> set (filter is_func xs). \<exists>n. t = BtfFunc n" for xs
      by (auto simp: is_func_def split: btf_type.splits)
    moreover have "length (filter is_func ts) \<ge> 2" using False \<open>\<forall>t \<in> set (filter is_func ts). \<exists>n. t = BtfFunc n\<close>
      by (cases "filter is_func ts" rule: remdups_adj.cases) auto
    ultimately obtain a b r a' b' r' where "filter is_func ts = a # b # r" "filter is_func ts' = a' # b' # r'"
      by (metis Suc_le_length_iff numeral_2_eq_2)
    then show ?thesis by (cases a; cases a') (simp_all add: GetLongProgramName_def)
  qed
qed

section \<open>Properties\<close>

lemma activate_result:
  "activate env candidates scope names acc m = (Inr cs, m') \<Longrightarrow>
     \<exists>ds. cs = acc @ ds \<and> map MetricsPrefix ds = names \<and> list_all (\<lambda>c. c \<in> set candidates \<and> coll_scope c = scope) ds"
proof (induction names arbitrary: acc m)
  case Nil
  then show ?case by simp
next
  case (Cons name names)
  then obtain c where c: "find (\<lambda>c. name = MetricsPrefix c) candidates = Some c" and sc: "coll_scope c = scope"
    by (auto split: option.splits if_splits)
  obtain m1 where "activate env candidates scope names (acc @ [c]) m1 = (Inr cs, m')"
    using Cons.prems c sc by (auto split: prod.splits sum.splits)
  from Cons.IH [OF this] obtain ds where "cs = acc @ c # ds" "map MetricsPrefix ds = names"
    "list_all (\<lambda>c. c \<in> set candidates \<and> coll_scope c = scope) ds" by auto
  moreover have "c \<in> set candidates" "MetricsPrefix c = name" using c by (auto simp: find_Some_iff)
  ultimately show ?case using sc by (intro exI [of _ "c # ds"]) simp
qed

lemma registered_plain: "c \<in> set registered \<Longrightarrow> plain_text (MetricsPrefix c)"
  by (auto simp: registered_defs plain_text_def needs_escape_def)

text \<open>A round in which every collector that runs works on a well-formed input.\<close>

definition round_ok :: "collector list \<Rightarrow> run_round \<Rightarrow> bool" where
  "round_ok cs r \<longleftrightarrow> (\<forall>i \<in> set (sched r). leading r \<or> \<not> IsLeaderMetrics (cs ! i) \<longrightarrow> collector_run (outcome r i))"

lemma round_ok_run:
  assumes "round_ok cs r" and "i \<in> set (sched r)" and "active (round_of r) (cs ! i)"
  shows "collector_run (Some (collect (round_of r) i))" and "outcome r i \<noteq> None"
proof -
  have c: "collector_run (outcome r i)" using assms by (auto simp: round_ok_def active_def round_of_def)
  show o: "outcome r i \<noteq> None" by (rule collector_run_returns [OF c])
  show "collector_run (Some (collect (round_of r) i))" using c o by (simp add: round_of_def)
qed

lemma ex_loop_completes:
  assumes "list_all (\<lambda>c. plain_text (MetricsPrefix c)) cs" and "list_all (round_ok cs) rounds"
  shows "\<exists>st'. ex_loop scope cs rounds st = Running (list_ex ended rounds, st')"
  using assms(2)
proof (induction rounds arbitrary: st)
  case Nil
  then show ?case by simp
next
  case (Cons r rounds)
  have ok: "round_ok cs r" using Cons.prems by simp
  obtain st1 where "ex_round scope cs (round_of r) (sched r) st = Some st1"
    using ex_round_completes [OF round_ok_run(1) [OF ok] assms(1)] by blast
  moreover have "\<not> list_ex (\<lambda>i. active (round_of r) (cs ! i) \<and> outcome r i = None) (sched r)"
    using round_ok_run(2) [OF ok] by (auto simp: list_ex_iff)
  ultimately show ?case using Cons by simp
qed

lemma set_up_plain:
  assumes "activate env registered scope names [] m = (Inr cs, m')"
  shows "list_all (\<lambda>c. plain_text (MetricsPrefix c)) cs"
  using activate_result [OF assms] registered_plain by (auto simp: list_all_iff)

text \<open>
  C25. The exporter as a program: when the set-up succeeds, the active collectors are exactly the requested ones, in
  their order and all of the requested scope; and with a positive interval the collection loop does not panic: over any
  number of rounds, whatever collectors fail, hold the leadership or are scheduled first, it completes every round and
  returns at the first round that ends with the context done. The collectors that run must work on well-formed
  inputs: names and label values without backslash, quote and newline and, for the BPF collector, endpoints that have
  a status with networking and identifiers. An interval that is not positive always panics.
\<close>

theorem exporter_runs:
  assumes "activate env registered scope names [] m = (Inr cs, m')" and "list_all (round_ok cs) rounds"
  shows "map MetricsPrefix cs = names \<and> list_all (\<lambda>c. coll_scope c = scope) cs
    \<and> (0 < interval \<longrightarrow> (\<exists>st. ex_Run interval scope cs rounds = Running (list_ex ended rounds, st)))
    \<and> (interval \<le> 0 \<longrightarrow> ex_Run interval scope cs rounds = Panicked ''non-positive interval for NewTicker'')"
proof -
  from activate_result [OF assms(1)] have cs: "map MetricsPrefix cs = names"
    "list_all (\<lambda>c. coll_scope c = scope) cs" by (auto simp: list_all_iff)
  from ex_loop_completes [OF set_up_plain [OF assms(1)] assms(2), of scope ex_start] cs
  show ?thesis by (auto simp: ex_Run_def NewTicker_def)
qed

definition demo_setup :: "unit setup_env" where
  "demo_setup = \<lparr>add_scheme = Inr (), new_manager = Inr (), index_field = (\<lambda>_. Inr ()), get_informer = (\<lambda>_ _. Inr ()),
     add_handler = (\<lambda>_ _. Inr ()), cilium_client = Inr (), node_env = ''node1'',
     kubelet = \<lparr>ReadFile = (\<lambda>_. Inl ''none''), Unmarshal = (\<lambda>_. Inl ''none''), ParseQuantity = (\<lambda>_. Inl ''none''), quoted = id\<rparr>\<rparr>"

text \<open>A node with one BPF program on the interface of an endpoint.\<close>

definition demo_bpf :: bpf_input where
  "demo_bpf = \<lparr>stats_flag = Inr ''1'', tcx_links = [Inr (5, Some (7, TCXIngress))],
     endpoints_first = Inr [Some \<lparr>Networking = Some 7,
       ExternalIdentifiers = Some \<lparr>ep_namespace = ''ns'', ep_pod = ''web'', ep_container = ''c''\<rparr>\<rparr>],
     reopen = Inr (), endpoints_retry = Inl ''none'',
     programs = [(5, ProgOpen (Inr \<lparr>run_count = 3, run_seconds = 1\<rparr>)
       (Inr \<lparr>info_type = ''SchedCLS'', info_name = ''cil'', btf_id = None, btf_spec = (\<lambda>_. Inl ''none'')\<rparr>), False)],
     program_end = Inr ()\<rparr>"

definition demo_rounds :: "run_round list" where
  "demo_rounds = [\<lparr>leading = False, outcome = (\<lambda>_. bpf_Collect demo_bpf), took = (\<lambda>_. 1), sched = [0], ended = False\<rparr>,
     \<lparr>leading = False, outcome = (\<lambda>_. Some (Inl ''lost'')), took = (\<lambda>_. 1), sched = [0], ended = True\<rparr>]"

theorem exporter_runs_witness:
  "\<exists>cs st. fst (activate demo_setup registered ScopeNode [''bpf''] [] None) = Inr cs
     \<and> map MetricsPrefix cs = [''bpf''] \<and> ex_Run 1 ScopeNode cs demo_rounds = Running (True, st)"
proof -
  obtain cs m' where a: "activate demo_setup registered ScopeNode [''bpf''] [] None = (Inr cs, m')"
    by (simp add: registered_defs Setup_def bpf_Setup_def bpf_open_def demo_setup_def ScopeNode_def ScopeCluster_def)
  have "bpf_ok demo_bpf"
    by (simp add: bpf_ok_def demo_bpf_def prog_ok_def info_ok_def GetLongProgramName_def ep_ok_def interface_index_def identifiers_def)
  then have "list_all (round_ok cs) demo_rounds"
    by (auto simp: demo_rounds_def round_ok_def intro: collector_run.intros)
  from exporter_runs [OF a this, of 1] a show ?thesis by (auto simp: demo_rounds_def)
qed

section \<open>The program\<close>

record exporter_options =
  opt_Scope :: string
  opt_Port :: int
  CollectorNames :: "string list"
  opt_Interval :: int
  ControllerMetricsPort :: int
  ControllerProbePort :: int
  LeaderElectionNamespace :: string

text \<open>The values of the flags that are not given.\<close>

definition default_options :: exporter_options where
  "default_options = \<lparr>opt_Scope = ScopeCluster, opt_Port = 8080, CollectorNames = [''bpf''], opt_Interval = 30 * 1000000000,
     ControllerMetricsPort = 8081, ControllerProbePort = 8082, LeaderElectionNamespace = ''neco-exporter''\<rparr>"

record exporter =
  e_scope :: string
  e_port :: int
  e_collectors :: "collector list"
  e_interval :: int

definition NewExporter :: "string \<Rightarrow> int \<Rightarrow> collector list \<Rightarrow> int \<Rightarrow> exporter" where
  "NewExporter scope port collectors interval =
     \<lparr>e_scope = scope, e_port = port, e_collectors = collectors, e_interval = interval\<rparr>"

definition IsUsed :: "'g option \<Rightarrow> bool" where
  "IsUsed m \<longleftrightarrow> m \<noteq> None"

text \<open>\<open>runMain\<close> up to the start: the exporter and the manager that \<open>Start\<close> finds.\<close>

definition exporter_runMain ::
  "'g setup_env \<Rightarrow> exporter_options \<Rightarrow> (run_error, exporter \<times> 'g option) result" where
  "exporter_runMain env opts =
     (case activate env registered (opt_Scope opts) (CollectorNames opts) [] None of
        (Inl e, _) \<Rightarrow> Inl e
      | (Inr cs, m) \<Rightarrow> Inr (NewExporter (opt_Scope opts) (opt_Port opts) cs (opt_Interval opts), m))"

text \<open>\<open>main\<close>: the rounds that the collection loop goes through and what stops the program.\<close>

definition exporter_main ::
  "'g setup_env \<Rightarrow> exporter_options \<Rightarrow> run_round list \<Rightarrow> stop_cause list \<Rightarrow> go_error option \<Rightarrow> ex_state process" where
  "exporter_main env opts rounds stops shutdown =
     (case exporter_runMain env opts of
        Inl e \<Rightarrow> Exited 1
      | Inr (e, m) \<Rightarrow>
          (case ex_Run (e_interval e) (e_scope e) (e_collectors e) rounds of
             Panicked why \<Rightarrow> Panicked why
           | Exited n \<Rightarrow> Exited n
           | Running (_, st) \<Rightarrow>
               (case ex_Start stops shutdown of
                  None \<Rightarrow> Running st
                | Some None \<Rightarrow> Exited 0
                | Some (Some err) \<Rightarrow> Exited 1)))"

text \<open>The default of the flag \<open>collectors\<close> is a collector of the node, which the default of the flag \<open>scope\<close> does
  not allow. So the defaults alone never start.\<close>

lemma default_options_refused: "exporter_runMain env default_options = Inl (WrongScope ''bpf'')"
  by (simp add: exporter_runMain_def default_options_def registered_defs ScopeCluster_def ScopeNode_def)

text \<open>A program that is set up and ticks does not panic.\<close>

lemma exporter_main_no_panic:
  assumes "exporter_main env opts rounds stops shutdown = Panicked why" and "0 < opt_Interval opts"
    and "\<And>cs. list_all (round_ok cs) rounds"
  shows False
proof -
  obtain cs m where a: "activate env registered (opt_Scope opts) (CollectorNames opts) [] None = (Inr cs, m)"
      and r: "ex_loop (opt_Scope opts) cs rounds ex_start = Panicked why"
    using assms(1,2)
    by (auto simp: exporter_main_def exporter_runMain_def NewExporter_def NewTicker_def ex_Run_def
        split: sum.splits prod.splits option.splits process.splits)
  from ex_loop_completes [OF set_up_plain [OF a] assms(3), of "opt_Scope opts" ex_start] r show False by simp
qed

end
