(* ===== verification/Admission.thy ===== *)
theory Admission
  imports Prelude
begin

text \<open>
  The admission webhooks of \<open>admission/hooks\<close> for pods, deployments, dashboards and deletions, and
  the table under which \<open>admission/cmd/run.go\<close> serves them. (The webhooks for \<open>HTTPProxy\<close> are in
  theory \<open>Admission_Proxy\<close>.)

  A hook is a function from an admission request to a response. The decoder, the Kubernetes
  client, the REST mapper and the arithmetic of resource quantities belong to libraries and are
  arguments; the response constructors of the library stay symbolic, so a response records which
  of them the hook called and with which arguments.
\<close>

section \<open>Requests and responses\<close>

datatype operation = Create | Update | Delete_op | Connect

record request =
  Operation :: operation
  Username :: string
  req_Namespace :: string
  req_Name :: string
  Object_Raw :: string
  OldObject :: string

text \<open>
  \<open>Allowed\<close> carries the warnings attached with \<open>WithWarnings\<close>; \<open>PatchFromRaw\<close> is
  \<open>admission.PatchResponseFromRaw(original, current)\<close>, which admits the object with the difference
  of the two documents as its patch. \<open>Panicked\<close> is a failed type assertion.
\<close>

datatype response =
    Allowed string "string list"
  | Denied string
  | Errored nat string
  | PatchFromRaw string string
  | Panicked

fun is_allowed :: "response \<Rightarrow> bool" where
  "is_allowed (Allowed _ _) \<longleftrightarrow> True"
| "is_allowed (PatchFromRaw _ _) \<longleftrightarrow> True"
| "is_allowed _ \<longleftrightarrow> False"

fun is_patch :: "response \<Rightarrow> bool" where
  "is_patch (PatchFromRaw _ _) \<longleftrightarrow> True"
| "is_patch _ \<longleftrightarrow> False"

abbreviation ok :: response where
  "ok \<equiv> Allowed ''ok'' []"

definition StatusBadRequest :: nat where "StatusBadRequest = 400"
definition StatusInternalServerError :: nat where "StatusInternalServerError = 500"

definition annotatePrefix :: string where "annotatePrefix = ''admission.cybozu.com/''"
definition annPreventKey :: string where "annPreventKey = annotatePrefix @ ''prevent''"
definition annPreventValueDelete :: string where "annPreventValueDelete = ''delete''"

text \<open>The metadata that the hooks read of an object they decode without a schema.\<close>

record object_meta =
  obj_kind :: string
  obj_name :: string
  obj_namespace :: string
  obj_annotations :: "string \<rightharpoonup> string"

section \<open>Protection from deletion\<close>

definition topolvm_user :: string where
  "topolvm_user = ''system:serviceaccount:topolvm-system:topolvm-controller''"

definition preventDelete_Handle ::
  "(string \<Rightarrow> (string, object_meta) result) \<Rightarrow> request \<Rightarrow> response" where
  "preventDelete_Handle decodeRaw req =
     (case decodeRaw (OldObject req) of
        Inl e \<Rightarrow> Errored StatusBadRequest e
      | Inr obj \<Rightarrow>
          if obj_kind obj = ''PersistentVolumeClaim'' \<and> Username req = topolvm_user
          then Allowed ''topolvm-controller service account is allowed to delete PVCs'' []
          else if get_str (obj_annotations obj) annPreventKey = annPreventValueDelete
          then Denied (obj_name obj @ '' is protected from deletion'')
          else ok)"

definition annotationForDelete :: string where
  "annotationForDelete = annotatePrefix @ ''i-am-sure-to-delete''"

definition labelDevelopment :: string where
  "labelDevelopment = ''development''"

definition accurate_user :: string where
  "accurate_user = ''system:serviceaccount:accurate:accurate-controller-manager''"

definition delete_Handle ::
  "(string \<Rightarrow> (string, object_meta) result) \<Rightarrow> (string \<Rightarrow> (string, string \<rightharpoonup> string) result)
     \<Rightarrow> request \<Rightarrow> response" where
  "delete_Handle decodeRaw get_namespace_labels req =
     (if Username req = accurate_user then Allowed ''accurate service account is allowed'' []
      else (case decodeRaw (OldObject req) of
              Inl e \<Rightarrow> Errored StatusBadRequest e
            | Inr obj \<Rightarrow>
                if obj_annotations obj annotationForDelete = Some (obj_name obj)
                then Allowed ''confirmed valid annotation'' []
                else
                  let deny = Denied (''add '' @ [CHR 0x22] @ annotatePrefix @ ''i-am-sure-to-delete: '' @ obj_name obj
                                       @ [CHR 0x22] @ '' annotation to delete this'')
                  in if obj_namespace obj = '''' then deny
                     else (case get_namespace_labels (obj_namespace obj) of
                             Inl e \<Rightarrow> Errored StatusInternalServerError e
                           | Inr labels \<Rightarrow>
                               if labels labelDevelopment = Some ''true''
                               then Allowed ''ignore in dev namespaces'' [] else deny)))"

section \<open>Namespace deletion\<close>

record protected_resource =
  Group :: string
  Version :: string
  Resource :: string

text \<open>\<open>KindFor\<close> of the REST mapper fails with a no-match error or with another one.\<close>

datatype mapper_err = NoMatch | MapperErr string

record 'k namespace_env =
  decode_namespace :: "string \<Rightarrow> (string, string) result"
  KindFor :: "protected_resource \<Rightarrow> (mapper_err, 'k) result"
  list_kind :: "'k \<Rightarrow> string \<Rightarrow> (string, object_meta list) result"
  review_list :: "protected_resource \<Rightarrow> (string, bool) result"
  gvr_String :: "protected_resource \<Rightarrow> string"

definition gvr_text :: "protected_resource \<Rightarrow> string" where
  "gvr_text r = Group r @ ''/'' @ Version r @ ''/'' @ Resource r"

definition is_protected :: "object_meta \<Rightarrow> bool" where
  "is_protected o1 \<longleftrightarrow> get_str (obj_annotations o1) annPreventKey = annPreventValueDelete"

fun protected_loop ::
  "('k, 'm) namespace_env_scheme \<Rightarrow> string \<Rightarrow> protected_resource list \<Rightarrow> response" where
  "protected_loop env ns [] = ok"
| "protected_loop env ns (r # rs) =
     (case KindFor env r of
        Inl NoMatch \<Rightarrow> protected_loop env ns rs
      | Inl (MapperErr e) \<Rightarrow>
          Errored StatusInternalServerError (''failed to resolve resource '' @ gvr_text r @ '': '' @ e)
      | Inr k \<Rightarrow>
          (case list_kind env k ns of
             Inl e \<Rightarrow> Errored StatusInternalServerError e
           | Inr items \<Rightarrow>
               (case find is_protected items of
                  Some item \<Rightarrow>
                    Denied (Resource r @ '' '' @ ns @ ''/'' @ obj_name item @ '' is protected from deletion'')
                | None \<Rightarrow> protected_loop env ns rs)))"

definition namespaceDeletion_Handle ::
  "('k, 'm) namespace_env_scheme \<Rightarrow> protected_resource list \<Rightarrow> request \<Rightarrow> response" where
  "namespaceDeletion_Handle env resources req =
     (case decode_namespace env (OldObject req) of
        Inl e \<Rightarrow> Errored StatusBadRequest e
      | Inr ns \<Rightarrow> protected_loop env ns resources)"

text \<open>The check of the configuration when the hook is created; a nil configuration is \<^term>\<open>None\<close>.\<close>

fun validate_loop ::
  "('k, 'm) namespace_env_scheme \<Rightarrow> protected_resource list \<Rightarrow> (string, unit) result" where
  "validate_loop env [] = Inr ()"
| "validate_loop env (r # rs) =
     (case KindFor env r of
        Inl NoMatch \<Rightarrow> validate_loop env rs
      | Inl (MapperErr e) \<Rightarrow> Inl (''failed to resolve resource '' @ gvr_String env r @ '': '' @ e)
      | Inr k \<Rightarrow>
          (case review_list env r of
             Inl e \<Rightarrow> Inl (''failed to create SelfSubjectAccessReview for resource '' @ gvr_String env r @ '': '' @ e)
           | Inr allowed \<Rightarrow>
               if \<not> allowed then Inl (''list permission is not allowed for resource '' @ gvr_String env r)
               else validate_loop env rs))"

definition namespaceDeletion_validate ::
  "('k, 'm) namespace_env_scheme \<Rightarrow> protected_resource list option \<Rightarrow> (string, unit) result" where
  "namespaceDeletion_validate env config =
     (case config of
        None \<Rightarrow> Inl ''config must not be nil''
      | Some resources \<Rightarrow> validate_loop env resources)"

section \<open>Deployments and dashboards\<close>

record deployment =
  dep_annotations :: "string \<rightharpoonup> string"
  Replicas :: "int option"

record scale =
  scale_Namespace :: string
  scale_Name :: string
  scale_Replicas :: int

definition annotationForForceReplicaCount :: string where
  "annotationForForceReplicaCount = annotatePrefix @ ''force-replica-count''"

definition isForceReplicaCountTargetDeployment :: "deployment \<Rightarrow> bool" where
  "isForceReplicaCountTargetDeployment d \<longleftrightarrow>
     dep_annotations d annotationForForceReplicaCount = Some ''0''"

definition replicaCount_Handle :: "(request \<Rightarrow> (string, deployment) result) \<Rightarrow> request \<Rightarrow> response" where
  "replicaCount_Handle decode req =
     (case decode req of
        Inl e \<Rightarrow> Errored StatusBadRequest e
      | Inr d \<Rightarrow>
          if \<not> isForceReplicaCountTargetDeployment d then Allowed ''not a target'' []
          else (case Replicas d of
                  None \<Rightarrow> Denied ''replicas cannot be nil''
                | Some n \<Rightarrow> if n \<noteq> 0 then Denied ''replicas must be 0'' else ok))"

definition replicaCountScale_Handle ::
  "(request \<Rightarrow> (string, scale) result) \<Rightarrow> (string \<Rightarrow> string \<Rightarrow> (string, deployment) result)
     \<Rightarrow> request \<Rightarrow> response" where
  "replicaCountScale_Handle decode get_deployment req =
     (case decode req of
        Inl e \<Rightarrow> Errored StatusBadRequest e
      | Inr s \<Rightarrow>
          (case get_deployment (scale_Namespace s) (scale_Name s) of
             Inl e \<Rightarrow> Errored StatusInternalServerError e
           | Inr d \<Rightarrow>
               if \<not> isForceReplicaCountTargetDeployment d then Allowed ''not a target'' []
               else if scale_Replicas s \<noteq> 0 then Denied ''replicas must be 0'' else ok))"

text \<open>
  The decoder yields the outcome of \<open>unstructured.NestedSlice(content, "spec", "plugins")\<close> on the
  dashboard: an error when the field is no slice, otherwise the slice (empty when it is missing).
\<close>

definition grafanaDashboard_Handle ::
  "(request \<Rightarrow> (string, 'd) result) \<Rightarrow> ('d \<Rightarrow> (string, 'p list) result) \<Rightarrow> request \<Rightarrow> response" where
  "grafanaDashboard_Handle decode spec_plugins req =
     (case decode req of
        Inl e \<Rightarrow> Errored StatusBadRequest e
      | Inr gd \<Rightarrow>
          (case spec_plugins gd of
             Inl e \<Rightarrow> Errored StatusBadRequest (''unable to get spec.plugins; '' @ e)
           | Inr plugins \<Rightarrow>
               if 0 < length plugins then Denied ''spec.plugins must be empty'' else ok))"

section \<open>Pods\<close>

text \<open>
  A container with its image and its resource lists, which may be nil, and a pod with the fields
  the hooks read or write; \<open>pod_rest\<close> stands for the others, which no hook touches.
\<close>

record 'q container =
  Image :: string
  Requests :: "(string \<rightharpoonup> 'q) option"
  Limits :: "(string \<rightharpoonup> 'q) option"

record ('q, 'x) pod =
  pod_labels :: "string \<rightharpoonup> string"
  OwnerKinds :: "string list"
  Containers :: "'q container list"
  InitContainers :: "'q container list"
  EphemeralImages :: "string list"
  pod_rest :: 'x

text \<open>The operations of package \<open>resource\<close>: \<open>MustParse\<close>, \<open>q.ToDec().MilliValue()\<close> and
  \<open>NewMilliQuantity(v, DecimalSI)\<close>.\<close>

record 'q quantity_api =
  MustParse :: "string \<Rightarrow> 'q"
  MilliValue :: "'q \<Rightarrow> int"
  NewMilliQuantity :: "int \<Rightarrow> 'q"

definition ResourceCPU :: string where "ResourceCPU = ''cpu''"
definition ResourceEphemeralStorage :: string where
  "ResourceEphemeralStorage = ''ephemeral-storage''"

definition ephemeralStorageRequest :: "'q quantity_api \<Rightarrow> 'q" where
  "ephemeralStorageRequest qa = MustParse qa ''10Mi''"

definition ephemeralStorageLimit :: "'q quantity_api \<Rightarrow> 'q" where
  "ephemeralStorageLimit qa = MustParse qa ''1Gi''"

text \<open>\<open>mutate_list\<close> is the step both loops take for one resource list of a container: a nil list
  becomes an empty one, and the entry for ephemeral storage is set unless it is present and the
  hook is permissive.\<close>

definition mutate_list :: "bool \<Rightarrow> 'q \<Rightarrow> (string \<rightharpoonup> 'q) option \<Rightarrow> (string \<rightharpoonup> 'q) option" where
  "mutate_list permissive v l =
     (let m = (case l of None \<Rightarrow> Map.empty | Some m \<Rightarrow> m)
      in if m ResourceEphemeralStorage = None \<or> \<not> permissive
         then Some (m(ResourceEphemeralStorage \<mapsto> v)) else Some m)"

definition mutate_container :: "'q quantity_api \<Rightarrow> bool \<Rightarrow> 'q container \<Rightarrow> 'q container" where
  "mutate_container qa permissive co =
     co\<lparr>Requests := mutate_list permissive (ephemeralStorageRequest qa) (Requests co),
        Limits := mutate_list permissive (ephemeralStorageLimit qa) (Limits co)\<rparr>"

definition podMutator_Handle ::
  "'q quantity_api \<Rightarrow> (request \<Rightarrow> (string, ('q, 'x) pod) result) \<Rightarrow> (('q, 'x) pod \<Rightarrow> (string, string) result)
     \<Rightarrow> bool \<Rightarrow> request \<Rightarrow> response" where
  "podMutator_Handle qa decode marshal permissive req =
     (case decode req of
        Inl e \<Rightarrow> Errored StatusBadRequest e
      | Inr po \<Rightarrow>
          (case marshal (po\<lparr>Containers := map (mutate_container qa permissive) (Containers po),
                            InitContainers := map (mutate_container qa permissive) (InitContainers po)\<rparr>) of
             Inl e \<Rightarrow> Errored StatusInternalServerError e
           | Inr marshaled \<Rightarrow> PatchFromRaw (Object_Raw req) marshaled))"

text \<open>The reducer logs what it decides; \<open>patchedValues\<close> is the argument list of its last message,
  with one entry per changed container.\<close>

datatype 'q reducer_log =
    LogAllowed string
  | LogPatched "(string \<times> 'q \<times> 'q) list"
  | LogError string

definition reducedRequest :: "'q quantity_api \<Rightarrow> 'q \<Rightarrow> 'q" where
  "reducedRequest qa q =
     (let v = MilliValue qa q
      in if v = 1 then NewMilliQuantity qa 1 else NewMilliQuantity qa (quot v 2))"

fun reduce_loop ::
  "'q quantity_api \<Rightarrow> string \<Rightarrow> nat \<Rightarrow> 'q container list \<Rightarrow> (string \<times> 'q \<times> 'q) list \<times> 'q container list" where
  "reduce_loop qa label i [] = ([], [])"
| "reduce_loop qa label i (co # cos) =
     (case reduce_loop qa label (Suc i) cos of (vs, cos') \<Rightarrow>
        (case Requests co of
           None \<Rightarrow> (vs, co # cos')
         | Some m \<Rightarrow>
             (case m ResourceCPU of
                None \<Rightarrow> (vs, co # cos')
              | Some q \<Rightarrow>
                  let reduced = reducedRequest qa q
                  in ((label @ show_nat i, q, reduced) # vs,
                      co\<lparr>Requests := Some (m(ResourceCPU \<mapsto> reduced))\<rparr> # cos'))))"

definition preventReduceLabel :: string where
  "preventReduceLabel = annotatePrefix @ ''prevent-cpu-request-reduce''"

definition reduce_pod ::
  "'q quantity_api \<Rightarrow> ('q, 'x) pod \<Rightarrow> (string \<times> 'q \<times> 'q) list \<times> ('q, 'x) pod" where
  "reduce_pod qa po =
     (case reduce_loop qa ''initContainer'' 0 (InitContainers po) of (vs1, ics) \<Rightarrow>
      case reduce_loop qa ''container'' 0 (Containers po) of (vs2, cs) \<Rightarrow>
        (vs1 @ vs2, po\<lparr>InitContainers := ics, Containers := cs\<rparr>))"

definition podCPURequestReducer_Handle ::
  "'q quantity_api \<Rightarrow> (request \<Rightarrow> (string, ('q, 'x) pod) result) \<Rightarrow> (('q, 'x) pod \<Rightarrow> (string, string) result)
     \<Rightarrow> bool \<Rightarrow> request \<Rightarrow> response \<times> 'q reducer_log list" where
  "podCPURequestReducer_Handle qa decode marshal enabled req =
     (if \<not> enabled then (ok, [])
      else (case decode req of
              Inl e \<Rightarrow> (Errored StatusBadRequest e, [LogError e])
            | Inr po \<Rightarrow>
                if ''DaemonSet'' \<in> set (OwnerKinds po) then (ok, [LogAllowed ''daemonset''])
                else if get_str (pod_labels po) preventReduceLabel = ''true'' then (ok, [LogAllowed ''labeled''])
                else (case reduce_pod qa po of (patchedValues, patchedPod) \<Rightarrow>
                        if length patchedValues = 0 then (ok, [LogAllowed ''no cpu request''])
                        else (case marshal patchedPod of
                                Inl e \<Rightarrow> (Errored StatusInternalServerError e, [LogError e])
                              | Inr marshaled \<Rightarrow>
                                  (PatchFromRaw (Object_Raw req) marshaled, [LogPatched patchedValues])))))"

definition pod_images :: "('q, 'x) pod \<Rightarrow> string list" where
  "pod_images po = map Image (Containers po) @ map Image (InitContainers po) @ EphemeralImages po"

definition not_trusted :: "string \<Rightarrow> string" where
  "not_trusted img = ''image '' @ img @ '' is not trusted''"

definition untrustworthy :: "string \<Rightarrow> string" where
  "untrustworthy img = ''untrustworthy image '' @ img"

fun image_loop :: "string list \<Rightarrow> bool \<Rightarrow> string list \<Rightarrow> string list \<Rightarrow> (response, string list) result" where
  "image_loop validPrefixes permissive [] warnings = Inr warnings"
| "image_loop validPrefixes permissive (img # images) warnings =
     (if list_ex (has_prefix img) validPrefixes then image_loop validPrefixes permissive images warnings
      else if permissive
      then image_loop validPrefixes permissive images (warnings @ [not_trusted img])
      else Inl (Denied (untrustworthy img)))"

definition podValidator_Handle ::
  "(request \<Rightarrow> (string, ('q, 'x) pod) result) \<Rightarrow> string list \<Rightarrow> bool \<Rightarrow> request \<Rightarrow> response" where
  "podValidator_Handle decode validPrefixes permissive req =
     (case decode req of
        Inl e \<Rightarrow> Errored StatusBadRequest e
      | Inr po \<Rightarrow>
          (case image_loop validPrefixes permissive (pod_images po) [] of
             Inl r \<Rightarrow> r
           | Inr warnings \<Rightarrow>
               if 0 < length warnings then Allowed ''warning'' warnings else ok))"

section \<open>Validating hooks\<close>

text \<open>
  The contract of a validating webhook: it answers every request without a patch and without a
  panic, and an error answer carries a status of the client or the server error range.
\<close>

fun verdict :: "response \<Rightarrow> bool" where
  "verdict (Allowed _ _) \<longleftrightarrow> True"
| "verdict (Denied _) \<longleftrightarrow> True"
| "verdict (Errored code _) \<longleftrightarrow> 400 \<le> code \<and> code < 600"
| "verdict _ \<longleftrightarrow> False"

locale validating_hook =
  fixes handle :: "request \<Rightarrow> response"
  assumes handle_verdict: "verdict (handle req)"
begin

lemma no_patch: "\<not> is_patch (handle req)"
  using handle_verdict [of req] by (cases "handle req") auto

lemma refused: "\<not> is_allowed (handle req) \<Longrightarrow>
    (\<exists>why. handle req = Denied why) \<or> (\<exists>code why. handle req = Errored code why \<and> 400 \<le> code)"
  using handle_verdict [of req] by (cases "handle req") auto

end

lemmas status_defs = StatusBadRequest_def StatusInternalServerError_def

interpretation vpreventdelete: validating_hook "preventDelete_Handle decodeRaw"
  by unfold_locales (simp add: preventDelete_Handle_def status_defs split: sum.split)

interpretation vdelete: validating_hook "delete_Handle decodeRaw get_labels"
  by unfold_locales (simp add: delete_Handle_def status_defs Let_def split: sum.split)

lemma protected_loop_verdict: "verdict (protected_loop env ns rs)"
  by (induction rs)
    (auto simp: status_defs split: sum.split mapper_err.split option.split)

interpretation vnamespacedeletion: validating_hook "namespaceDeletion_Handle env resources"
  by unfold_locales
    (simp add: namespaceDeletion_Handle_def protected_loop_verdict status_defs split: sum.split)

interpretation vdeploymentreplicacount: validating_hook "replicaCount_Handle decode"
  by unfold_locales
    (simp add: replicaCount_Handle_def status_defs split: sum.split option.split)

interpretation vscaledeploymentreplicacount: validating_hook "replicaCountScale_Handle decode get_dep"
  by unfold_locales
    (simp add: replicaCountScale_Handle_def status_defs split: sum.split)

interpretation vgrafanadashboard: validating_hook "grafanaDashboard_Handle decode spec_plugins"
  by unfold_locales
    (simp add: grafanaDashboard_Handle_def status_defs split: sum.split)

text \<open>The scan of the images: what it reports, and when it stops.\<close>

definition untrusted :: "string list \<Rightarrow> string list \<Rightarrow> string list" where
  "untrusted validPrefixes images = filter (\<lambda>img. \<not> list_ex (has_prefix img) validPrefixes) images"

lemma image_loop_result:
  "image_loop vp permissive images ws =
     (if permissive \<or> untrusted vp images = []
      then Inr (ws @ map not_trusted (untrusted vp images))
      else Inl (Denied (untrustworthy (hd (untrusted vp images)))))"
  by (induction images arbitrary: ws) (auto simp: untrusted_def)

lemma podValidator_result:
  "podValidator_Handle decode vp permissive req =
     (case decode req of
        Inl e \<Rightarrow> Errored 400 e
      | Inr po \<Rightarrow>
          let bad = untrusted vp (pod_images po)
          in if bad = [] then ok
             else if permissive then Allowed ''warning'' (map not_trusted bad)
             else Denied (untrustworthy (hd bad)))"
  by (simp add: podValidator_Handle_def image_loop_result status_defs Let_def split: sum.split)

interpretation vpod: validating_hook "podValidator_Handle decode vp permissive"
  by unfold_locales (simp add: podValidator_result Let_def split: sum.split)

section \<open>Properties\<close>

subsection \<open>Deleting a namespace\<close>

text \<open>What the scan of the protected resources finds in a namespace.\<close>

definition resource_clear :: "('k, 'm) namespace_env_scheme \<Rightarrow> string \<Rightarrow> protected_resource \<Rightarrow> bool" where
  "resource_clear env ns r \<longleftrightarrow>
     (case KindFor env r of
        Inl e \<Rightarrow> e = NoMatch
      | Inr k \<Rightarrow> (\<exists>items. list_kind env k ns = Inr items \<and> (\<forall>o1 \<in> set items. \<not> is_protected o1)))"

lemma protected_loop_step:
  "is_allowed (protected_loop env ns (r # rs)) \<longleftrightarrow>
     resource_clear env ns r \<and> is_allowed (protected_loop env ns rs)"
proof -
  have hit: "\<exists>x \<in> set items. is_protected x" if "find is_protected items = Some y" for items y
    using that by (metis find_None_iff option.distinct(1))
  show ?thesis
    by (auto simp: resource_clear_def find_None_iff dest: hit
       split: sum.split mapper_err.split option.split)
qed

lemma protected_loop_allowed:
  "is_allowed (protected_loop env ns rs) \<longleftrightarrow> (\<forall>r \<in> set rs. resource_clear env ns r)"
  by (induction rs) (simp_all only: protected_loop_step list.set ball_simps protected_loop.simps(1) is_allowed.simps)

lemma delete_allowed_cluster_scope:
  assumes "decodeRaw (OldObject req) = Inr obj" and "obj_namespace obj = ''''"
  shows "is_allowed (delete_Handle decodeRaw get_labels req)
           \<longleftrightarrow> Username req = accurate_user \<or> obj_annotations obj annotationForDelete = Some (obj_name obj)"
  using assms by (simp add: delete_Handle_def Let_def)

text \<open>
  C28. The two hooks that the API server consults before it deletes a namespace admit the deletion
  exactly when it is confirmed (the requester is the Accurate controller, or the namespace carries
  the confirmation annotation with its own name) and none of the configured resource kinds that
  the cluster knows has an object in the namespace that is marked as protected. In particular a
  failed lookup or a failed listing refuses the deletion.
\<close>

theorem namespace_delete_guarded:
  assumes "decodeRaw (OldObject req) = Inr obj" and "obj_namespace obj = ''''"
    and "decode_namespace env (OldObject req) = Inr (obj_name obj)"
  shows "is_allowed (delete_Handle decodeRaw get_labels req)
           \<and> is_allowed (namespaceDeletion_Handle env resources req)
         \<longleftrightarrow> (Username req = accurate_user \<or> obj_annotations obj annotationForDelete = Some (obj_name obj))
           \<and> (\<forall>r \<in> set resources. resource_clear env (obj_name obj) r)"
  unfolding delete_allowed_cluster_scope [of decodeRaw req obj, OF assms(1,2)]
  using assms(3) by (simp add: namespaceDeletion_Handle_def protected_loop_allowed)

text \<open>A namespace with the confirmation annotation whose only volume claim is protected.\<close>

definition demo_ns_req :: request where
  "demo_ns_req = \<lparr>Operation = Delete_op, Username = ''admin'', req_Namespace = '''', req_Name = ''dev'',
     Object_Raw = '''', OldObject = ''dev''\<rparr>"

definition demo_ns_obj :: object_meta where
  "demo_ns_obj = \<lparr>obj_kind = ''Namespace'', obj_name = ''dev'', obj_namespace = '''',
     obj_annotations = [annotationForDelete \<mapsto> ''dev'']\<rparr>"

definition demo_pvc :: object_meta where
  "demo_pvc = \<lparr>obj_kind = ''PersistentVolumeClaim'', obj_name = ''data'', obj_namespace = ''dev'',
     obj_annotations = [annPreventKey \<mapsto> annPreventValueDelete]\<rparr>"

definition demo_pvcs :: protected_resource where
  "demo_pvcs = \<lparr>Group = '''', Version = ''v1'', Resource = ''persistentvolumeclaims''\<rparr>"

definition demo_ns_env :: "object_meta list \<Rightarrow> unit namespace_env" where
  "demo_ns_env items = \<lparr>decode_namespace = Inr, KindFor = (\<lambda>r. Inr ()),
     list_kind = (\<lambda>k ns. Inr items), review_list = (\<lambda>r. Inr True), gvr_String = (\<lambda>r. Resource r)\<rparr>"

lemmas demo_ns_defs = demo_ns_req_def demo_ns_obj_def demo_pvc_def demo_pvcs_def demo_ns_env_def
  resource_clear_def is_protected_def get_str_def

theorem namespace_delete_guarded_witness:
  "\<not> is_allowed (namespaceDeletion_Handle (demo_ns_env [demo_pvc]) [demo_pvcs] demo_ns_req)
   \<and> is_allowed (namespaceDeletion_Handle (demo_ns_env []) [demo_pvcs] demo_ns_req)"
proof -
  have d: "(\<lambda>s. Inr demo_ns_obj) (OldObject demo_ns_req) = Inr demo_ns_obj"
    "obj_namespace demo_ns_obj = ''''" "obj_annotations demo_ns_obj annotationForDelete = Some (obj_name demo_ns_obj)"
    "decode_namespace (demo_ns_env items) (OldObject demo_ns_req) = Inr (obj_name demo_ns_obj)" for items
    by (simp_all add: demo_ns_defs)
  note g = namespace_delete_guarded [OF d(1,2,4), of "\<lambda>_. Inl ''''"]
  have "\<not> resource_clear (demo_ns_env [demo_pvc]) (obj_name demo_ns_obj) demo_pvcs"
    "resource_clear (demo_ns_env []) (obj_name demo_ns_obj) demo_pvcs"
    by (simp_all add: demo_ns_defs)
  with g [of "[demo_pvc]" "[demo_pvcs]"] g [of "[]" "[demo_pvcs]"] d(3)
  show ?thesis by (simp add: delete_allowed_cluster_scope [OF d(1,2)])
qed

subsection \<open>Reducing CPU requests\<close>

text \<open>The two laws of quantities that the reducer relies on.\<close>

definition quantity_ok :: "'q quantity_api \<Rightarrow> bool" where
  "quantity_ok qa \<longleftrightarrow>
     (\<forall>v. int64_range v \<longrightarrow> MilliValue qa (NewMilliQuantity qa v) = v) \<and>
     (\<forall>q. int64_range (MilliValue qa q))"

lemma quot_half: "0 \<le> v \<Longrightarrow> quot v 2 = v div 2"
  by (simp add: quot_def sgn_if)

lemma reducedRequest_milli:
  assumes "quantity_ok qa" and "0 \<le> MilliValue qa q"
  shows "MilliValue qa (reducedRequest qa q) = (if MilliValue qa q = 1 then 1 else MilliValue qa q div 2)"
proof -
  have "int64_range (MilliValue qa q)" using assms(1) by (simp add: quantity_ok_def)
  then have "int64_range (MilliValue qa q div 2)" "int64_range 1"
    using assms(2) by (auto simp: int64_range_def)
  then show ?thesis using assms by (simp add: quantity_ok_def reducedRequest_def Let_def quot_half)
qed

definition cpu_of :: "'q container \<Rightarrow> 'q option" where
  "cpu_of co = Option.bind (Requests co) (\<lambda>m. m ResourceCPU)"

definition reduced_container :: "'q quantity_api \<Rightarrow> 'q container \<Rightarrow> 'q container" where
  "reduced_container qa co =
     (case cpu_of co of
        None \<Rightarrow> co
      | Some q \<Rightarrow> co\<lparr>Requests := map_option (\<lambda>m. m(ResourceCPU \<mapsto> reducedRequest qa q)) (Requests co)\<rparr>)"

lemma reduce_loop_result:
  "snd (reduce_loop qa label i cos) = map (reduced_container qa) cos \<and>
   (fst (reduce_loop qa label i cos) = [] \<longleftrightarrow> (\<forall>co \<in> set cos. cpu_of co = None))"
proof (induction cos arbitrary: i)
  case (Cons co cos)
  from Cons.IH [of "Suc i"] show ?case
    by (auto simp: reduced_container_def cpu_of_def Let_def split: prod.split option.split)
qed simp

lemma reduce_pod_result:
  "snd (reduce_pod qa po) = po\<lparr>InitContainers := map (reduced_container qa) (InitContainers po),
                              Containers := map (reduced_container qa) (Containers po)\<rparr>"
  "fst (reduce_pod qa po) = [] \<longleftrightarrow>
     (\<forall>co \<in> set (InitContainers po @ Containers po). cpu_of co = None)"
  using reduce_loop_result [of qa "''initContainer''" 0 "InitContainers po"]
    reduce_loop_result [of qa "''container''" 0 "Containers po"]
  by (auto simp: reduce_pod_def split: prod.split)

text \<open>How one container of the answer relates to the container of the request: the CPU request is
  halved but never below one thousandth of a core, and everything else is as it was.\<close>

definition half_cpu :: "'q quantity_api \<Rightarrow> 'q container \<Rightarrow> 'q container \<Rightarrow> bool" where
  "half_cpu qa co co' \<longleftrightarrow>
     Image co' = Image co \<and> Limits co' = Limits co \<and>
     (Requests co' = None \<longleftrightarrow> Requests co = None) \<and>
     (\<forall>k. k \<noteq> ResourceCPU \<longrightarrow>
        Option.bind (Requests co') (\<lambda>m. m k) = Option.bind (Requests co) (\<lambda>m. m k)) \<and>
     (case cpu_of co of
        None \<Rightarrow> cpu_of co' = None
      | Some q \<Rightarrow> (\<exists>q'. cpu_of co' = Some q' \<and>
          (let v = MilliValue qa q; v' = MilliValue qa q'
           in 0 \<le> v' \<and> v' \<le> v \<and> (0 < v \<longrightarrow> 0 < v') \<and> (v \<noteq> 1 \<longrightarrow> 2 * v' \<le> v \<and> v \<le> 2 * v' + 1))))"

lemma reduced_half:
  assumes "quantity_ok qa" and "\<And>q. cpu_of co = Some q \<Longrightarrow> 0 \<le> MilliValue qa q"
  shows "half_cpu qa co (reduced_container qa co)"
proof (cases "cpu_of co")
  case None
  then show ?thesis by (simp add: half_cpu_def reduced_container_def)
next
  case (Some q)
  then obtain m where m: "Requests co = Some m" "m ResourceCPU = Some q"
    by (auto simp: cpu_of_def bind_eq_Some_conv)
  have v: "0 \<le> MilliValue qa q" using assms(2) Some by simp
  have r: "reduced_container qa co = co\<lparr>Requests := Some (m(ResourceCPU \<mapsto> reducedRequest qa q))\<rparr>"
    by (simp add: reduced_container_def Some m(1))
  have "0 < MilliValue qa q \<longrightarrow> MilliValue qa q \<noteq> 1 \<longrightarrow> 0 < MilliValue qa q div 2" by auto
  then show ?thesis
    using v by (auto simp: half_cpu_def r cpu_of_def m reducedRequest_milli [OF assms(1) v] Let_def)
qed

text \<open>
  C29. When the reducer changes a pod, the pod it marshals is the decoded one with the CPU request
  of each container and init container that has one replaced by half of it, rounded down, except
  that a request of one thousandth of a core stays: a positive request never becomes zero. No
  other resource, image, label or field changes, pods of a daemon set and labelled pods are never
  changed, and any other pod is left alone exactly when no container has a CPU request.
\<close>

theorem reducer_bounds:
  fixes marshal :: "('q, 'x) pod \<Rightarrow> (string, string) result"
  assumes "quantity_ok qa" and "decode req = Inr po"
    and "\<forall>co \<in> set (InitContainers po @ Containers po). \<forall>q. cpu_of co = Some q \<longrightarrow> 0 \<le> MilliValue qa q"
  defines "ans \<equiv> fst (podCPURequestReducer_Handle qa decode marshal True req)"
    and "exempt \<equiv> ''DaemonSet'' \<in> set (OwnerKinds po) \<or> pod_labels po preventReduceLabel = Some ''true''
           \<or> (\<forall>co \<in> set (InitContainers po @ Containers po). cpu_of co = None)"
  shows "if exempt then ans = ok
         else (\<exists>ics cs. list_all2 (half_cpu qa) (InitContainers po) ics \<and> list_all2 (half_cpu qa) (Containers po) cs
           \<and> ans = (case marshal (po\<lparr>InitContainers := ics, Containers := cs\<rparr>) of
                      Inl e \<Rightarrow> Errored 500 e | Inr m \<Rightarrow> PatchFromRaw (Object_Raw req) m))"
proof -
  obtain vs po' where r: "reduce_pod qa po = (vs, po')" by force
  note res = reduce_pod_result [of qa po, unfolded r fst_conv snd_conv]
  have lbl: "get_str (pod_labels po) preventReduceLabel = ''true'' \<longleftrightarrow>
      pod_labels po preventReduceLabel = Some ''true''"
    by (auto simp: get_str_def split: option.split)
  have half: "list_all2 (half_cpu qa) (InitContainers po) (map (reduced_container qa) (InitContainers po))"
    "list_all2 (half_cpu qa) (Containers po) (map (reduced_container qa) (Containers po))"
    using assms(1,3) by (auto simp: list_all2_map2 intro!: list.rel_refl_strong reduced_half)
  show ?thesis
  proof (cases exempt)
    case True
    then show ?thesis
      using assms(2) res(2) unfolding ans_def exempt_def
      by (auto simp: podCPURequestReducer_Handle_def r lbl)
  next
    case False
    then have "ans = (case marshal po' of Inl e \<Rightarrow> Errored 500 e | Inr m \<Rightarrow> PatchFromRaw (Object_Raw req) m)"
      using assms(2) res(2) unfolding ans_def exempt_def
      by (auto simp: podCPURequestReducer_Handle_def r lbl status_defs split: sum.split)
    with False half show ?thesis unfolding res(1) by auto
  qed
qed

text \<open>Quantities counted in thousandths, and a pod with CPU requests of 1 and 5 thousandths.\<close>

definition milli_api :: "int quantity_api" where
  "milli_api = \<lparr>MustParse = (\<lambda>s. 0), MilliValue = wrap64, NewMilliQuantity = (\<lambda>v. v)\<rparr>"

lemma milli_api_ok: "quantity_ok milli_api"
  by (simp add: quantity_ok_def milli_api_def wrap64_id wrap64_range)

definition cpu_container :: "int \<Rightarrow> int container" where
  "cpu_container v = \<lparr>Image = ''ubuntu'', Requests = Some [ResourceCPU \<mapsto> v], Limits = None\<rparr>"

definition demo_pod :: "(int, unit) pod" where
  "demo_pod = \<lparr>pod_labels = Map.empty, OwnerKinds = [''ReplicaSet''],
     Containers = [cpu_container 5], InitContainers = [cpu_container 1],
     EphemeralImages = [], pod_rest = ()\<rparr>"

lemma demo_pod_cpu:
  "cpu_of (cpu_container v) = Some v"
  "\<forall>co \<in> set (InitContainers demo_pod @ Containers demo_pod). \<forall>q. cpu_of co = Some q \<longrightarrow> 0 \<le> MilliValue milli_api q"
  by (auto simp: cpu_of_def cpu_container_def demo_pod_def milli_api_def wrap64_def)

theorem reducer_bounds_witness:
  "\<exists>ics cs. list_all2 (half_cpu milli_api) [cpu_container 1] ics
      \<and> list_all2 (half_cpu milli_api) [cpu_container 5] cs
      \<and> fst (podCPURequestReducer_Handle milli_api (\<lambda>_. Inr demo_pod) (\<lambda>po. Inr ''patched'') True demo_ns_req)
        = PatchFromRaw '''' ''patched''"
proof -
  note r = reducer_bounds [of milli_api "\<lambda>_. Inr demo_pod" demo_ns_req demo_pod "\<lambda>po. Inr ''patched''",
      OF milli_api_ok refl demo_pod_cpu(2)]
  have "\<not> (''DaemonSet'' \<in> set (OwnerKinds demo_pod)
      \<or> pod_labels demo_pod preventReduceLabel = Some ''true''
      \<or> (\<forall>co \<in> set (InitContainers demo_pod @ Containers demo_pod). cpu_of co = None))"
    by (simp add: demo_pod_def demo_pod_cpu(1))
  note r [unfolded if_not_P [OF this]]
  moreover have "InitContainers demo_pod = [cpu_container 1]" "Containers demo_pod = [cpu_container 5]"
    "Object_Raw demo_ns_req = ''''"
    by (simp_all add: demo_pod_def demo_ns_req_def)
  ultimately show ?thesis by simp
qed

end
