(* ===== verification/Go_Json.thy ===== *)
theory Go_Json
  imports Prelude Complex_Main
begin

text \<open>
  The values that \<open>encoding/json\<close> decodes into an \<open>interface{}\<close>, and the type assertions Go code
  makes on them. An object is an association list; a number is exact.
\<close>

datatype json =
    JNull
  | JBool bool
  | JNum rat
  | JStr string
  | JArr "json list"
  | JObj "(string \<times> json) list"

type_synonym jobject = "(string \<times> json) list"

text \<open>\<open>v.(map[string]any)\<close> and \<open>v.(string)\<close> on the value of a key that may be missing; a failed
  assertion to a string in the two-value form yields the empty text.\<close>

definition as_object :: "json option \<Rightarrow> jobject option" where
  "as_object v = (case v of Some (JObj m) \<Rightarrow> Some m | _ \<Rightarrow> None)"

definition as_text :: "json option \<Rightarrow> string option" where
  "as_text v = (case v of Some (JStr s) \<Rightarrow> Some s | _ \<Rightarrow> None)"

definition text_or_empty :: "json option \<Rightarrow> string" where
  "text_or_empty v = (case as_text v of None \<Rightarrow> '''' | Some s \<Rightarrow> s)"

end
