(* ===== verification/Admission_Proxy.thy ===== *)
theory Admission_Proxy
  imports Admission Go_Json "HOL-Library.AList" "HOL-Library.Char_ord" "HOL-Library.List_Lexorder"
    "HOL-Library.Product_Lexorder"
begin

text \<open>
  The admission webhooks of \<open>admission/hooks\<close> for Contour's \<open>HTTPProxy\<close>: the mutator, which sets
  the default ingress class and adds the filters of an IP policy to every route, and the
  validator, which refuses a proxy without a class and an update that changes the class or the
  policy; then the table of handlers of \<open>admission/cmd/run.go\<close>.

  An unstructured object is Go's \<open>map[string]interface{}\<close>, here an association list of JSON values.
  The accessors of the library package \<open>unstructured\<close> are arguments.
\<close>

section \<open>Unstructured objects\<close>

record unstructured_api =
  GetAnnotations :: "jobject \<Rightarrow> string \<rightharpoonup> string"
  NestedString :: "jobject \<Rightarrow> string list \<Rightarrow> (string, string option) result"
  NestedSlice :: "jobject \<Rightarrow> string list \<Rightarrow> (string, json list option) result"
  SetNestedField :: "jobject \<Rightarrow> json \<Rightarrow> string list \<Rightarrow> (string, jobject) result"
  SetNestedSlice :: "jobject \<Rightarrow> json list \<Rightarrow> string list \<Rightarrow> (string, jobject) result"

section \<open>Configuration\<close>

record HTTPProxyIPFilterPolicy =
  Source :: string
  Cidr :: string

record HTTPProxyPolicy =
  pol_Name :: string
  IpAllowPolicy :: "HTTPProxyIPFilterPolicy list"

record HTTPProxyMutator =
  defaultClass :: string
  Policies :: "HTTPProxyPolicy list"

definition annotationKubernetesIngressClass :: string where
  "annotationKubernetesIngressClass = ''kubernetes.io/ingress.class''"

definition annotationContourIngressClass :: string where
  "annotationContourIngressClass = ''projectcontour.io/ingress.class''"

definition fieldIngressClassName :: string where
  "fieldIngressClassName = ''ingressClassName''"

definition annotationIpPolicy :: string where
  "annotationIpPolicy = annotatePrefix @ ''ip-policy''"

section \<open>The ingress class\<close>

definition getHTTPProxyIngressClassNameField ::
  "unstructured_api \<Rightarrow> jobject \<Rightarrow> (string, string option) result" where
  "getHTTPProxyIngressClassNameField u hp = NestedString u hp [''spec'', fieldIngressClassName]"

definition setHTTPProxyIngressClassNameField ::
  "unstructured_api \<Rightarrow> jobject \<Rightarrow> string \<Rightarrow> (string, jobject) result" where
  "setHTTPProxyIngressClassNameField u hp cls = SetNestedField u hp (JStr cls) [''spec'', fieldIngressClassName]"

text \<open>The mutating steps return the answer together with the object they have changed in place.\<close>

definition mutateHTTPProxyIngressClassNameField ::
  "unstructured_api \<Rightarrow> HTTPProxyMutator \<Rightarrow> jobject \<Rightarrow> response \<times> jobject" where
  "mutateHTTPProxyIngressClassNameField u m hp =
     (if defaultClass m = '''' then (ok, hp)
      else if GetAnnotations u hp annotationKubernetesIngressClass \<noteq> None then (ok, hp)
      else if GetAnnotations u hp annotationContourIngressClass \<noteq> None then (ok, hp)
      else (case getHTTPProxyIngressClassNameField u hp of
              Inl e \<Rightarrow> (Errored StatusBadRequest e, hp)
            | Inr (Some _) \<Rightarrow> (ok, hp)
            | Inr None \<Rightarrow>
                (case setHTTPProxyIngressClassNameField u hp (defaultClass m) of
                   Inl e \<Rightarrow> (Errored StatusInternalServerError e, hp)
                 | Inr hp' \<Rightarrow> (ok, hp'))))"

section \<open>The IP policy\<close>

definition getHTTPProxyPolicy :: "HTTPProxyPolicy list \<Rightarrow> string \<Rightarrow> HTTPProxyPolicy option" where
  "getHTTPProxyPolicy policies key = find (\<lambda>v. pol_Name v = key) policies"

text \<open>
  \<open>json.Marshal(v)\<close> followed by \<open>json.Unmarshal\<close> into the struct: the keys come sorted, a key
  matches a field up to case, a null leaves the field as it is, and any other value than a string
  is a type error. A null document leaves the struct empty; every other document that is no
  object is a type error.
\<close>

fun unmarshal_fields ::
  "(string \<times> json) list \<Rightarrow> HTTPProxyIPFilterPolicy \<Rightarrow> (string, HTTPProxyIPFilterPolicy) result" where
  "unmarshal_fields [] p = Inr p"
| "unmarshal_fields ((k, v) # kvs) p =
     (if equal_fold k ''source'' \<or> equal_fold k ''cidr'' then
        (case v of
           JStr s \<Rightarrow> unmarshal_fields kvs
                       (if equal_fold k ''source'' then p\<lparr>Source := s\<rparr> else p\<lparr>Cidr := s\<rparr>)
         | JNull \<Rightarrow> unmarshal_fields kvs p
         | _ \<Rightarrow> Inl (''cannot unmarshal into the field '' @ k))
      else unmarshal_fields kvs p)"

definition unmarshal_policy :: "json \<Rightarrow> (string, HTTPProxyIPFilterPolicy) result" where
  "unmarshal_policy v =
     (case v of
        JNull \<Rightarrow> Inr \<lparr>Source = '''', Cidr = ''''\<rparr>
      | JObj kvs \<Rightarrow> unmarshal_fields (sort_key fst kvs) \<lparr>Source = '''', Cidr = ''''\<rparr>
      | _ \<Rightarrow> Inl ''cannot unmarshal into HTTPProxyIPFilterPolicy'')"

fun unmarshal_policies :: "json list \<Rightarrow> (string, HTTPProxyIPFilterPolicy list) result" where
  "unmarshal_policies [] = Inr []"
| "unmarshal_policies (v # vs) =
     (case unmarshal_policy v of
        Inl e \<Rightarrow> Inl e
      | Inr p \<Rightarrow> (case unmarshal_policies vs of Inl e \<Rightarrow> Inl e | Inr ps \<Rightarrow> Inr (p # ps)))"

text \<open>The way back: the struct marshalled and read into a \<open>map[string]interface{}\<close>.\<close>

definition policy_object :: "HTTPProxyIPFilterPolicy \<Rightarrow> json" where
  "policy_object p = JObj [(''source'', JStr (Source p)), (''cidr'', JStr (Cidr p))]"

datatype policy_err = Failed string | NotAMap

text \<open>One turn of the loop over the routes. The type assertion on the route panics for a value
  that is no map; the set of filters is ranged over in an unspecified order, \<open>ord\<close>.\<close>

definition route_policy ::
  "unstructured_api \<Rightarrow> (HTTPProxyIPFilterPolicy set \<Rightarrow> HTTPProxyIPFilterPolicy list) \<Rightarrow> HTTPProxyPolicy \<Rightarrow> json
     \<Rightarrow> (policy_err, json) result" where
  "route_policy u ord policy route =
     (case route of
        JObj r \<Rightarrow>
          (case NestedSlice u r [''ipAllowPolicy''] of
             Inl e \<Rightarrow> Inl (Failed e)
           | Inr found \<Rightarrow>
               (case unmarshal_policies (case found of None \<Rightarrow> [] | Some vs \<Rightarrow> vs) of
                  Inl e \<Rightarrow> Inl (Failed e)
                | Inr ipPolicies \<Rightarrow>
                    (case SetNestedSlice u r
                            (map policy_object (ord (set (ipPolicies @ IpAllowPolicy policy))))
                            [''ipAllowPolicy''] of
                       Inl e \<Rightarrow> Inl (Failed e)
                     | Inr r' \<Rightarrow> Inr (JObj r'))))
      | _ \<Rightarrow> Inl NotAMap)"

fun routes_loop ::
  "unstructured_api \<Rightarrow> (nat \<Rightarrow> HTTPProxyIPFilterPolicy set \<Rightarrow> HTTPProxyIPFilterPolicy list) \<Rightarrow> HTTPProxyPolicy
     \<Rightarrow> nat \<Rightarrow> json list \<Rightarrow> (policy_err, json list) result" where
  "routes_loop u ord policy i [] = Inr []"
| "routes_loop u ord policy i (route # routes) =
     (case route_policy u (ord i) policy route of
        Inl e \<Rightarrow> Inl e
      | Inr route' \<Rightarrow>
          (case routes_loop u ord policy (Suc i) routes of
             Inl e \<Rightarrow> Inl e
           | Inr routes' \<Rightarrow> Inr (route' # routes')))"

definition setHTTPProxyPolicyField ::
  "unstructured_api \<Rightarrow> (nat \<Rightarrow> HTTPProxyIPFilterPolicy set \<Rightarrow> HTTPProxyIPFilterPolicy list) \<Rightarrow> jobject
     \<Rightarrow> HTTPProxyPolicy \<Rightarrow> (policy_err, jobject) result" where
  "setHTTPProxyPolicyField u ord hp policy =
     (case NestedSlice u hp [''spec'', ''routes''] of
        Inl e \<Rightarrow> Inl (Failed e)
      | Inr None \<Rightarrow> Inr hp
      | Inr (Some routes) \<Rightarrow>
          (case routes_loop u ord policy 0 routes of
             Inl e \<Rightarrow> Inl e
           | Inr routes' \<Rightarrow>
               (case SetNestedField u hp (JArr routes') [''spec'', ''routes''] of
                  Inl e \<Rightarrow> Inl (Failed e)
                | Inr hp' \<Rightarrow> Inr hp')))"

definition mutateHTTPProxyPolicy ::
  "unstructured_api \<Rightarrow> (nat \<Rightarrow> HTTPProxyIPFilterPolicy set \<Rightarrow> HTTPProxyIPFilterPolicy list) \<Rightarrow> HTTPProxyMutator
     \<Rightarrow> jobject \<Rightarrow> response \<times> jobject" where
  "mutateHTTPProxyPolicy u ord m hp =
     (case GetAnnotations u hp annotationIpPolicy of
        None \<Rightarrow> (ok, hp)
      | Some key \<Rightarrow>
          (case getHTTPProxyPolicy (Policies m) key of
             None \<Rightarrow> (Errored StatusBadRequest
                        (''failed to find '' @ annotationIpPolicy @ ''='' @ key @ '' from configuration''), hp)
           | Some policy \<Rightarrow>
               (case setHTTPProxyPolicyField u ord hp policy of
                  Inl (Failed e) \<Rightarrow> (Errored StatusInternalServerError e, hp)
                | Inl NotAMap \<Rightarrow> (Panicked, hp)
                | Inr hp' \<Rightarrow> (ok, hp'))))"

section \<open>The two hooks\<close>

definition contourHTTPProxyMutator_Handle ::
  "unstructured_api \<Rightarrow> (nat \<Rightarrow> HTTPProxyIPFilterPolicy set \<Rightarrow> HTTPProxyIPFilterPolicy list)
     \<Rightarrow> (string \<Rightarrow> (string, jobject) result) \<Rightarrow> (jobject \<Rightarrow> (string, string) result)
     \<Rightarrow> HTTPProxyMutator \<Rightarrow> request \<Rightarrow> response" where
  "contourHTTPProxyMutator_Handle u ord decodeRaw marshal m req =
     (case decodeRaw (Object_Raw req) of
        Inl e \<Rightarrow> Errored StatusBadRequest e
      | Inr hp \<Rightarrow>
          (case mutateHTTPProxyIngressClassNameField u m hp of (res, hp1) \<Rightarrow>
           if \<not> is_allowed res then res
           else (case mutateHTTPProxyPolicy u ord m hp1 of (res', hp2) \<Rightarrow>
                 if \<not> is_allowed res' then res'
                 else (case marshal hp2 of
                         Inl e \<Rightarrow> Errored StatusInternalServerError e
                       | Inr marshaled \<Rightarrow> PatchFromRaw (Object_Raw req) marshaled))))"

definition not_allowed :: "string \<Rightarrow> response" where
  "not_allowed what = Denied (''changing '' @ what @ '' is not allowed'')"

definition contourHTTPProxyValidator_Handle ::
  "unstructured_api \<Rightarrow> (string \<Rightarrow> (string, jobject) result) \<Rightarrow> request \<Rightarrow> response" where
  "contourHTTPProxyValidator_Handle u decodeRaw req =
     (case decodeRaw (Object_Raw req) of
        Inl e \<Rightarrow> Errored StatusBadRequest e
      | Inr hp \<Rightarrow>
          (case getHTTPProxyIngressClassNameField u hp of
             Inl e \<Rightarrow> Errored StatusBadRequest e
           | Inr f \<Rightarrow>
               let newAnn = GetAnnotations u hp;
                   newField = (case f of None \<Rightarrow> '''' | Some v \<Rightarrow> v)
               in case Operation req of
                    Create \<Rightarrow>
                      if get_str newAnn annotationKubernetesIngressClass = ''''
                         \<and> get_str newAnn annotationContourIngressClass = '''' \<and> newField = ''''
                      then Denied (''either '' @ annotationKubernetesIngressClass @ '' or ''
                             @ annotationContourIngressClass
                             @ '' annotation or .spec.ingressClassName field should be set'')
                      else ok
                  | Update \<Rightarrow>
                      (case decodeRaw (OldObject req) of
                         Inl e \<Rightarrow> Errored StatusBadRequest e
                       | Inr old \<Rightarrow>
                           (case getHTTPProxyIngressClassNameField u old of
                              Inl e \<Rightarrow> Errored StatusBadRequest e
                            | Inr f' \<Rightarrow>
                                let oldAnn = GetAnnotations u old;
                                    oldField = (case f' of None \<Rightarrow> '''' | Some v \<Rightarrow> v)
                                in if get_str newAnn annotationKubernetesIngressClass
                                      \<noteq> get_str oldAnn annotationKubernetesIngressClass
                                   then not_allowed (''annotation '' @ annotationKubernetesIngressClass)
                                   else if get_str newAnn annotationContourIngressClass
                                      \<noteq> get_str oldAnn annotationContourIngressClass
                                   then not_allowed (''annotation '' @ annotationContourIngressClass)
                                   else if newField \<noteq> oldField
                                   then not_allowed ''field .spec.ingressClassName''
                                   else (case oldAnn annotationIpPolicy of
                                           None \<Rightarrow> ok
                                         | Some p \<Rightarrow>
                                             if p \<noteq> get_str newAnn annotationIpPolicy
                                             then not_allowed (''annotation '' @ annotationIpPolicy)
                                             else ok)))
                  | _ \<Rightarrow> ok))"

interpretation vhttpproxy: validating_hook "contourHTTPProxyValidator_Handle u decodeRaw"
  by unfold_locales
    (simp add: contourHTTPProxyValidator_Handle_def not_allowed_def status_defs Let_def
       split: sum.split operation.split option.split)

section \<open>Facts about the hooks\<close>

lemma unmarshal_policy_object [simp]: "unmarshal_policy (policy_object p) = Inr p"
proof -
  have "(''cidr'' :: string) < ''source''" by code_simp
  then have "sort_key fst [(''source'', a), (''cidr'', b)] = [(''cidr'', b), (''source'', a)]" for a b :: json
    by simp
  moreover have "\<not> equal_fold ''cidr'' ''source''" "equal_fold ''cidr'' ''cidr''" "equal_fold ''source'' ''source''"
    by (simp_all add: equal_fold_def) code_simp
  ultimately show ?thesis by (simp add: unmarshal_policy_def policy_object_def)
qed

lemma unmarshal_policy_objects: "unmarshal_policies (map policy_object ps) = Inr ps"
  by (induction ps) simp_all

text \<open>
  What the hooks rely on of package \<open>unstructured\<close>: a field that was set is what a later read
  yields, setting one field of the specification leaves another one alone, and setting a field of
  the specification leaves the annotations alone.
\<close>

definition unstructured_ok :: "unstructured_api \<Rightarrow> bool" where
  "unstructured_ok u \<longleftrightarrow>
     (\<forall>hp s p hp'. SetNestedField u hp (JStr s) p = Inr hp' \<longrightarrow> NestedString u hp' p = Inr (Some s)) \<and>
     (\<forall>hp vs p hp'. SetNestedField u hp (JArr vs) p = Inr hp' \<longrightarrow> NestedSlice u hp' p = Inr (Some vs)) \<and>
     (\<forall>hp vs p hp'. SetNestedSlice u hp vs p = Inr hp' \<longrightarrow> NestedSlice u hp' p = Inr (Some vs)) \<and>
     (\<forall>hp v a b c hp'. SetNestedField u hp v [a, b] = Inr hp' \<longrightarrow> b \<noteq> c \<longrightarrow>
        NestedString u hp' [a, c] = NestedString u hp [a, c] \<and>
        NestedSlice u hp' [a, c] = NestedSlice u hp [a, c]) \<and>
     (\<forall>hp v b hp'. SetNestedField u hp v [''spec'', b] = Inr hp' \<longrightarrow>
        GetAnnotations u hp' = GetAnnotations u hp)"

lemma unstructured_okD:
  assumes "unstructured_ok u"
  shows "SetNestedField u hp (JStr s) p = Inr hp' \<Longrightarrow> NestedString u hp' p = Inr (Some s)"
    and "SetNestedField u hp (JArr vs) p = Inr hp' \<Longrightarrow> NestedSlice u hp' p = Inr (Some vs)"
    and "SetNestedSlice u hp vs p = Inr hp' \<Longrightarrow> NestedSlice u hp' p = Inr (Some vs)"
    and "SetNestedField u hp v [a, b] = Inr hp' \<Longrightarrow> b \<noteq> c \<Longrightarrow> NestedString u hp' [a, c] = NestedString u hp [a, c]"
    and "SetNestedField u hp v [a, b] = Inr hp' \<Longrightarrow> b \<noteq> c \<Longrightarrow> NestedSlice u hp' [a, c] = NestedSlice u hp [a, c]"
    and "SetNestedField u hp v [''spec'', b] = Inr hp' \<Longrightarrow> GetAnnotations u hp' = GetAnnotations u hp"
  using assms by (simp_all add: unstructured_ok_def)

definition orders_ok :: "(nat \<Rightarrow> HTTPProxyIPFilterPolicy set \<Rightarrow> HTTPProxyIPFilterPolicy list) \<Rightarrow> bool" where
  "orders_ok ord \<longleftrightarrow> (\<forall>i S. finite S \<longrightarrow> distinct (ord i S) \<and> set (ord i S) = S)"

text \<open>The filters of a route, and what the mutator makes of a route for a policy.\<close>

definition route_filters :: "unstructured_api \<Rightarrow> jobject \<Rightarrow> (string, HTTPProxyIPFilterPolicy list) result" where
  "route_filters u r =
     (case NestedSlice u r [''ipAllowPolicy''] of
        Inl e \<Rightarrow> Inl e
      | Inr found \<Rightarrow> unmarshal_policies (case found of None \<Rightarrow> [] | Some vs \<Rightarrow> vs))"

definition policy_applied :: "unstructured_api \<Rightarrow> HTTPProxyPolicy \<Rightarrow> json \<Rightarrow> json \<Rightarrow> bool" where
  "policy_applied u policy route route' \<longleftrightarrow>
     (\<exists>r r' fs fs'. route = JObj r \<and> route' = JObj r' \<and> route_filters u r = Inr fs \<and>
        route_filters u r' = Inr fs' \<and> distinct fs' \<and> set fs' = set fs \<union> set (IpAllowPolicy policy))"

lemma route_policy_applied:
  assumes "unstructured_ok u" and "orders_ok ord" and "route_policy u (ord i) policy route = Inr route'"
  shows "policy_applied u policy route route'"
proof -
  obtain r fs r' where r: "route = JObj r" "route' = JObj r'" "route_filters u r = Inr fs"
    "SetNestedSlice u r (map policy_object (ord i (set (fs @ IpAllowPolicy policy)))) [''ipAllowPolicy''] = Inr r'"
    using assms(3) by (auto simp: route_policy_def route_filters_def split: json.splits sum.splits)
  let ?fs' = "ord i (set (fs @ IpAllowPolicy policy))"
  have "NestedSlice u r' [''ipAllowPolicy''] = Inr (Some (map policy_object ?fs'))"
    by (rule unstructured_okD(3) [OF assms(1) r(4)])
  then have "route_filters u r' = Inr ?fs'"
    by (simp add: route_filters_def unmarshal_policy_objects)
  moreover have "distinct ?fs'" "set ?fs' = set fs \<union> set (IpAllowPolicy policy)"
    using assms(2) by (auto simp: orders_ok_def)
  ultimately show ?thesis using r(1-3) unfolding policy_applied_def by blast
qed

lemma routes_loop_applied:
  assumes "unstructured_ok u" and "orders_ok ord" and "routes_loop u ord policy i routes = Inr routes'"
  shows "list_all2 (policy_applied u policy) routes routes'"
  using assms(3)
  by (induction routes arbitrary: i routes')
    (auto split: sum.splits intro: route_policy_applied [OF assms(1,2)])

lemma getHTTPProxyPolicy_Some:
  "getHTTPProxyPolicy ps key = Some policy \<Longrightarrow> policy \<in> set ps \<and> pol_Name policy = key"
  by (auto simp: getHTTPProxyPolicy_def find_Some_iff)

text \<open>What the two steps of the mutator do when they succeed.\<close>

definition class_default :: "unstructured_api \<Rightarrow> HTTPProxyMutator \<Rightarrow> jobject \<Rightarrow> bool" where
  "class_default u m hp \<longleftrightarrow> defaultClass m \<noteq> '''' \<and>
     GetAnnotations u hp annotationKubernetesIngressClass = None \<and>
     GetAnnotations u hp annotationContourIngressClass = None \<and>
     getHTTPProxyIngressClassNameField u hp = Inr None"

lemma routes_not_class: "fieldIngressClassName \<noteq> ''routes''"
  by (simp add: fieldIngressClassName_def)

lemma class_step:
  assumes "unstructured_ok u" and "mutateHTTPProxyIngressClassNameField u m hp = (res, hp1)" and "is_allowed res"
  shows "GetAnnotations u hp1 = GetAnnotations u hp"
    and "NestedSlice u hp1 [''spec'', ''routes''] = NestedSlice u hp [''spec'', ''routes'']"
    and "getHTTPProxyIngressClassNameField u hp1 =
      (if class_default u m hp then Inr (Some (defaultClass m)) else getHTTPProxyIngressClassNameField u hp)"
proof -
  consider "hp1 = hp" "\<not> class_default u m hp"
    | "class_default u m hp" "SetNestedField u hp (JStr (defaultClass m)) [''spec'', fieldIngressClassName] = Inr hp1"
    using assms(2,3)
    by (auto simp: mutateHTTPProxyIngressClassNameField_def class_default_def
        setHTTPProxyIngressClassNameField_def split: if_splits sum.splits option.splits)
  then have "GetAnnotations u hp1 = GetAnnotations u hp
    \<and> NestedSlice u hp1 [''spec'', ''routes''] = NestedSlice u hp [''spec'', ''routes'']
    \<and> getHTTPProxyIngressClassNameField u hp1 =
      (if class_default u m hp then Inr (Some (defaultClass m)) else getHTTPProxyIngressClassNameField u hp)"
  proof cases
    case 2
    have "GetAnnotations u hp1 = GetAnnotations u hp"
      "NestedString u hp1 [''spec'', fieldIngressClassName] = Inr (Some (defaultClass m))"
      by (rule unstructured_okD(6) [OF assms(1) 2(2)], rule unstructured_okD(1) [OF assms(1) 2(2)])
    moreover have "NestedSlice u hp1 [''spec'', ''routes''] = NestedSlice u hp [''spec'', ''routes'']"
      by (rule unstructured_okD(5) [OF assms(1) 2(2) routes_not_class])
    ultimately show ?thesis using 2(1) by (simp add: getHTTPProxyIngressClassNameField_def)
  qed simp
  then show "GetAnnotations u hp1 = GetAnnotations u hp"
    and "NestedSlice u hp1 [''spec'', ''routes''] = NestedSlice u hp [''spec'', ''routes'']"
    and "getHTTPProxyIngressClassNameField u hp1 =
      (if class_default u m hp then Inr (Some (defaultClass m)) else getHTTPProxyIngressClassNameField u hp)"
    by simp_all
qed

text \<open>How the routes of the stored proxy relate to those of the submitted one.\<close>

definition routes_mutated :: "unstructured_api \<Rightarrow> HTTPProxyMutator \<Rightarrow> jobject \<Rightarrow> jobject \<Rightarrow> bool" where
  "routes_mutated u m hp hp' \<longleftrightarrow>
     (case GetAnnotations u hp annotationIpPolicy of
        None \<Rightarrow> NestedSlice u hp' [''spec'', ''routes''] = NestedSlice u hp [''spec'', ''routes'']
      | Some key \<Rightarrow>
          (\<exists>policy \<in> set (Policies m). pol_Name policy = key \<and>
             (\<exists>rs rs'. NestedSlice u hp [''spec'', ''routes''] = Inr rs \<and>
                NestedSlice u hp' [''spec'', ''routes''] = Inr rs' \<and>
                rel_option (list_all2 (policy_applied u policy)) rs rs')))"

lemma policy_field_step:
  assumes "unstructured_ok u" and "orders_ok ord" and "setHTTPProxyPolicyField u ord hp policy = Inr hp'"
  shows "GetAnnotations u hp' = GetAnnotations u hp"
    and "getHTTPProxyIngressClassNameField u hp' = getHTTPProxyIngressClassNameField u hp"
    and "\<exists>rs rs'. NestedSlice u hp [''spec'', ''routes''] = Inr rs \<and>
           NestedSlice u hp' [''spec'', ''routes''] = Inr rs' \<and>
           rel_option (list_all2 (policy_applied u policy)) rs rs'"
proof -
  consider "hp' = hp" "NestedSlice u hp [''spec'', ''routes''] = Inr None"
    | rs rs' where "NestedSlice u hp [''spec'', ''routes''] = Inr (Some rs)"
        "routes_loop u ord policy 0 rs = Inr rs'"
        "SetNestedField u hp (JArr rs') [''spec'', ''routes''] = Inr hp'"
    using assms(3) by (auto simp: setHTTPProxyPolicyField_def split: sum.splits option.splits)
  then have "GetAnnotations u hp' = GetAnnotations u hp
    \<and> getHTTPProxyIngressClassNameField u hp' = getHTTPProxyIngressClassNameField u hp
    \<and> (\<exists>rs rs'. NestedSlice u hp [''spec'', ''routes''] = Inr rs \<and>
           NestedSlice u hp' [''spec'', ''routes''] = Inr rs' \<and>
           rel_option (list_all2 (policy_applied u policy)) rs rs')"
  proof cases
    case (2 rs rs')
    have "GetAnnotations u hp' = GetAnnotations u hp"
      "NestedSlice u hp' [''spec'', ''routes''] = Inr (Some rs')"
      by (rule unstructured_okD(6) [OF assms(1) 2(3)], rule unstructured_okD(2) [OF assms(1) 2(3)])
    moreover have "NestedString u hp' [''spec'', fieldIngressClassName] = NestedString u hp [''spec'', fieldIngressClassName]"
      by (rule unstructured_okD(4) [OF assms(1) 2(3) routes_not_class [symmetric]])
    ultimately show ?thesis
      using 2(1) routes_loop_applied [OF assms(1,2) 2(2)]
      by (auto simp: getHTTPProxyIngressClassNameField_def)
  qed simp
  then show "GetAnnotations u hp' = GetAnnotations u hp"
    and "getHTTPProxyIngressClassNameField u hp' = getHTTPProxyIngressClassNameField u hp"
    and "\<exists>rs rs'. NestedSlice u hp [''spec'', ''routes''] = Inr rs \<and>
           NestedSlice u hp' [''spec'', ''routes''] = Inr rs' \<and>
           rel_option (list_all2 (policy_applied u policy)) rs rs'"
    by simp_all
qed

lemma policy_step:
  assumes "unstructured_ok u" and "orders_ok ord" and "mutateHTTPProxyPolicy u ord m hp = (res, hp')" and "is_allowed res"
  shows "GetAnnotations u hp' = GetAnnotations u hp \<and> routes_mutated u m hp hp' \<and>
    getHTTPProxyIngressClassNameField u hp' = getHTTPProxyIngressClassNameField u hp"
proof (cases "GetAnnotations u hp annotationIpPolicy")
  case None
  then show ?thesis using assms(3) by (simp add: mutateHTTPProxyPolicy_def routes_mutated_def)
next
  case (Some key)
  then obtain policy where p: "getHTTPProxyPolicy (Policies m) key = Some policy"
    "setHTTPProxyPolicyField u ord hp policy = Inr hp'"
    using assms(3,4)
    by (auto simp: mutateHTTPProxyPolicy_def split: option.splits sum.splits policy_err.splits)
  note f = policy_field_step [OF assms(1,2) p(2)]
  show ?thesis
    using f Some getHTTPProxyPolicy_Some [OF p(1)] by (auto simp: routes_mutated_def)
qed

section \<open>Histories of a proxy\<close>

text \<open>
  The API server sends a submitted document to the mutating hook, applies the patch, and stores
  the result if the validating hook admits it. A proxy is created once and then updated any number
  of times; the configuration of the hooks and the orders of their maps may differ each time.
\<close>

definition submit ::
  "unstructured_api \<Rightarrow> (string \<Rightarrow> (string, jobject) result) \<Rightarrow> (jobject \<Rightarrow> (string, string) result)
     \<Rightarrow> (nat \<Rightarrow> HTTPProxyIPFilterPolicy set \<Rightarrow> HTTPProxyIPFilterPolicy list) \<Rightarrow> HTTPProxyMutator
     \<Rightarrow> request \<Rightarrow> string option" where
  "submit u decodeRaw marshal ord m req =
     (case contourHTTPProxyMutator_Handle u ord decodeRaw marshal m req of
        PatchFromRaw _ t \<Rightarrow>
          if is_allowed (contourHTTPProxyValidator_Handle u decodeRaw (req\<lparr>Object_Raw := t\<rparr>))
          then Some t else None
      | _ \<Rightarrow> None)"

inductive proxy_history ::
  "unstructured_api \<Rightarrow> (string \<Rightarrow> (string, jobject) result) \<Rightarrow> (jobject \<Rightarrow> (string, string) result)
     \<Rightarrow> string \<Rightarrow> string \<Rightarrow> bool"
  for u decodeRaw marshal where
  proxy_created: "Operation req = Create \<Longrightarrow> submit u decodeRaw marshal ord m req = Some t
     \<Longrightarrow> proxy_history u decodeRaw marshal t t"
| proxy_updated: "proxy_history u decodeRaw marshal t0 t \<Longrightarrow> Operation req = Update \<Longrightarrow> OldObject req = t
     \<Longrightarrow> submit u decodeRaw marshal ord m req = Some t' \<Longrightarrow> proxy_history u decodeRaw marshal t0 t'"

inductive_cases proxy_history_cases: "proxy_history u decodeRaw marshal t0 t"

text \<open>The three places a class can be named in, and the policy, of a stored document.\<close>

definition class_of :: "unstructured_api \<Rightarrow> jobject \<Rightarrow> string \<times> string \<times> string" where
  "class_of u hp =
     (get_str (GetAnnotations u hp) annotationKubernetesIngressClass,
      get_str (GetAnnotations u hp) annotationContourIngressClass,
      case getHTTPProxyIngressClassNameField u hp of Inr (Some v) \<Rightarrow> v | _ \<Rightarrow> '''')"

lemma submit_validated:
  assumes "submit u decodeRaw marshal ord m req = Some t"
  shows "is_allowed (contourHTTPProxyValidator_Handle u decodeRaw (req\<lparr>Object_Raw := t\<rparr>))"
  using assms by (simp add: submit_def split: response.splits if_splits)

lemma not_allowed_refuses [simp]: "\<not> is_allowed (not_allowed what)"
  by (simp add: not_allowed_def)

lemma validator_create:
  assumes "is_allowed (contourHTTPProxyValidator_Handle u decodeRaw req)" and "Operation req = Create"
  shows "\<exists>hp. decodeRaw (Object_Raw req) = Inr hp \<and> class_of u hp \<noteq> ('''', '''', '''')"
proof -
  obtain hp f where hp: "decodeRaw (Object_Raw req) = Inr hp" "getHTTPProxyIngressClassNameField u hp = Inr f"
    using assms(1) by (auto simp: contourHTTPProxyValidator_Handle_def split: sum.splits)
  then show ?thesis
    using assms by (cases f) (auto simp: contourHTTPProxyValidator_Handle_def class_of_def Let_def split: if_splits)
qed

lemma validator_update:
  assumes "is_allowed (contourHTTPProxyValidator_Handle u decodeRaw req)" and "Operation req = Update"
    and "decodeRaw (OldObject req) = Inr old"
  shows "\<exists>hp. decodeRaw (Object_Raw req) = Inr hp \<and> class_of u hp = class_of u old \<and>
    (\<forall>p. GetAnnotations u old annotationIpPolicy = Some p \<longrightarrow> get_str (GetAnnotations u hp) annotationIpPolicy = p)"
proof -
  obtain hp f where hp: "decodeRaw (Object_Raw req) = Inr hp" "getHTTPProxyIngressClassNameField u hp = Inr f"
    using assms(1) by (auto simp: contourHTTPProxyValidator_Handle_def split: sum.splits)
  obtain f' where old: "getHTTPProxyIngressClassNameField u old = Inr f'"
    using assms hp by (auto simp: contourHTTPProxyValidator_Handle_def Let_def split: sum.splits)
  show ?thesis
    using assms hp old
    by (cases f; cases f')
      (auto simp: contourHTTPProxyValidator_Handle_def class_of_def Let_def split: if_splits option.splits)
qed

section \<open>Properties of the proxy hooks\<close>

text \<open>
  C30. However an \<open>HTTPProxy\<close> is created and updated through the two webhooks, the document that is
  stored names an ingress class in one of the three places, the class settings are those it was
  created with, and a non-empty IP policy it was created with is still its policy.
\<close>

theorem proxy_class_fixed:
  assumes "proxy_history u decodeRaw marshal t0 t"
  shows "\<exists>hp0 hp. decodeRaw t0 = Inr hp0 \<and> decodeRaw t = Inr hp
    \<and> class_of u hp = class_of u hp0 \<and> class_of u hp \<noteq> ('''', '''', '''')
    \<and> (\<forall>p. GetAnnotations u hp0 annotationIpPolicy = Some p \<and> p \<noteq> '''' \<longrightarrow>
          GetAnnotations u hp annotationIpPolicy = Some p)"
  using assms
proof (induction rule: proxy_history.induct)
  case (proxy_created req ord m t)
  then show ?case using validator_create [OF submit_validated, of u decodeRaw marshal ord m req t] by auto
next
  case (proxy_updated t0 t req ord m t')
  then obtain hp0 hp where h: "decodeRaw t0 = Inr hp0" "decodeRaw t = Inr hp" "class_of u hp = class_of u hp0"
    "class_of u hp \<noteq> ('''', '''', '''')" "\<And>p. GetAnnotations u hp0 annotationIpPolicy = Some p \<Longrightarrow> p \<noteq> ''''
       \<Longrightarrow> GetAnnotations u hp annotationIpPolicy = Some p" by blast
  obtain hp' where h': "decodeRaw t' = Inr hp'" "class_of u hp' = class_of u hp"
    "\<And>p. GetAnnotations u hp annotationIpPolicy = Some p \<Longrightarrow> get_str (GetAnnotations u hp') annotationIpPolicy = p"
    using validator_update [OF submit_validated [OF proxy_updated.hyps(4)]] proxy_updated.hyps(2,3) h(2) by auto
  have "GetAnnotations u hp' annotationIpPolicy = Some p"
    if "GetAnnotations u hp0 annotationIpPolicy = Some p" "p \<noteq> ''''" for p
    using h'(3) [OF h(5) [OF that]] that(2) by (auto simp: get_str_def split: option.splits)
  then show ?case using h h' by (intro exI [of _ hp0] exI [of _ hp']) simp
qed

text \<open>
  C31. When the mutator answers with a patch, the patched document decodes to the submitted proxy
  with its annotations as they were, with the configured class in \<open>.spec.ingressClassName\<close> when a
  default is configured and no class was named, and as it was otherwise; and if the proxy names an
  IP policy, the policy is one of the configured ones and each route has as its filters, without
  repetition, those it had and those of the policy.
\<close>

theorem proxy_mutation_exact:
  assumes "unstructured_ok u" and "orders_ok ord" and "\<forall>o1 t. marshal o1 = Inr t \<longrightarrow> decodeRaw t = Inr o1"
    and "decodeRaw (Object_Raw req) = Inr hp"
    and "contourHTTPProxyMutator_Handle u ord decodeRaw marshal m req = PatchFromRaw raw t"
  shows "\<exists>hp'. raw = Object_Raw req \<and> decodeRaw t = Inr hp' \<and> GetAnnotations u hp' = GetAnnotations u hp
    \<and> getHTTPProxyIngressClassNameField u hp' =
        (if class_default u m hp then Inr (Some (defaultClass m)) else getHTTPProxyIngressClassNameField u hp)
    \<and> routes_mutated u m hp hp'"
proof -
  obtain res hp1 where c: "mutateHTTPProxyIngressClassNameField u m hp = (res, hp1)" by force
  obtain res' hp2 where p: "mutateHTTPProxyPolicy u ord m hp1 = (res', hp2)" by force
  have "is_allowed res" "is_allowed res'" "marshal hp2 = Inr t" "raw = Object_Raw req"
    using assms(4,5) c p
    by (auto simp: contourHTTPProxyMutator_Handle_def split: if_splits sum.splits)
  note a = this
  note s1 = class_step [OF assms(1) c a(1)]
  have s2: "GetAnnotations u hp2 = GetAnnotations u hp1" "routes_mutated u m hp1 hp2"
    "getHTTPProxyIngressClassNameField u hp2 = getHTTPProxyIngressClassNameField u hp1"
    using policy_step [OF assms(1,2) p a(2)] by simp_all
  have "routes_mutated u m hp hp2" using s2(2) unfolding routes_mutated_def s1(1,2) .
  then show ?thesis using s1 s2 a assms(3) by (intro exI [of _ hp2]) simp
qed

subsection \<open>Witnesses\<close>

text \<open>Accessors on association lists that satisfy the laws.\<close>

fun nested_get :: "jobject \<Rightarrow> string list \<Rightarrow> (string, json option) result" where
  "nested_get hp [] = Inl ''no field''"
| "nested_get hp [k] = Inr (map_of hp k)"
| "nested_get hp (k # l # ks) =
     (case map_of hp k of
        None \<Rightarrow> Inr None
      | Some (JObj inner) \<Rightarrow> nested_get inner (l # ks)
      | Some _ \<Rightarrow> Inl ''not a map'')"

fun nested_set :: "jobject \<Rightarrow> json \<Rightarrow> string list \<Rightarrow> (string, jobject) result" where
  "nested_set hp v [] = Inl ''no field''"
| "nested_set hp v [k] = Inr (AList.update k v hp)"
| "nested_set hp v (k # l # ks) =
     (case map_of hp k of
        None \<Rightarrow> map_sum id (\<lambda>inner. AList.update k (JObj inner) hp) (nested_set [] v (l # ks))
      | Some (JObj inner) \<Rightarrow>
          map_sum id (\<lambda>inner'. AList.update k (JObj inner') hp) (nested_set inner v (l # ks))
      | Some _ \<Rightarrow> Inl ''not a map'')"

definition as_string :: "json option \<Rightarrow> (string, string option) result" where
  "as_string v = (case v of None \<Rightarrow> Inr None | Some (JStr s) \<Rightarrow> Inr (Some s) | Some _ \<Rightarrow> Inl ''not a string'')"

definition as_slice :: "json option \<Rightarrow> (string, json list option) result" where
  "as_slice v = (case v of None \<Rightarrow> Inr None | Some (JArr vs) \<Rightarrow> Inr (Some vs) | Some _ \<Rightarrow> Inl ''not a slice'')"

definition list_annotations :: "jobject \<Rightarrow> string \<rightharpoonup> string" where
  "list_annotations hp =
     (case nested_get hp [''metadata'', ''annotations''] of
        Inr (Some (JObj kvs)) \<Rightarrow> (\<lambda>k. case map_of kvs k of Some (JStr s) \<Rightarrow> Some s | _ \<Rightarrow> None)
      | _ \<Rightarrow> Map.empty)"

definition list_api :: unstructured_api where
  "list_api = \<lparr>GetAnnotations = list_annotations,
     NestedString = (\<lambda>hp p. case nested_get hp p of Inl e \<Rightarrow> Inl e | Inr v \<Rightarrow> as_string v),
     NestedSlice = (\<lambda>hp p. case nested_get hp p of Inl e \<Rightarrow> Inl e | Inr v \<Rightarrow> as_slice v),
     SetNestedField = nested_set,
     SetNestedSlice = (\<lambda>hp vs p. nested_set hp (JArr vs) p)\<rparr>"

lemma nested_get_set: "nested_set hp v p = Inr hp' \<Longrightarrow> nested_get hp' p = Inr (Some v)"
  by (induction hp v p arbitrary: hp' rule: nested_set.induct)
    (auto simp: update_conv' map_sum_def split: option.splits json.splits sum.splits)

lemma nested_get_other:
  "nested_set hp v [a, b] = Inr hp' \<Longrightarrow> b \<noteq> c \<Longrightarrow> nested_get hp' [a, c] = nested_get hp [a, c]"
  by (auto simp: update_conv' split: option.splits json.splits)

lemma nested_get_apart:
  "nested_set hp v [a, b] = Inr hp' \<Longrightarrow> a \<noteq> d \<Longrightarrow> nested_get hp' [d, c] = nested_get hp [d, c]"
  by (auto simp: update_conv' split: option.splits json.splits)

lemma list_api_ok: "unstructured_ok list_api"
  unfolding unstructured_ok_def
proof (intro conjI allI impI, goal_cases)
  case (6 hp v b hp')
  then have "nested_get hp' [''metadata'', ''annotations''] = nested_get hp [''metadata'', ''annotations'']"
    by (intro nested_get_apart [where a = "''spec''" and b = b and v = v]) (simp_all add: list_api_def)
  then show ?case by (simp add: list_api_def list_annotations_def)
qed (simp_all add: list_api_def nested_get_set as_string_def as_slice_def nested_get_other del: nested_get.simps nested_set.simps)

definition pair_order :: "nat \<Rightarrow> HTTPProxyIPFilterPolicy set \<Rightarrow> HTTPProxyIPFilterPolicy list" where
  "pair_order i S = map (\<lambda>(a, b). \<lparr>Source = a, Cidr = b\<rparr>) (sorted_list_of_set ((\<lambda>p. (Source p, Cidr p)) ` S))"

lemma pair_order_ok: "orders_ok pair_order"
proof -
  have inj: "inj_on (\<lambda>(a, b). \<lparr>Source = a, Cidr = b\<rparr>) A" for A by (auto simp: inj_on_def)
  have "(\<lambda>(a, b). \<lparr>Source = a, Cidr = b\<rparr>) ` (\<lambda>p. (Source p, Cidr p)) ` S = S"
    for S :: "HTTPProxyIPFilterPolicy set"
  proof -
    have p: "\<lparr>Source = Source p, Cidr = Cidr p\<rparr> = p" for p :: HTTPProxyIPFilterPolicy by simp
    show ?thesis by (simp add: image_image p)
  qed
  then show ?thesis by (auto simp: orders_ok_def pair_order_def distinct_map inj)
qed

text \<open>A proxy with one route that names the policy \<open>office\<close> and no class.\<close>

definition demo_proxy :: jobject where
  "demo_proxy = [(''metadata'', JObj [(''annotations'', JObj [(annotationIpPolicy, JStr ''office'')])]),
     (''spec'', JObj [(''routes'', JArr [JObj []])])]"

definition demo_mutator :: HTTPProxyMutator where
  "demo_mutator = \<lparr>defaultClass = ''forest'',
     Policies = [\<lparr>pol_Name = ''office'', IpAllowPolicy = [\<lparr>Source = ''Peer'', Cidr = ''10.0.0.1''\<rparr>]\<rparr>]\<rparr>"

definition demo_mutated :: jobject where
  "demo_mutated = snd (mutateHTTPProxyPolicy list_api pair_order demo_mutator
     (snd (mutateHTTPProxyIngressClassNameField list_api demo_mutator demo_proxy)))"

definition demo_decode :: "string \<Rightarrow> (string, jobject) result" where
  "demo_decode t = (if t = ''in'' then Inr demo_proxy else if t = ''out'' then Inr demo_mutated else Inl ''syntax'')"

definition demo_marshal :: "jobject \<Rightarrow> (string, string) result" where
  "demo_marshal o1 = (if o1 = demo_mutated then Inr ''out'' else Inl ''unsupported'')"

definition demo_create :: request where
  "demo_create = \<lparr>Operation = Create, Username = ''dev'', req_Namespace = ''app'', req_Name = ''web'',
     Object_Raw = ''in'', OldObject = ''''\<rparr>"

lemma policy_key: "annotationIpPolicy \<noteq> annotationKubernetesIngressClass"
    "annotationIpPolicy \<noteq> annotationContourIngressClass"
  by (simp_all add: annotationIpPolicy_def annotatePrefix_def annotationKubernetesIngressClass_def
      annotationContourIngressClass_def)

lemmas demo_proxy_defs = list_api_def list_annotations_def demo_proxy_def demo_mutator_def
  as_string_def as_slice_def fieldIngressClassName_def

lemma demo_class_step:
  "mutateHTTPProxyIngressClassNameField list_api demo_mutator demo_proxy =
     (ok, [(''metadata'', JObj [(''annotations'', JObj [(annotationIpPolicy, JStr ''office'')])]),
       (''spec'', JObj [(''routes'', JArr [JObj []]), (''ingressClassName'', JStr ''forest'')])])"
  using policy_key
  by (simp add: mutateHTTPProxyIngressClassNameField_def getHTTPProxyIngressClassNameField_def
      setHTTPProxyIngressClassNameField_def demo_proxy_defs)

lemma demo_policy_step:
  "fst (mutateHTTPProxyPolicy list_api pair_order demo_mutator
     (snd (mutateHTTPProxyIngressClassNameField list_api demo_mutator demo_proxy))) = ok"
  unfolding demo_class_step
  by (simp add: mutateHTTPProxyPolicy_def getHTTPProxyPolicy_def setHTTPProxyPolicyField_def
      route_policy_def demo_proxy_defs)

lemma demo_handled:
  "contourHTTPProxyMutator_Handle list_api pair_order demo_decode demo_marshal demo_mutator demo_create
     = PatchFromRaw ''in'' ''out''"
proof -
  have "mutateHTTPProxyPolicy list_api pair_order demo_mutator
     (snd (mutateHTTPProxyIngressClassNameField list_api demo_mutator demo_proxy)) = (ok, demo_mutated)"
    using demo_policy_step by (simp add: demo_mutated_def prod_eq_iff)
  then show ?thesis
    by (simp add: contourHTTPProxyMutator_Handle_def demo_class_step demo_create_def demo_decode_def demo_marshal_def)
qed

lemma demo_class: "class_default list_api demo_mutator demo_proxy"
  using policy_key
  by (simp add: class_default_def getHTTPProxyIngressClassNameField_def demo_proxy_defs)

lemma demo_codec: "\<forall>o1 t. demo_marshal o1 = Inr t \<longrightarrow> demo_decode t = Inr o1"
  by (simp add: demo_marshal_def demo_decode_def)

theorem proxy_mutation_exact_witness:
  "getHTTPProxyIngressClassNameField list_api demo_mutated = Inr (Some ''forest'')
   \<and> routes_mutated list_api demo_mutator demo_proxy demo_mutated"
proof -
  have d: "demo_decode (Object_Raw demo_create) = Inr demo_proxy" "demo_decode ''out'' = Inr demo_mutated"
    "defaultClass demo_mutator = ''forest''"
    by (simp_all add: demo_decode_def demo_create_def demo_mutator_def)
  show ?thesis
    using proxy_mutation_exact [OF list_api_ok pair_order_ok demo_codec d(1) demo_handled]
    by (simp add: d demo_class)
qed

text \<open>The same proxy, created and then updated with what was stored.\<close>

lemma demo_mutated_class: "getHTTPProxyIngressClassNameField list_api demo_mutated = Inr (Some ''forest'')"
proof -
  let ?hp1 = "snd (mutateHTTPProxyIngressClassNameField list_api demo_mutator demo_proxy)"
  have "mutateHTTPProxyPolicy list_api pair_order demo_mutator ?hp1 = (ok, demo_mutated)"
    using demo_policy_step by (simp add: demo_mutated_def prod_eq_iff)
  from policy_step [OF list_api_ok pair_order_ok this]
  have "getHTTPProxyIngressClassNameField list_api demo_mutated = getHTTPProxyIngressClassNameField list_api ?hp1"
    by simp
  also have "\<dots> = Inr (Some ''forest'')"
    using class_step(3) [OF list_api_ok demo_class_step] demo_class
    by (simp add: demo_class_step) (simp add: demo_mutator_def)
  finally show ?thesis .
qed

lemma demo_submit: "submit list_api demo_decode demo_marshal pair_order demo_mutator demo_create = Some ''out''"
proof -
  have "is_allowed (contourHTTPProxyValidator_Handle list_api demo_decode (demo_create\<lparr>Object_Raw := ''out''\<rparr>))"
    by (simp add: contourHTTPProxyValidator_Handle_def demo_create_def demo_decode_def demo_mutated_class)
  then show ?thesis by (simp add: submit_def demo_handled)
qed

theorem proxy_class_fixed_witness:
  "proxy_history list_api demo_decode demo_marshal ''out'' ''out''
   \<and> class_of list_api demo_mutated \<noteq> ('''', '''', '''')"
proof -
  have h: "proxy_history list_api demo_decode demo_marshal ''out'' ''out''"
    by (rule proxy_created [OF _ demo_submit]) (simp add: demo_create_def)
  moreover have "demo_decode ''out'' = Inr demo_mutated" by (simp add: demo_decode_def)
  ultimately show ?thesis using proxy_class_fixed [OF h] by simp
qed

section \<open>The table of handlers\<close>

text \<open>
  What \<open>run\<close> hands to the hooks: the library objects, with one decoder per type the scheme knows,
  and the flags and the configuration file of the command.
\<close>

record ('q, 'x, 'k, 'd, 'p) webhook_env =
  quantities :: "'q quantity_api"
  unstructured :: unstructured_api
  map_orders :: "nat \<Rightarrow> HTTPProxyIPFilterPolicy set \<Rightarrow> HTTPProxyIPFilterPolicy list"
  decode_pod :: "request \<Rightarrow> (string, ('q, 'x) pod) result"
  marshal_pod :: "('q, 'x) pod \<Rightarrow> (string, string) result"
  decode_meta :: "string \<Rightarrow> (string, object_meta) result"
  decode_object :: "string \<Rightarrow> (string, jobject) result"
  marshal_object :: "jobject \<Rightarrow> (string, string) result"
  decode_deployment :: "request \<Rightarrow> (string, deployment) result"
  decode_scale :: "request \<Rightarrow> (string, scale) result"
  decode_dashboard :: "request \<Rightarrow> (string, 'd) result"
  dashboard_plugins :: "'d \<Rightarrow> (string, 'p list) result"
  get_namespace_labels :: "string \<Rightarrow> (string, string \<rightharpoonup> string) result"
  get_deployment :: "string \<Rightarrow> string \<Rightarrow> (string, deployment) result"
  namespaces :: "'k namespace_env"

record webhook_config =
  ephemeralStoragePermissive :: bool
  cpuRequestReducerEnabled :: bool
  validImagePrefixes :: "string list"
  imagePermissive :: bool
  proxyMutator :: HTTPProxyMutator
  protectedResources :: "protected_resource list"

definition register_hooks ::
  "('q, 'x, 'k, 'd, 'p) webhook_env \<Rightarrow> webhook_config
     \<Rightarrow> (string, (string \<times> (request \<Rightarrow> response)) list) result" where
  "register_hooks e c =
     (let hooks =
        [(''/mutate-pod'',
            podMutator_Handle (quantities e) (decode_pod e) (marshal_pod e) (ephemeralStoragePermissive c)),
         (''/mutate-pod-cpu-request-reduce'',
            \<lambda>req. fst (podCPURequestReducer_Handle (quantities e) (decode_pod e) (marshal_pod e)
                         (cpuRequestReducerEnabled c) req)),
         (''/validate-pod'', podValidator_Handle (decode_pod e) (validImagePrefixes c) (imagePermissive c)),
         (''/mutate-projectcontour-io-httpproxy'',
            contourHTTPProxyMutator_Handle (unstructured e) (map_orders e) (decode_object e) (marshal_object e)
              (proxyMutator c)),
         (''/validate-projectcontour-io-httpproxy'',
            contourHTTPProxyValidator_Handle (unstructured e) (decode_object e)),
         (''/validate-grafana-integreatly-org-grafanadashboard'',
            grafanaDashboard_Handle (decode_dashboard e) (dashboard_plugins e)),
         (''/validate-delete'', delete_Handle (decode_meta e) (get_namespace_labels e)),
         (''/validate-preventdelete'', preventDelete_Handle (decode_meta e)),
         (''/validate-deployment-replica-count'', replicaCount_Handle (decode_deployment e)),
         (''/validate-scale-deployment-replica-count'',
            replicaCountScale_Handle (decode_scale e) (get_deployment e))]
      in case namespaceDeletion_validate (namespaces e) (Some (protectedResources c)) of
           Inl err \<Rightarrow> Inl err
         | Inr _ \<Rightarrow> Inr (hooks @ [(''/validate-namespace-deletion'',
                            namespaceDeletion_Handle (namespaces e) (protectedResources c))]))"

text \<open>
  In the table that \<open>run\<close> serves, every handler under a path that starts with
  \<open>/validate-\<close> answers every request with a verdict: it admits, denies or reports an error status,
  and never rewrites the object under review and never panics. The paths are pairwise different.
\<close>

theorem validators_never_patch:
  assumes "register_hooks e c = Inr hooks"
  shows "distinct (map fst hooks)
    \<and> (\<forall>(path, handle) \<in> set hooks. has_prefix path ''/validate-'' \<longrightarrow> verdict (handle req) \<and> \<not> is_patch (handle req))"
proof -
  have "verdict r \<Longrightarrow> \<not> is_patch r" for r by (cases r) simp_all
  then show ?thesis
    using assms
    by (auto simp: register_hooks_def Let_def has_prefix_def vpod.handle_verdict vhttpproxy.handle_verdict
        vgrafanadashboard.handle_verdict vdelete.handle_verdict vpreventdelete.handle_verdict
        vdeploymentreplicacount.handle_verdict vscaledeploymentreplicacount.handle_verdict
        vnamespacedeletion.handle_verdict split: sum.splits)
qed

definition demo_webhooks :: "(int, unit, unit, unit, unit) webhook_env" where
  "demo_webhooks = \<lparr>quantities = milli_api, unstructured = list_api, map_orders = pair_order,
     decode_pod = (\<lambda>_. Inr demo_pod), marshal_pod = (\<lambda>_. Inr ''patched''),
     decode_meta = (\<lambda>_. Inr demo_ns_obj), decode_object = demo_decode, marshal_object = demo_marshal,
     decode_deployment = (\<lambda>_. Inl ''''), decode_scale = (\<lambda>_. Inl ''''),
     decode_dashboard = Inr \<circ> (\<lambda>_. ()), dashboard_plugins = (\<lambda>_. Inr []),
     get_namespace_labels = (\<lambda>_. Inr Map.empty), get_deployment = (\<lambda>_ _. Inl ''''),
     namespaces = demo_ns_env []\<rparr>"

definition demo_webhook_config :: webhook_config where
  "demo_webhook_config = \<lparr>ephemeralStoragePermissive = False, cpuRequestReducerEnabled = True,
     validImagePrefixes = [''ghcr.io/''], imagePermissive = False, proxyMutator = demo_mutator,
     protectedResources = [demo_pvcs]\<rparr>"

theorem validators_never_patch_witness:
  "\<exists>hooks. register_hooks demo_webhooks demo_webhook_config = Inr hooks
     \<and> length hooks = 11 \<and> distinct (map fst hooks)"
proof -
  have "namespaceDeletion_validate (namespaces demo_webhooks) (Some (protectedResources demo_webhook_config)) = Inr ()"
    by (simp add: namespaceDeletion_validate_def demo_webhooks_def demo_webhook_config_def demo_ns_env_def)
  then obtain hooks where h: "register_hooks demo_webhooks demo_webhook_config = Inr hooks" "length hooks = 11"
    by (simp add: register_hooks_def Let_def)
  then show ?thesis using validators_never_patch [OF h(1)] by blast
qed

end
