(* ===== verification/Commands.thy ===== *)
theory Commands
  imports Admission_Proxy Go_Net
begin

text \<open>
  The command of neco-admission (\<open>cmd/root.go\<close>, \<open>cmd/run.go\<close>) around the webhooks, and the server testhttpd. Reading
  the configuration file, the YAML decoder, the controller manager and \<open>time.ParseDuration\<close> are arguments.
\<close>

section \<open>neco-admission\<close>

text \<open>\<open>hooks.Config\<close> as far as the command passes it on, after the YAML decoder.\<close>

record hooks_config =
  hc_policies :: "HTTPProxyPolicy list"
  hc_protected :: "protected_resource list"

definition parseConfig ::
  "(string \<Rightarrow> (string, string) result) \<Rightarrow> (string \<Rightarrow> (string, hooks_config) result) \<Rightarrow> string
     \<Rightarrow> (string, hooks_config) result" where
  "parseConfig read_file unmarshal configPath =
     (case read_file configPath of
        Inl e \<Rightarrow> Inl e
      | Inr data \<Rightarrow> (case unmarshal data of Inl e \<Rightarrow> Inl e | Inr conf \<Rightarrow> Inr conf))"

record admission_flags =
  webhookAddr :: string
  httpProxyDefaultClass :: string
  configPath :: string
  imagePrefixes :: "string list"

text \<open>The settings of the handlers: flags, the switches that \<open>init\<close> reads from the environment, and the file.\<close>

definition webhook_settings :: "(string \<Rightarrow> string) \<Rightarrow> admission_flags \<Rightarrow> hooks_config \<Rightarrow> webhook_config" where
  "webhook_settings getenv fl conf =
     \<lparr>ephemeralStoragePermissive = (getenv ''VPOD_EPHEMERAL_STORAGE_PERMISSIVE'' = ''true''),
      cpuRequestReducerEnabled = (getenv ''VPOD_CPU_REQUEST_REDUCE_ENABLE'' = ''true''),
      validImagePrefixes = imagePrefixes fl,
      imagePermissive = (getenv ''VPOD_IMAGE_PERMISSIVE'' = ''true''),
      proxyMutator = \<lparr>defaultClass = httpProxyDefaultClass fl, Policies = hc_policies conf\<rparr>,
      protectedResources = hc_protected conf\<rparr>"

datatype admission_err = BadWebhookAddr string | BadConfig string | ManagerErr string | SetupErr string

text \<open>What the controller manager returns: when it is created, for the two health checks, and when it is started with the
  handlers on a host and port.\<close>

record admission_manager =
  am_new :: "string \<Rightarrow> int \<Rightarrow> string option"
  am_healthz :: "string option"
  am_readyz :: "string option"
  am_start :: "string option"

type_synonym hook_table = "(string \<times> (request \<Rightarrow> response)) list"

definition admission_run ::
  "('q, 'x, 'k, 'd, 'p) webhook_env \<Rightarrow> admission_manager \<Rightarrow> webhook_config \<Rightarrow> string \<Rightarrow> int
     \<Rightarrow> (admission_err, hook_table) result" where
  "admission_run e mgr c addr port =
     (case am_new mgr addr port of
        Some err \<Rightarrow> Inl (ManagerErr err)
      | None \<Rightarrow>
          (case register_hooks e c of
             Inl err \<Rightarrow> Inl (SetupErr err)
           | Inr hooks \<Rightarrow>
               (case am_healthz mgr of
                  Some err \<Rightarrow> Inl (ManagerErr err)
                | None \<Rightarrow>
                    (case am_readyz mgr of
                       Some err \<Rightarrow> Inl (ManagerErr err)
                     | None \<Rightarrow>
                         (case am_start mgr of
                            Some err \<Rightarrow> Inl (ManagerErr err)
                          | None \<Rightarrow> Inr hooks)))))"

text \<open>\<open>RunE\<close>: the address is split, the configuration is read, and \<open>run\<close> serves the handlers.\<close>

definition admission_RunE ::
  "(string \<Rightarrow> string) \<Rightarrow> (string \<Rightarrow> (string, string) result) \<Rightarrow> (string \<Rightarrow> (string, hooks_config) result)
     \<Rightarrow> ('q, 'x, 'k, 'd, 'p) webhook_env \<Rightarrow> admission_manager \<Rightarrow> admission_flags \<Rightarrow> (admission_err, hook_table) result" where
  "admission_RunE getenv read_file unmarshal e mgr fl =
     (case SplitHostPort (webhookAddr fl) of
        None \<Rightarrow> Inl (BadWebhookAddr (webhookAddr fl))
      | Some (h, p) \<Rightarrow>
          (case atoi p of
             None \<Rightarrow> Inl (BadWebhookAddr (webhookAddr fl))
           | Some numPort \<Rightarrow>
               (case parseConfig read_file unmarshal (configPath fl) of
                  Inl err \<Rightarrow> Inl (BadConfig err)
                | Inr conf \<Rightarrow> admission_run e mgr (webhook_settings getenv fl conf) h numPort)))"

text \<open>The webhooks serve nothing unless the file was read and decoded and every protected resource of it is known to the
  API server; the handlers then are those of the settings.\<close>

lemma register_hooks_validated:
  "register_hooks e c = Inr hooks \<Longrightarrow> namespaceDeletion_validate (namespaces e) (Some (protectedResources c)) = Inr ()"
  by (simp add: register_hooks_def Let_def split: sum.splits)

lemma admission_RunE_serves:
  assumes "admission_RunE getenv read_file unmarshal e mgr fl = Inr hooks"
  shows "\<exists>data conf. read_file (configPath fl) = Inr data \<and> unmarshal data = Inr conf
    \<and> namespaceDeletion_validate (namespaces e) (Some (hc_protected conf)) = Inr ()
    \<and> register_hooks e (webhook_settings getenv fl conf) = Inr hooks"
proof -
  obtain data conf where conf: "read_file (configPath fl) = Inr data" "unmarshal data = Inr conf"
      "register_hooks e (webhook_settings getenv fl conf) = Inr hooks"
    using assms by (auto simp: admission_RunE_def admission_run_def parseConfig_def split: option.splits sum.splits)
  with register_hooks_validated [OF conf(3)] show ?thesis by (simp add: webhook_settings_def)
qed

section \<open>testhttpd\<close>

text \<open>The handler: the query parameter \<open>sleep\<close> (empty when missing); the status, the body and the time slept.\<close>

definition testhttpd_handler :: "(string \<Rightarrow> int option) \<Rightarrow> string \<Rightarrow> nat \<times> string \<times> int" where
  "testhttpd_handler ParseDuration s =
     (if s \<noteq> '''' then
        (case ParseDuration s of
           None \<Rightarrow> (400, ''Please specify valid time'', 0)
         | Some d \<Rightarrow> (200, ''Hello after sleeping '' @ s, d))
      else (200, ''Hello'', 0))"

text \<open>\<open>main\<close>: it exits with status 1 when it cannot listen, or when it ends for another reason than a signal.\<close>

definition testhttpd_main :: "string option \<Rightarrow> (bool \<times> string option) option \<Rightarrow> unit process" where
  "testhttpd_main listen_err wait_err =
     (if listen_err \<noteq> None then Exited 1
      else case wait_err of
        None \<Rightarrow> Running ()
      | Some (signaled, err) \<Rightarrow> if err \<noteq> None \<and> \<not> signaled then Exited 1 else Exited 0)"

end
