(* ===== verification/Bucket_Provisioner.thy ===== *)
theory Bucket_Provisioner
  imports Prelude "HOL-Library.Char_ord" "HOL-Library.List_Lexorder"
begin

text \<open>
  The provisioner of \<open>bucket-provisioner-light\<close>: the validation of its settings
  (\<open>bucketprovisioner/config.go\<close>) and the operations of \<open>bucketprovisioner/provisioner.go\<close>, which
  create a bucket for a claim and delete a bucket with everything in it.

  The S3 client is a record of functions on a world of type \<open>'w\<close>; a fault, a timeout or the
  cancellation of the context is an error that a call returns. The loop over the pages of a listing
  need not end when others keep writing to the bucket, so it runs on fuel, one unit per page.
\<close>

section \<open>Settings\<close>

record Endpoint =
  ep_URL :: string
  ep_Host :: string
  ep_Port :: int

record Config =
  AccessKeyID :: string
  SecretAccessKey :: string
  SessionToken :: string
  cfg_Endpoint :: Endpoint
  RequestTimeout :: int

text \<open>What the code reads of a parsed URL: scheme, port text, host name, and the URL as text.\<close>

record parsed_url =
  url_Scheme :: string
  url_Port :: string
  url_Hostname :: string
  url_String :: string

definition NewConfig ::
  "(string \<Rightarrow> (string, parsed_url) result) \<Rightarrow> string \<Rightarrow> string \<Rightarrow> string \<Rightarrow> string \<Rightarrow> int
     \<Rightarrow> (string, Config) result" where
  "NewConfig url_parse accessKeyID secretAccessKey sessionToken s3Endpoint requestTimeout =
     (if accessKeyID = '''' \<or> secretAccessKey = ''''
      then Inl ''AWS_ACCESS_KEY_ID and AWS_SECRET_ACCESS_KEY must be set''
      else let e = trim_space s3Endpoint in
        if e = '''' then Inl ''S3_ENDPOINT must be set''
        else (case url_parse e of
                Inl err \<Rightarrow> Inl (''parse S3_ENDPOINT: '' @ err)
              | Inr u \<Rightarrow>
                  let port = (case atoi (url_Port u) of
                                Some p \<Rightarrow> Some p
                              | None \<Rightarrow> if url_Scheme u = ''http'' then Some 80
                                        else if url_Scheme u = ''https'' then Some 443 else None)
                  in (case port of
                        None \<Rightarrow> Inl ''invalid port or scheme in S3_ENDPOINT''
                      | Some p \<Rightarrow> Inr \<lparr>AccessKeyID = accessKeyID, SecretAccessKey = secretAccessKey,
                                     SessionToken = sessionToken,
                                     cfg_Endpoint = \<lparr>ep_URL = url_String u, ep_Host = url_Hostname u, ep_Port = p\<rparr>,
                                     RequestTimeout = requestTimeout\<rparr>)))"

section \<open>The client\<close>

datatype s3_err = NoSuchBucket | BucketAlreadyOwnedByYou | S3Err string

text \<open>
  A page of a listing is the list of its keys and the token of the next page, if any. A call to
  delete objects succeeds as a whole and may still name keys that it could not delete.
\<close>

record 'w s3_client =
  HeadBucket :: "string \<Rightarrow> 'w \<Rightarrow> (s3_err, unit) result \<times> 'w"
  CreateBucket :: "string \<Rightarrow> 'w \<Rightarrow> (s3_err, unit) result \<times> 'w"
  DeleteBucket :: "string \<Rightarrow> 'w \<Rightarrow> (s3_err, unit) result \<times> 'w"
  ListObjectsV2 :: "string \<Rightarrow> string option \<Rightarrow> 'w \<Rightarrow> (s3_err, string list \<times> string option) result \<times> 'w"
  DeleteObjects :: "string \<Rightarrow> string list \<Rightarrow> 'w \<Rightarrow> (s3_err, string list) result \<times> 'w"

record s3Provisioner =
  endpoint :: Endpoint
  accessKeyID :: string
  secretAccessKey :: string

definition dummyRegion :: string where
  "dummyRegion = ''dummy-region''"

text \<open>\<open>New\<close> fails when the SDK cannot load its configuration.\<close>

definition New :: "(string, unit) result \<Rightarrow> Config \<Rightarrow> (string, s3Provisioner) result" where
  "New load_default cfg =
     (case load_default of
        Inl e \<Rightarrow> Inl (''load aws config: '' @ e)
      | Inr _ \<Rightarrow> Inr \<lparr>endpoint = cfg_Endpoint cfg, accessKeyID = AccessKeyID cfg,
                      secretAccessKey = SecretAccessKey cfg\<rparr>)"

section \<open>Operations\<close>

record ObjectBucket =
  BucketHost :: string
  BucketPort :: int
  BucketName :: string
  Region :: string
  ob_AccessKeyID :: string
  ob_SecretAccessKey :: string

definition objectBucket :: "s3Provisioner \<Rightarrow> string \<Rightarrow> ObjectBucket" where
  "objectBucket p bucketName =
     \<lparr>BucketHost = ep_Host (endpoint p), BucketPort = ep_Port (endpoint p), BucketName = bucketName,
      Region = dummyRegion, ob_AccessKeyID = accessKeyID p, ob_SecretAccessKey = secretAccessKey p\<rparr>"

definition GenerateUserID :: "string \<Rightarrow> string \<Rightarrow> string" where
  "GenerateUserID obc_namespace obc_name = obc_namespace @ ''/'' @ obc_name"

definition ensureBucket :: "'w s3_client \<Rightarrow> string \<Rightarrow> 'w \<Rightarrow> (s3_err, unit) result \<times> 'w" where
  "ensureBucket c bucketName w =
     (case HeadBucket c bucketName w of
        (Inr _, w1) \<Rightarrow> (Inr (), w1)
      | (Inl _, w1) \<Rightarrow>
          (case CreateBucket c bucketName w1 of
             (Inr _, w2) \<Rightarrow> (Inr (), w2)
           | (Inl BucketAlreadyOwnedByYou, w2) \<Rightarrow> (Inr (), w2)
           | (Inl e, w2) \<Rightarrow> (Inl e, w2)))"

definition Provision ::
  "'w s3_client \<Rightarrow> s3Provisioner \<Rightarrow> string \<Rightarrow> 'w \<Rightarrow> (s3_err, ObjectBucket) result \<times> 'w" where
  "Provision c p bucketName w =
     (case ensureBucket c bucketName w of
        (Inl e, w1) \<Rightarrow> (Inl e, w1)
      | (Inr _, w1) \<Rightarrow> (Inr (objectBucket p bucketName), w1))"

text \<open>
  The loop of \<open>deleteAllObjects\<close>, at the page with the given token. The paginator has more pages
  at the start and as long as the last page came with a token.
\<close>

fun delete_pages ::
  "'w s3_client \<Rightarrow> string \<Rightarrow> nat \<Rightarrow> string option \<Rightarrow> 'w \<Rightarrow> ((s3_err, unit) result \<times> 'w) option" where
  "delete_pages c bucket 0 tok w = None"
| "delete_pages c bucket (Suc fuel) tok w =
     (case ListObjectsV2 c bucket tok w of
        (Inl NoSuchBucket, w1) \<Rightarrow> Some (Inr (), w1)
      | (Inl e, w1) \<Rightarrow> Some (Inl e, w1)
      | (Inr (contents, nxt), w1) \<Rightarrow>
          (let more = (\<lambda>w2. case nxt of None \<Rightarrow> Some (Inr (), w2)
                                       | Some t \<Rightarrow> delete_pages c bucket fuel (Some t) w2)
           in if length contents = 0 then more w1
              else (case DeleteObjects c bucket contents w1 of
                      (Inl e, w2) \<Rightarrow> Some (Inl e, w2)
                    | (Inr _, w2) \<Rightarrow> more w2)))"

definition deleteAllObjects ::
  "'w s3_client \<Rightarrow> nat \<Rightarrow> string \<Rightarrow> 'w \<Rightarrow> ((s3_err, unit) result \<times> 'w) option" where
  "deleteAllObjects c fuel bucket w = delete_pages c bucket fuel None w"

definition Delete_bucket ::
  "'w s3_client \<Rightarrow> nat \<Rightarrow> ObjectBucket \<Rightarrow> 'w \<Rightarrow> ((s3_err, unit) result \<times> 'w) option" where
  "Delete_bucket c fuel ob w =
     (let bucket = BucketName ob
      in case deleteAllObjects c fuel bucket w of
           None \<Rightarrow> None
         | Some (Inl e, w1) \<Rightarrow> Some (Inl e, w1)
         | Some (Inr _, w1) \<Rightarrow>
             (case DeleteBucket c bucket w1 of
                (Inr _, w2) \<Rightarrow> Some (Inr (), w2)
              | (Inl NoSuchBucket, w2) \<Rightarrow> Some (Inr (), w2)
              | (Inl e, w2) \<Rightarrow> Some (Inl e, w2)))"

definition Grant :: "(string, ObjectBucket) result" where
  "Grant = Inl ''not implemented''"

definition Revoke :: "(string, unit) result" where
  "Revoke = Inl ''not implemented''"

section \<open>The service\<close>

text \<open>
  What the code relies on of an S3 service, in terms of the buckets a world shows (\<open>view\<close>). Reads change nothing; a head
  request succeeds only for an existing bucket. Creating a bucket never touches an existing one: when it
  reports success, or that the caller owns the bucket already, the bucket is there, with the objects it had; when it
  reports another error, it may have taken effect or not (a request can time out after it was served, and the client
  retries). Likewise an empty bucket may be gone after a deletion that failed, and it is gone when the deletion reports
  success or that there is no such bucket. A page lists objects of the bucket. Deleting objects removes the keys it does
  not report, and when it fails, some of the keys it was given. No call changes another bucket.
\<close>

type_synonym buckets = "string \<rightharpoonup> string set"

definition kept_or_empty :: "string set option \<Rightarrow> string set option" where
  "kept_or_empty old = Some (case old of None \<Rightarrow> {} | Some S \<Rightarrow> S)"

definition create_ok :: "(s3_err, unit) result \<Rightarrow> string \<Rightarrow> buckets \<Rightarrow> buckets \<Rightarrow> bool" where
  "create_ok r b v v' \<longleftrightarrow> v' b \<in> {v b, kept_or_empty (v b)} \<and> (\<forall>b'. b' \<noteq> b \<longrightarrow> v' b' = v b')
     \<and> (r = Inr () \<or> r = Inl BucketAlreadyOwnedByYou \<longrightarrow> v' b \<noteq> None)"

definition delete_ok :: "(s3_err, unit) result \<Rightarrow> string \<Rightarrow> buckets \<Rightarrow> buckets \<Rightarrow> bool" where
  "delete_ok r b v v' \<longleftrightarrow> (v' b = v b \<or> v b = Some {} \<and> v' b = None) \<and> (\<forall>b'. b' \<noteq> b \<longrightarrow> v' b' = v b')
     \<and> (r = Inr () \<or> r = Inl NoSuchBucket \<longrightarrow> v' b = None)"

definition delete_objects_ok :: "(s3_err, string list) result \<Rightarrow> string \<Rightarrow> string list \<Rightarrow> buckets \<Rightarrow> buckets \<Rightarrow> bool" where
  "delete_objects_ok r b ks v v' \<longleftrightarrow> (\<forall>b'. b' \<noteq> b \<longrightarrow> v' b' = v b') \<and>
     (\<exists>gone. set gone \<subseteq> set ks \<and> v' b = map_option (\<lambda>S. S - set gone) (v b) \<and>
        (\<forall>failed. r = Inr failed \<longrightarrow> set ks - set failed \<subseteq> set gone))"

definition s3_ok :: "'w s3_client \<Rightarrow> ('w \<Rightarrow> buckets) \<Rightarrow> bool" where
  "s3_ok c view \<longleftrightarrow>
     (\<forall>b w r w'. HeadBucket c b w = (r, w') \<longrightarrow> view w' = view w \<and> (r = Inr () \<longrightarrow> view w b \<noteq> None)) \<and>
     (\<forall>b w r w'. CreateBucket c b w = (r, w') \<longrightarrow> create_ok r b (view w) (view w')) \<and>
     (\<forall>b w r w'. DeleteBucket c b w = (r, w') \<longrightarrow> delete_ok r b (view w) (view w')) \<and>
     (\<forall>b tok w r w'. ListObjectsV2 c b tok w = (r, w') \<longrightarrow> view w' = view w \<and>
        (r = Inl NoSuchBucket \<longrightarrow> view w b = None) \<and>
        (\<forall>ks nxt. r = Inr (ks, nxt) \<longrightarrow> (\<exists>S. view w b = Some S \<and> set ks \<subseteq> S))) \<and>
     (\<forall>b ks w r w'. DeleteObjects c b ks w = (r, w') \<longrightarrow> delete_objects_ok r b ks (view w) (view w'))"

text \<open>
  A service without faults: calls for an existing bucket succeed, objects are deleted, and an empty bucket can be deleted.
  A listing goes through the keys in their order: a token stands for the last key of the page it came with (\<open>pos\<close>), the
  next page goes on beyond it, and a page that is not the last one lists a key at least.
\<close>

definition beyond :: "(string \<Rightarrow> string) \<Rightarrow> string option \<Rightarrow> string set \<Rightarrow> string set" where
  "beyond pos tok S = (case tok of None \<Rightarrow> S | Some t \<Rightarrow> {k \<in> S. pos t < k})"

definition page_of :: "(string \<Rightarrow> string) \<Rightarrow> string set \<Rightarrow> string list \<Rightarrow> string option \<Rightarrow> bool" where
  "page_of pos rest ks nxt \<longleftrightarrow>
     (case nxt of
        None \<Rightarrow> set ks = rest
      | Some t \<Rightarrow> ks \<noteq> [] \<and> pos t = last ks \<and> set ks = {k \<in> rest. k \<le> last ks})"

definition s3_up :: "'w s3_client \<Rightarrow> ('w \<Rightarrow> buckets) \<Rightarrow> (string \<Rightarrow> string) \<Rightarrow> bool" where
  "s3_up c view pos \<longleftrightarrow>
     (\<forall>b tok w S. view w b = Some S \<longrightarrow>
        (\<exists>ks nxt w'. ListObjectsV2 c b tok w = (Inr (ks, nxt), w') \<and> page_of pos (beyond pos tok S) ks nxt)) \<and>
     (\<forall>b ks w. view w b \<noteq> None \<longrightarrow> (\<exists>w'. DeleteObjects c b ks w = (Inr [], w'))) \<and>
     (\<forall>b w. view w b = Some {} \<longrightarrow> (\<exists>w'. DeleteBucket c b w = (Inr (), w')))"

section \<open>Facts about the operations\<close>

lemma s3_okD:
  assumes "s3_ok c view"
  shows s3_head: "HeadBucket c b w = (r, w') \<Longrightarrow> view w' = view w \<and> (r = Inr () \<longrightarrow> view w b \<noteq> None)"
    and s3_create: "CreateBucket c b w = (r, w') \<Longrightarrow> create_ok r b (view w) (view w')"
    and s3_delete: "DeleteBucket c b w = (r, w') \<Longrightarrow> delete_ok r b (view w) (view w')"
    and s3_list: "ListObjectsV2 c b tok w = (lr, w') \<Longrightarrow> view w' = view w"
    and s3_delete_objects: "DeleteObjects c b ks w = (dr, w') \<Longrightarrow> delete_objects_ok dr b ks (view w) (view w')"
  using assms by (simp_all add: s3_ok_def)

text \<open>\<open>shrinks\<close>: nothing changes but that objects of one bucket, or the bucket itself, may be gone.\<close>

definition shrinks :: "string \<Rightarrow> buckets \<Rightarrow> buckets \<Rightarrow> bool" where
  "shrinks b v v' \<longleftrightarrow> (\<forall>b'. b' \<noteq> b \<longrightarrow> v' b' = v b') \<and> (\<forall>S'. v' b = Some S' \<longrightarrow> (\<exists>S. v b = Some S \<and> S' \<subseteq> S))"

lemma shrinks_refl [simp]: "shrinks b v v"
  by (simp add: shrinks_def)

lemma shrinks_trans: "shrinks b v v' \<Longrightarrow> shrinks b v' v'' \<Longrightarrow> shrinks b v v''"
  unfolding shrinks_def by fastforce

lemma delete_objects_shrinks:
  assumes "s3_ok c view" and "DeleteObjects c b ks w = (r, w')"
  shows "shrinks b (view w) (view w')"
  using s3_delete_objects [OF assms] by (cases "view w b") (auto simp: shrinks_def delete_objects_ok_def)

lemma delete_pages_shrinks:
  assumes "s3_ok c view" and "delete_pages c b fuel tok w = Some (r, w')"
  shows "shrinks b (view w) (view w')"
  using assms(2)
proof (induction fuel arbitrary: tok w)
  case (Suc fuel)
  obtain lr w1 where l: "ListObjectsV2 c b tok w = (lr, w1)" by force
  have v1: "view w1 = view w" using s3_list [OF assms(1) l] by simp
  show ?case
  proof (cases lr)
    case (Inl e)
    then show ?thesis using Suc.prems l v1 by (cases e) simp_all
  next
    case (Inr page)
    then obtain ks nxt where lr: "lr = Inr (ks, nxt)" by (cases page) simp
    obtain dr w2 where d: "DeleteObjects c b ks w1 = (dr, w2)" by force
    have s: "shrinks b (view w) (view w2)" using delete_objects_shrinks [OF assms(1) d] v1 by simp
    show ?thesis
      using Suc.prems l lr d v1 s Suc.IH [of _ w1] Suc.IH [of _ w2]
      by (auto simp: Let_def split: if_splits option.splits sum.splits intro: shrinks_trans)
  qed
qed simp

text \<open>Without faults the loop empties the bucket, a page at a time: at any page all remaining
  objects are beyond the token, and every page that is not the last removes one at least.\<close>

lemma delete_pages_empties:
  assumes "s3_ok c view" and "s3_up c view pos"
  shows "view w b = Some S \<Longrightarrow> finite S \<Longrightarrow> beyond pos tok S = S \<Longrightarrow> card S < fuel \<Longrightarrow>
    \<exists>w'. delete_pages c b fuel tok w = Some (Inr (), w') \<and> view w' = (view w)(b \<mapsto> {})"
proof (induction fuel arbitrary: tok w S)
  case (Suc fuel)
  obtain ks nxt w1 where l: "ListObjectsV2 c b tok w = (Inr (ks, nxt), w1)" and page: "page_of pos S ks nxt"
    using assms(2) Suc.prems(1,3) unfolding s3_up_def by metis
  have v1: "view w1 = view w" by (rule s3_list [OF assms(1) l])
  obtain w2 where d: "DeleteObjects c b ks w1 = (Inr [], w2)"
    using assms(2) Suc.prems(1) v1 unfolding s3_up_def by (metis option.distinct(1))
  obtain gone where "set gone \<subseteq> set ks" "set ks \<subseteq> set gone" "view w2 b = Some (S - set gone)"
    "\<forall>b'. b' \<noteq> b \<longrightarrow> view w2 b' = view w b'"
    using s3_delete_objects [OF assms(1) d] v1 Suc.prems(1) by (auto simp: delete_objects_ok_def)
  then have v2: "view w2 = (view w)(b \<mapsto> S - set ks)" by (auto simp: fun_eq_iff)
  show ?case
  proof (cases nxt)
    case None
    then have ks: "set ks = S" using page by (simp add: page_of_def)
    show ?thesis
    proof (cases "ks = []")
      case True
      then have "view w1 = (view w)(b \<mapsto> {})" using ks v1 Suc.prems(1) by (simp add: fun_upd_idem)
      then show ?thesis using l None True by (simp add: fun_eq_iff)
    next
      case False
      then show ?thesis using l d v2 ks None by (simp add: fun_eq_iff)
    qed
  next
    case (Some t)
    then have ks: "ks \<noteq> []" "pos t = last ks" "set ks = {k \<in> S. k \<le> pos t}" using page by (auto simp: page_of_def)
    let ?S = "S - set ks"
    have "x \<in> ?S \<Longrightarrow> pos t < x" for x using ks(3) by (simp add: not_le)
    then have beyond: "beyond pos (Some t) ?S = ?S" unfolding beyond_def option.case by blast
    have "pos t \<in> set ks" using ks(1,2) by simp
    moreover have "pos t \<in> S" using \<open>pos t \<in> set ks\<close> ks(3) by blast
    ultimately have "?S \<subset> S" by blast
    then have "card ?S < fuel" using Suc.prems(2,4) psubset_card_mono [of S ?S] by simp
    then have "\<exists>w'. delete_pages c b fuel (Some t) w2 = Some (Inr (), w') \<and> view w' = (view w2)(b \<mapsto> {})"
      using v2 Suc.prems(2) beyond by (intro Suc.IH [of w2 ?S "Some t"]) simp_all
    then obtain w' where "delete_pages c b fuel (Some t) w2 = Some (Inr (), w')" "view w' = (view w)(b \<mapsto> {})"
      unfolding v2 fun_upd_upd by blast
    then show ?thesis using l d Some ks(1) by (intro exI [of _ w'] conjI) simp_all
  qed
qed simp

lemma ensureBucket_result:
  assumes "s3_ok c view" and "ensureBucket c b w = (r, w')"
  shows "view w' \<in> {view w, (view w)(b := kept_or_empty (view w b))} \<and> (r = Inr () \<longrightarrow> view w' b \<noteq> None)"
proof -
  obtain hr w1 where h: "HeadBucket c b w = (hr, w1)" by force
  obtain cr w2 where k: "CreateBucket c b w1 = (cr, w2)" by force
  have v1: "view w1 = view w" "hr = Inr () \<Longrightarrow> view w b \<noteq> None" using s3_head [OF assms(1) h] by auto
  have s: "view w2 \<in> {view w1, (view w1)(b := kept_or_empty (view w1 b))}
      \<and> (cr = Inr () \<or> cr = Inl BucketAlreadyOwnedByYou \<longrightarrow> view w2 b \<noteq> None)"
  proof -
    have "view w2 = (view w1)(b := view w2 b)" using s3_create [OF assms(1) k] by (auto simp: create_ok_def fun_eq_iff)
    then show ?thesis using s3_create [OF assms(1) k] unfolding create_ok_def by (metis fun_upd_triv insert_iff singletonD)
  qed
  show ?thesis
  proof (cases hr)
    case (Inr x)
    then show ?thesis using assms(2) h v1 by (auto simp: ensureBucket_def)
  next
    case (Inl e)
    then show ?thesis
      using assms(2) h k s v1
      by (cases cr) (auto simp: ensureBucket_def split: s3_err.splits)
  qed
qed

section \<open>Properties\<close>

text \<open>
  C32. On a service without faults, deleting an object bucket comes to an end and succeeds: a loop
  over at most one page more than the bucket has objects empties the bucket, whatever the sizes of
  the pages and the form of the tokens, and afterwards the bucket is gone and every other bucket is as it was.
\<close>

theorem Delete_completes:
  assumes "s3_ok c view" and "s3_up c view pos" and "view w (BucketName ob) = Some S" and "finite S"
    and "card S < fuel"
  shows "\<exists>w'. Delete_bucket c fuel ob w = Some (Inr (), w') \<and> view w' = (view w)(BucketName ob := None)"
proof -
  let ?b = "BucketName ob"
  obtain w1 where w1: "deleteAllObjects c fuel ?b w = Some (Inr (), w1)" "view w1 = (view w)(?b \<mapsto> {})"
    using delete_pages_empties [OF assms(1-4) _ assms(5), of None]
    by (auto simp: deleteAllObjects_def beyond_def)
  obtain w2 where w2: "DeleteBucket c ?b w1 = (Inr (), w2)"
    using assms(2) w1(2) unfolding s3_up_def by (metis fun_upd_same)
  show ?thesis
    using w1 w2 s3_delete [OF assms(1) w2] by (auto simp: Delete_bucket_def delete_ok_def fun_eq_iff)
qed

text \<open>
  C33. Whatever calls fail, before or after they took effect, and in whatever state the service is: a deletion that
  reports success has removed the bucket; a deletion that reports an error has at most removed objects of that
  bucket, or the bucket itself; a provisioning that reports success has the bucket, with the objects it had before; a
  provisioning that reports an error has at most created the bucket, empty, if there was none; and no operation changes
  another bucket. In particular an operation can be repeated after an error: a provisioning keeps the objects, and a
  deletion has nothing to undo.
\<close>

theorem operations_sound:
  assumes "s3_ok c view"
  shows "(\<forall>w'. Delete_bucket c fuel ob w = Some (Inr (), w') \<longrightarrow> view w' = (view w)(BucketName ob := None)) \<and>
    (\<forall>e w'. Delete_bucket c fuel ob w = Some (Inl e, w') \<longrightarrow> shrinks (BucketName ob) (view w) (view w')) \<and>
    (\<forall>o1 w'. Provision c p b w = (Inr o1, w') \<longrightarrow> BucketName o1 = b \<and>
       view w' = (view w)(b \<mapsto> (case view w b of None \<Rightarrow> {} | Some S \<Rightarrow> S))) \<and>
    (\<forall>e w'. Provision c p b w = (Inl e, w') \<longrightarrow>
       view w' = view w \<or> view w b = None \<and> view w' = (view w)(b \<mapsto> {}))"
proof -
  let ?b = "BucketName ob"
  have del: "shrinks ?b (view w) (view w') \<and> (r = Inr () \<longrightarrow> view w' ?b = None)"
    if D: "Delete_bucket c fuel ob w = Some (r, w')" for r w'
  proof -
    obtain r1 w1 where p: "deleteAllObjects c fuel ?b w = Some (r1, w1)"
      using D by (cases "deleteAllObjects c fuel ?b w") (auto simp: Delete_bucket_def Let_def)
    have s: "shrinks ?b (view w) (view w1)"
      using delete_pages_shrinks [OF assms p [unfolded deleteAllObjects_def]] .
    obtain dr w2 where d: "DeleteBucket c ?b w1 = (dr, w2)" by force
    have sd: "shrinks ?b (view w1) (view w2)" "dr = Inr () \<or> dr = Inl NoSuchBucket \<Longrightarrow> view w2 ?b = None"
      using s3_delete [OF assms d] by (auto simp: delete_ok_def shrinks_def)
    show ?thesis
      using D p d sd shrinks_trans [OF s sd(1)] s
      by (cases r1; cases dr) (auto simp: Delete_bucket_def Let_def split: s3_err.splits)
  qed
  then have "view w' = (view w)(?b := None)" if "Delete_bucket c fuel ob w = Some (Inr (), w')" for w'
    using that by (fastforce simp: shrinks_def fun_eq_iff)
  moreover have "shrinks ?b (view w) (view w')" if "Delete_bucket c fuel ob w = Some (Inl e, w')" for e w'
    using del that by blast
  moreover obtain er ew where e: "ensureBucket c b w = (er, ew)" by force
  have prov: "Provision c p b w = (case er of Inl x \<Rightarrow> (Inl x, ew) | Inr _ \<Rightarrow> (Inr (objectBucket p b), ew))"
    by (simp add: Provision_def e split: sum.split)
  note ens = ensureBucket_result [OF assms e]
  have "BucketName o1 = b \<and> view w' = (view w)(b \<mapsto> (case view w b of None \<Rightarrow> {} | Some S \<Rightarrow> S))"
    if "Provision c p b w = (Inr o1, w')" for o1 w'
    using that ens by (cases er) (auto simp: prov objectBucket_def kept_or_empty_def fun_eq_iff)
  moreover have "view w' = view w \<or> view w b = None \<and> view w' = (view w)(b \<mapsto> {})" if "Provision c p b w = (Inl x, w')" for x w'
    using that ens by (cases er; cases "view w b") (auto simp: prov kept_or_empty_def)
  ultimately show ?thesis by blast
qed

subsection \<open>Witnesses\<close>

text \<open>A service in memory that lists one key per page; the token is the key, marked.\<close>

definition mem_list :: "string option \<Rightarrow> string list \<Rightarrow> string list \<times> string option" where
  "mem_list tok S =
     (let ks = sort (filter (\<lambda>k. case tok of None \<Rightarrow> True | Some t \<Rightarrow> tl t < k) S)
      in if length (remdups ks) \<le> 1 then (ks, None) else ([hd ks], Some (CHR ''>'' # hd ks)))"

definition mem_client :: "(string \<rightharpoonup> string list) s3_client" where
  "mem_client =
     \<lparr>HeadBucket = (\<lambda>b w. (if w b = None then Inl (S3Err ''404'') else Inr (), w)),
      CreateBucket = (\<lambda>b w. if w b = None then (Inr (), w(b \<mapsto> [])) else (Inl BucketAlreadyOwnedByYou, w)),
      DeleteBucket = (\<lambda>b w. case w b of None \<Rightarrow> (Inl NoSuchBucket, w)
                         | Some S \<Rightarrow> if S = [] then (Inr (), w(b := None)) else (Inl (S3Err ''BucketNotEmpty''), w)),
      ListObjectsV2 = (\<lambda>b tok w. case w b of None \<Rightarrow> (Inl NoSuchBucket, w) | Some S \<Rightarrow> (Inr (mem_list tok S), w)),
      DeleteObjects = (\<lambda>b ks w. case w b of None \<Rightarrow> (Inl NoSuchBucket, w)
                         | Some S \<Rightarrow> (Inr [], w(b \<mapsto> filter (\<lambda>k. k \<notin> set ks) S)))\<rparr>"

definition mem_view :: "(string \<rightharpoonup> string list) \<Rightarrow> buckets" where
  "mem_view w = (\<lambda>b. map_option set (w b))"

lemma mem_list_page: "mem_list tok S = (ks, nxt) \<Longrightarrow> page_of tl (beyond tl tok (set S)) ks nxt"
proof -
  assume m: "mem_list tok S = (ks, nxt)"
  define xs where "xs = sort (filter (\<lambda>k. case tok of None \<Rightarrow> True | Some t \<Rightarrow> tl t < k) S)"
  have xs: "sorted xs" "set xs = beyond tl tok (set S)"
    by (auto simp: xs_def beyond_def split: option.splits)
  show ?thesis
  proof (cases "length (remdups xs) \<le> 1")
    case True
    then show ?thesis using m xs by (simp add: mem_list_def page_of_def flip: xs_def)
  next
    case False
    then obtain x ys where x: "xs = x # ys" by (cases xs) simp_all
    then have low: "{x} = {k \<in> set xs. k \<le> x}" using xs(1) by auto
    have "ks = [x]" "nxt = Some (CHR ''>'' # x)"
      using m False by (simp_all add: mem_list_def x Let_def flip: xs_def)
    then show ?thesis using low unfolding page_of_def xs(2) [symmetric] by simp
  qed
qed

lemma mem_list_keys:
  assumes "mem_list tok S = (ks, nxt)"
  shows "set ks \<subseteq> set S"
proof -
  have "set ks \<subseteq> beyond tl tok (set S)" using mem_list_page [OF assms] by (auto simp: page_of_def split: option.splits)
  then show ?thesis by (auto simp: beyond_def split: option.splits)
qed

lemma mem_client_ok: "s3_ok mem_client mem_view"
  unfolding s3_ok_def
proof (intro conjI allI impI, goal_cases)
  case (7 b tok w r w' ks nxt)
  then obtain S where "w b = Some S" "mem_list tok S = (ks, nxt)"
    by (auto simp: mem_client_def split: option.splits)
  then show ?case using mem_list_keys by (auto simp: mem_view_def)
next
  case (8 b ks w r w')
  then show ?case unfolding delete_objects_ok_def
    by (intro conjI exI [of _ ks]) (auto simp: mem_client_def mem_view_def split: option.splits)
qed (auto simp: mem_client_def mem_view_def create_ok_def delete_ok_def kept_or_empty_def split: option.splits if_splits)

lemma mem_client_up: "s3_up mem_client mem_view tl"
proof -
  have "\<exists>ks nxt w'. ListObjectsV2 mem_client b tok w = (Inr (ks, nxt), w') \<and> page_of tl (beyond tl tok S) ks nxt"
    if v: "mem_view w b = Some S" for b tok w S
  proof -
    obtain L where L: "w b = Some L" "S = set L" using v by (cases "w b") (auto simp: mem_view_def)
    obtain ks nxt where m: "mem_list tok L = (ks, nxt)" by force
    with mem_list_page [OF m] L show ?thesis by (simp add: mem_client_def)
  qed
  then show ?thesis unfolding s3_up_def by (auto simp: mem_client_def mem_view_def)
qed

definition demo_ob :: ObjectBucket where
  "demo_ob = \<lparr>BucketHost = ''s3'', BucketPort = 80, BucketName = ''logs'', Region = dummyRegion,
     ob_AccessKeyID = ''id'', ob_SecretAccessKey = ''key''\<rparr>"

definition demo_buckets :: "string \<rightharpoonup> string list" where
  "demo_buckets = [''logs'' \<mapsto> [''b'', ''a''], ''other'' \<mapsto> [''c'']]"

theorem Delete_completes_witness:
  "\<exists>w'. Delete_bucket mem_client 3 demo_ob demo_buckets = Some (Inr (), w')
     \<and> mem_view w' = (mem_view demo_buckets)(''logs'' := None)"
proof -
  have "mem_view demo_buckets (BucketName demo_ob) = Some {''a'', ''b''}"
    by (auto simp: mem_view_def demo_buckets_def demo_ob_def)
  then show ?thesis
    using Delete_completes [OF mem_client_ok mem_client_up, of demo_buckets demo_ob "{''a'', ''b''}" 3]
    by (simp add: demo_ob_def)
qed

theorem operations_sound_witness:
  "\<exists>w'. Provision mem_client \<lparr>endpoint = \<lparr>ep_URL = ''http://s3'', ep_Host = ''s3'', ep_Port = 80\<rparr>, accessKeyID = ''id'', secretAccessKey = ''key''\<rparr>
          ''new'' demo_buckets = (Inr (demo_ob\<lparr>BucketName := ''new''\<rparr>), w')
     \<and> mem_view w' = (mem_view demo_buckets)(''new'' \<mapsto> {})"
proof -
  let ?p = "\<lparr>endpoint = \<lparr>ep_URL = ''http://s3'', ep_Host = ''s3'', ep_Port = 80\<rparr>, accessKeyID = ''id'', secretAccessKey = ''key''\<rparr>"
  obtain w' where p: "Provision mem_client ?p ''new'' demo_buckets = (Inr (demo_ob\<lparr>BucketName := ''new''\<rparr>), w')"
    by (simp add: Provision_def ensureBucket_def mem_client_def demo_buckets_def objectBucket_def demo_ob_def)
  have "mem_view demo_buckets ''new'' = None" by (simp add: mem_view_def demo_buckets_def)
  then show ?thesis
    using operations_sound [OF mem_client_ok, of 0 demo_ob demo_buckets ?p "''new''"] p by simp
qed

section \<open>The program\<close>

record bucket_flags =
  fl_accessKeyID :: string
  fl_secretAccessKey :: string
  fl_sessionToken :: string
  fl_s3Endpoint :: string
  fl_requestTimeout :: int
  fl_provisionerName :: string
  fl_watchNamespace :: string

text \<open>The defaults of the flags that come from the environment.\<close>

definition bucket_flag_defaults :: "(string \<Rightarrow> string) \<Rightarrow> bucket_flags" where
  "bucket_flag_defaults getenv =
     \<lparr>fl_accessKeyID = getenv ''AWS_ACCESS_KEY_ID'', fl_secretAccessKey = getenv ''AWS_SECRET_ACCESS_KEY'',
      fl_sessionToken = getenv ''AWS_SESSION_TOKEN'', fl_s3Endpoint = getenv ''S3_ENDPOINT'',
      fl_requestTimeout = 15 * 1000000000, fl_provisionerName = ''bucket-provisioner-light'',
      fl_watchNamespace = getenv ''WATCH_NAMESPACE''\<rparr>"

text \<open>\<open>main\<close> panics on every error. The library that watches the claims is a parameter: whether it can be created, and how
  its run ends.\<close>

record claim_library =
  new_provisioner :: "string \<Rightarrow> string \<Rightarrow> string option"
  run_result :: "(string, unit) result option"

definition bucket_main ::
  "(string \<Rightarrow> (string, parsed_url) result) \<Rightarrow> (string, unit) result \<Rightarrow> claim_library \<Rightarrow> bucket_flags \<Rightarrow> s3Provisioner process" where
  "bucket_main url_parse load_default lib fl =
     (case NewConfig url_parse (fl_accessKeyID fl) (fl_secretAccessKey fl) (fl_sessionToken fl) (fl_s3Endpoint fl)
             (fl_requestTimeout fl) of
        Inl e \<Rightarrow> Panicked e
      | Inr cfg \<Rightarrow>
          (case New load_default cfg of
             Inl e \<Rightarrow> Panicked e
           | Inr prov \<Rightarrow>
               (case new_provisioner lib (fl_provisionerName fl) (fl_watchNamespace fl) of
                  Some e \<Rightarrow> Panicked e
                | None \<Rightarrow>
                    (case run_result lib of
                       None \<Rightarrow> Running prov
                     | Some (Inl e) \<Rightarrow> Panicked e
                     | Some (Inr _) \<Rightarrow> Exited 0))))"

text \<open>A running provisioner has credentials and an endpoint with a port; without them the program does not start.\<close>

lemma bucket_main_running:
  assumes "bucket_main url_parse load_default lib fl = Running prov"
  shows "accessKeyID prov = fl_accessKeyID fl \<and> secretAccessKey prov = fl_secretAccessKey fl
    \<and> fl_accessKeyID fl \<noteq> '''' \<and> fl_secretAccessKey fl \<noteq> ''''
    \<and> (\<exists>u. url_parse (trim_space (fl_s3Endpoint fl)) = Inr u \<and> ep_Host (endpoint prov) = url_Hostname u
        \<and> ep_Port (endpoint prov) =
          (case atoi (url_Port u) of Some p \<Rightarrow> p | None \<Rightarrow> if url_Scheme u = ''http'' then 80 else 443))"
  using assms
  by (auto simp: bucket_main_def NewConfig_def New_def Let_def split: sum.splits option.splits if_splits)

end
