(* ===== verification/Squid_Exporter.thy ===== *)
theory Squid_Exporter
  imports Prelude
begin

text \<open>
  The converters of \<open>squid-exporter/convert.go\<close>, which turn three pages of Squid's cache manager into
  counters, and the request handler of \<open>main.go\<close> that runs them.

  The counters live in the registry of a metrics library, a map from names to values that refuses
  an invalid name with a panic. Floating-point numbers are an abstract type: parsing, the division
  by 100 and the scan of the text \<open>5min: x%, 60min: y%\<close> are arguments.
\<close>

section \<open>Reading a page\<close>

definition newline :: char where "newline = CHR 0x0A"

definition drop_cr :: "string \<Rightarrow> string" where
  "drop_cr s = (if s \<noteq> [] \<and> last s = CHR 0x0D then butlast s else s)"

text \<open>The lines of a \<open>bufio.Scanner\<close>: a final line is dropped when it is empty, and the scanner stops at a line that
  does not fit into its buffer of \<open>bufio.MaxScanTokenSize\<close> bytes together with its newline.\<close>

definition MaxScanTokenSize :: nat where
  "MaxScanTokenSize = 64 * 1024"

definition scan_lines :: "string \<Rightarrow> string list" where
  "scan_lines s =
     (let ls = split_on newline s
      in map drop_cr (takeWhile (\<lambda>l. length l < MaxScanTokenSize) (if last ls = [] then butlast ls else ls)))"

lemma dropWhile_shorter: "dropWhile p s = c # cs \<Longrightarrow> length (dropWhile q cs) < length s"
  using length_dropWhile_le [of p s] length_dropWhile_le [of q cs] by simp

text \<open>\<open>regexp.MustCompile(`\s+`).Split(s, -1)\<close>.\<close>

definition re_space :: "char \<Rightarrow> bool" where
  "re_space c \<longleftrightarrow> (of_char c :: nat) \<in> {9, 10, 12, 13, 32}"

function split_spaces :: "string \<Rightarrow> string list" where
  "split_spaces s =
     (case dropWhile (\<lambda>c. \<not> re_space c) s of
        [] \<Rightarrow> [s]
      | c # cs \<Rightarrow> takeWhile (\<lambda>c. \<not> re_space c) s # split_spaces (dropWhile re_space cs))"
  by pat_completeness auto

termination
  by (relation "measure length") (auto dest: dropWhile_shorter)

declare split_spaces.simps [simp del]

section \<open>The registry\<close>

record 'f squid_env =
  ParseFloat :: "string \<Rightarrow> 'f option"
  zero_float :: 'f
  div100 :: "'f \<Rightarrow> 'f"
  scan_minutes :: "string \<Rightarrow> ('f \<times> 'f) option"
  valid_metric :: "string \<Rightarrow> bool"

datatype conv_err = ConvErr string | MetricPanic

record 'f squid_state =
  counters :: "string \<rightharpoonup> 'f"
  sq_log :: "string list"

type_synonym 'f conv = "(conv_err, unit) result \<times> 'f squid_state"

text \<open>\<open>GetOrCreateFloatCounter(name)\<close>, and the same followed by \<open>Set\<close>.\<close>

definition get_counter :: "'f squid_env \<Rightarrow> string \<Rightarrow> 'f squid_state \<Rightarrow> 'f conv" where
  "get_counter env n st =
     (if \<not> valid_metric env n then (Inl MetricPanic, st)
      else (Inr (), if counters st n = None then st\<lparr>counters := (counters st)(n \<mapsto> zero_float env)\<rparr> else st))"

definition set_value :: "'f squid_env \<Rightarrow> string \<Rightarrow> 'f \<Rightarrow> 'f squid_state \<Rightarrow> 'f conv" where
  "set_value env n v st =
     (if \<not> valid_metric env n then (Inl MetricPanic, st)
      else (Inr (), st\<lparr>counters := (counters st)(n \<mapsto> v)\<rparr>))"

definition log_error :: "string \<Rightarrow> 'f squid_state \<Rightarrow> 'f squid_state" where
  "log_error msg st = st\<lparr>sq_log := sq_log st @ [msg]\<rparr>"

definition and_next :: "'f conv \<Rightarrow> ('f squid_state \<Rightarrow> 'f conv) \<Rightarrow> 'f conv" where
  "and_next r f = (case r of (Inl e, st) \<Rightarrow> (Inl e, st) | (Inr _, st) \<Rightarrow> f st)"

fun line_loop :: "(string \<Rightarrow> 'f squid_state \<Rightarrow> 'f conv) \<Rightarrow> string list \<Rightarrow> 'f squid_state \<Rightarrow> 'f conv" where
  "line_loop f [] st = (Inr (), st)"
| "line_loop f (l # ls) st = and_next (f l st) (line_loop f ls)"

section \<open>Counters\<close>

definition counter_name :: "string \<Rightarrow> string" where
  "counter_name n = ''squid_counters_'' @ n @ ''_total''"

definition counter_line :: "'f squid_env \<Rightarrow> string \<Rightarrow> 'f squid_state \<Rightarrow> 'f conv" where
  "counter_line env line st =
     (case split_on CHR ''='' line of
        [a, b] \<Rightarrow>
          (let metricName = trim_space (replace_all CHR ''.'' ''_'' a)
           in case ParseFloat env (trim_space b) of
                None \<Rightarrow> (Inl (ConvErr b), st)
              | Some v \<Rightarrow> set_value env (counter_name metricName) v st)
      | _ \<Rightarrow> (Inr (), log_error ''failed to parse squid counters'' st))"

definition ConvertSquidCounter :: "'f squid_env \<Rightarrow> string \<Rightarrow> 'f squid_state \<Rightarrow> 'f conv" where
  "ConvertSquidCounter env body st = line_loop (counter_line env) (drop 1 (scan_lines body)) st"

section \<open>Info\<close>

definition minutes_label :: "string \<Rightarrow> string \<Rightarrow> string" where
  "minutes_label n m = n @ ''{duration_minutes='' @ [CHR 0x22] @ m @ [CHR 0x22] @ ''}''"

definition fnFloat :: "'f squid_env \<Rightarrow> string \<Rightarrow> string \<Rightarrow> 'f squid_state \<Rightarrow> 'f conv" where
  "fnFloat env n val st =
     and_next (get_counter env n st) (\<lambda>st1.
       case ParseFloat env val of
         None \<Rightarrow> (Inl (ConvErr val), st1)
       | Some v \<Rightarrow> set_value env n v st1)"

definition fnMinutes :: "'f squid_env \<Rightarrow> string \<Rightarrow> string \<Rightarrow> 'f squid_state \<Rightarrow> 'f conv" where
  "fnMinutes env n val st =
     (case scan_minutes env val of
        None \<Rightarrow> (Inl (ConvErr val), st)
      | Some (v5, v60) \<Rightarrow>
          and_next (set_value env (minutes_label n ''5'') (div100 env v5) st)
            (set_value env (minutes_label n ''60'') (div100 env v60)))"

text \<open>\<open>strings.CutSuffix(s, suffix)\<close>.\<close>

definition cut_suffix :: "string \<Rightarrow> string \<Rightarrow> string option" where
  "cut_suffix s suf =
     (if length suf \<le> length s \<and> drop (length s - length suf) s = suf
      then Some (take (length s - length suf) s) else None)"

definition fnUsedFree :: "'f squid_env \<Rightarrow> string \<Rightarrow> string \<Rightarrow> 'f squid_state \<Rightarrow> 'f conv" where
  "fnUsedFree env n val st =
     (case str_cut CHR '','' val of
        None \<Rightarrow> (Inl (ConvErr (''inappropriate format for '' @ n @ '': '' @ val)), st)
      | Some (v1, _) \<Rightarrow>
          (case cut_suffix (trim_space v1) ''% used'' of
             None \<Rightarrow> (Inl (ConvErr (''inappropriate format for '' @ n @ '': '' @ val)), st)
           | Some v \<Rightarrow>
               and_next (get_counter env n st) (\<lambda>st1.
                 case ParseFloat env v of
                   None \<Rightarrow> (Inl (ConvErr v), st1)
                 | Some x \<Rightarrow> set_value env n (div100 env x) st1)))"

datatype info_format = FormatMinutes | FormatUsedFree | FormatFloat

definition info_titles :: "string \<rightharpoonup> info_format \<times> string" where
  "info_titles = map_of
     [(''Hits as % of all requests'', FormatMinutes, ''squid_info_cache_hit_requests_ratio''),
      (''Hits as % of bytes sent'', FormatMinutes, ''squid_info_cache_hit_bytes_ratio''),
      (''Memory hits as % of hit requests'', FormatMinutes, ''squid_info_cache_memory_hit_requests_ratio''),
      (''Disk hits as % of hit requests'', FormatMinutes, ''squid_info_cache_disk_hit_requests_ratio''),
      (''Storage Swap capacity'', FormatUsedFree, ''squid_info_cache_disk_swap_capacity_ratio''),
      (''Storage Mem capacity'', FormatUsedFree, ''squid_info_cache_memory_swap_capacity_ratio''),
      (''Maximum number of file descriptors'', FormatFloat, ''squid_info_filefd_maximum''),
      (''Largest file desc currently in use'', FormatFloat, ''squid_info_filefd_used_peak''),
      (''Number of file desc currently in use'', FormatFloat, ''squid_info_filefd_used''),
      (''Files queued for open'', FormatFloat, ''squid_info_filefd_queued''),
      (''Available number of file descriptors'', FormatFloat, ''squid_info_filefd_available''),
      (''Reserved number of file descriptors'', FormatFloat, ''squid_info_filefd_reserved''),
      (''Store Disk files open'', FormatFloat, ''squid_info_filefd_store_disk'')]"

definition info_line :: "'f squid_env \<Rightarrow> string \<Rightarrow> 'f squid_state \<Rightarrow> 'f conv" where
  "info_line env line st =
     (case str_cut CHR '':'' line of
        None \<Rightarrow> (Inr (), st)
      | Some (title, val) \<Rightarrow>
          (case info_titles (trim_space title) of
             None \<Rightarrow> (Inr (), st)
           | Some (FormatMinutes, n) \<Rightarrow> fnMinutes env n (trim_space val) st
           | Some (FormatUsedFree, n) \<Rightarrow> fnUsedFree env n (trim_space val) st
           | Some (FormatFloat, n) \<Rightarrow> fnFloat env n (trim_space val) st))"

definition ConvertSquidInfo :: "'f squid_env \<Rightarrow> string \<Rightarrow> 'f squid_state \<Rightarrow> 'f conv" where
  "ConvertSquidInfo env body st = line_loop (info_line env) (scan_lines body) st"

section \<open>Service times\<close>

text \<open>The replacer for names: blanks and dashes become underscores, parentheses go away.\<close>

definition name_replacer :: "string \<Rightarrow> string" where
  "name_replacer s =
     concat (map (\<lambda>c. if c = CHR '' '' \<or> c = CHR ''-'' then ''_''
                      else if c = CHR ''('' \<or> c = CHR '')'' then [] else [c]) s)"

definition service_name :: "string \<Rightarrow> string \<Rightarrow> string \<Rightarrow> string" where
  "service_name n percentile minutes =
     ''squid_service_times_'' @ n @ ''{percentile='' @ [CHR 0x22] @ percentile @ [CHR 0x22]
       @ '', duration_minutes='' @ [CHR 0x22] @ minutes @ [CHR 0x22] @ ''}''"

definition service_line :: "'f squid_env \<Rightarrow> string \<Rightarrow> 'f squid_state \<Rightarrow> 'f conv" where
  "service_line env line st =
     (case split_on CHR '':'' line of
        [a, b] \<Rightarrow>
          (let metricName = name_replacer (to_lower (trim_space a))
           in case split_spaces (dropWhile (\<lambda>c. c = CHR '' '') b) of
                [p, v5, v60] \<Rightarrow>
                  (let percentile = replace_all CHR ''%'' [] (trim_space p)
                   in case ParseFloat env (trim_space v5) of
                        None \<Rightarrow> (Inl (ConvErr v5), st)
                      | Some x5 \<Rightarrow>
                          (case ParseFloat env (trim_space v60) of
                             None \<Rightarrow> (Inl (ConvErr v60), st)
                           | Some x60 \<Rightarrow>
                               and_next (set_value env (service_name metricName percentile ''5'') x5 st)
                                 (set_value env (service_name metricName percentile ''60'') x60)))
              | _ \<Rightarrow> (Inr (), log_error ''failed to parse squid service_times'' st))
      | _ \<Rightarrow> (Inr (), log_error ''failed to split squid service_times'' st))"

definition ConvertSquidServiceTimes :: "'f squid_env \<Rightarrow> string \<Rightarrow> 'f squid_state \<Rightarrow> 'f conv" where
  "ConvertSquidServiceTimes env body st = line_loop (service_line env) (drop 1 (scan_lines body)) st"

section \<open>The request handler\<close>

record squid_client =
  GetCounters :: "(string, string) result"
  GetInfo :: "(string, string) result"
  GetServiceTimes :: "(string, string) result"

definition page_url :: "string \<Rightarrow> int \<Rightarrow> string \<Rightarrow> string" where
  "page_url host port page =
     ''http://'' @ host @ '':'' @ itoa port @ ''/squid-internal-mgr/'' @ page"

text \<open>A client that gets the three pages over HTTP.\<close>

definition NewSquidClient :: "(string \<Rightarrow> (string, string) result) \<Rightarrow> string \<Rightarrow> int \<Rightarrow> squid_client" where
  "NewSquidClient http_get host port =
     \<lparr>GetCounters = http_get (page_url host port ''counters''),
      GetInfo = http_get (page_url host port ''info''),
      GetServiceTimes = http_get (page_url host port ''service_times'')\<rparr>"

text \<open>The first component tells whether a panic left the handler; what it has changed before stays.\<close>

definition requestHandler :: "'f squid_env \<Rightarrow> squid_client \<Rightarrow> 'f squid_state \<Rightarrow> bool \<times> 'f squid_state" where
  "requestHandler env c st =
     (case GetCounters c of Inl _ \<Rightarrow> (False, log_error ''error getting squid counters'' st) | Inr body1 \<Rightarrow>
     (case ConvertSquidCounter env body1 st of
        (Inl MetricPanic, st1) \<Rightarrow> (True, st1)
      | (Inl (ConvErr _), st1) \<Rightarrow> (False, log_error ''failed to convert squid counters'' st1)
      | (Inr _, st1) \<Rightarrow>
     (case GetInfo c of Inl _ \<Rightarrow> (False, log_error ''error getting squid info'' st1) | Inr body2 \<Rightarrow>
     (case ConvertSquidInfo env body2 st1 of
        (Inl MetricPanic, st2) \<Rightarrow> (True, st2)
      | (Inl (ConvErr _), st2) \<Rightarrow> (False, log_error ''failed to convert squid info'' st2)
      | (Inr _, st2) \<Rightarrow>
     (case GetServiceTimes c of Inl _ \<Rightarrow> (False, log_error ''error getting squid service_times'' st2) | Inr body3 \<Rightarrow>
     (case ConvertSquidServiceTimes env body3 st2 of
        (Inl MetricPanic, st3) \<Rightarrow> (True, st3)
      | (Inl (ConvErr _), st3) \<Rightarrow>
          (False, log_error ''successfully converted squid metrics''
                    (log_error ''failed to convert squid service_time'' st3))
      | (Inr _, st3) \<Rightarrow> (False, log_error ''successfully converted squid metrics'' st3)))))))"

section \<open>Facts\<close>

lemma split_on_lines:
  "\<forall>l \<in> set ls. c \<notin> set l \<Longrightarrow> split_on c (concat (map (\<lambda>l. l @ [c]) ls)) = ls @ [[]]"
  by (induction ls) (simp_all add: split_on_append)

lemma scan_lines_prefix:
  "\<forall>l \<in> set ls. newline \<notin> set l \<Longrightarrow>
   scan_lines (concat (map (\<lambda>l. l @ [newline]) ls)) = map drop_cr (takeWhile (\<lambda>l. length l < MaxScanTokenSize) ls)"
  by (simp add: scan_lines_def split_on_lines)

lemma scan_lines_unlines:
  "\<forall>l \<in> set ls. newline \<notin> set l \<and> length l < MaxScanTokenSize \<Longrightarrow>
   scan_lines (concat (map (\<lambda>l. l @ [newline]) ls)) = map drop_cr ls"
proof -
  assume h: "\<forall>l \<in> set ls. newline \<notin> set l \<and> length l < MaxScanTokenSize"
  then have fits: "takeWhile (\<lambda>l. length l < MaxScanTokenSize) ls = ls" by (simp add: takeWhile_eq_all_conv)
  show ?thesis by (subst scan_lines_prefix) (use h in simp, simp only: fits)
qed

text \<open>A line that is too long ends the page without an error: what follows it is ignored.\<close>

lemma overlong_line_ends:
  assumes "\<forall>l \<in> set (header # ls @ long # rest). newline \<notin> set l" and "MaxScanTokenSize \<le> length long"
    and "\<forall>l \<in> set (header # ls). length l < MaxScanTokenSize"
  shows "ConvertSquidCounter env (concat (map (\<lambda>l. l @ [newline]) (header # ls @ long # rest))) st
    = ConvertSquidCounter env (concat (map (\<lambda>l. l @ [newline]) (header # ls))) st"
proof -
  have "takeWhile (\<lambda>l. length l < MaxScanTokenSize) (header # ls @ long # rest) = header # ls"
    using assms(2,3) by (simp add: takeWhile_append)
  then have "scan_lines (concat (map (\<lambda>l. l @ [newline]) (header # ls @ long # rest)))
      = scan_lines (concat (map (\<lambda>l. l @ [newline]) (header # ls)))"
    using assms(1,3) scan_lines_prefix [of "header # ls @ long # rest"] scan_lines_unlines [of "header # ls"] by simp
  then show ?thesis by (simp only: ConvertSquidCounter_def)
qed

lemma trim_no_space:
  assumes "list_all (\<lambda>c. \<not> is_space c) s"
  shows "trim_space (s @ '' '') = s" and "trim_space (CHR '' '' # s) = s"
proof -
  have "is_space CHR '' ''" by (simp add: is_space_def)
  moreover have "dropWhile is_space s = s" "dropWhile is_space (rev s) = rev s"
    using assms hd_in_set [of s] last_in_set [of s]
    by (auto simp: dropWhile_eq_self_iff list_all_iff hd_rev simp del: hd_in_set last_in_set)
  moreover have "dropWhile is_space (s @ '' '') = (if s = [] then [] else s @ '' '')"
    using assms calculation(1) by (cases s) simp_all
  ultimately show "trim_space (s @ '' '') = s" and "trim_space (CHR '' '' # s) = s"
    by (simp_all add: trim_space_def trim_by_def)
qed

lemma replace_all_append: "replace_all c r (a @ b) = replace_all c r a @ replace_all c r b"
  by (simp add: replace_all_def)

lemma replace_all_no_space:
  "list_all (\<lambda>c. \<not> is_space c) s \<Longrightarrow> list_all (\<lambda>c. \<not> is_space c) (replace_all CHR ''.'' ''_'' s)"
  by (induction s) (auto simp: replace_all_def is_space_def)

lemma drop_cr_id: "last s \<noteq> CHR 0x0D \<Longrightarrow> drop_cr s = s"
  by (simp add: drop_cr_def)

text \<open>A counters page as Squid prints it: a line with the sample time and one line per counter.\<close>

definition counter_text :: "string \<times> string \<Rightarrow> string" where
  "counter_text p = fst p @ '' = '' @ snd p"

definition counters_page :: "string \<Rightarrow> (string \<times> string) list \<Rightarrow> string" where
  "counters_page header cs = concat (map (\<lambda>l. l @ [newline]) (header # map counter_text cs))"

definition clean_text :: "string \<Rightarrow> bool" where
  "clean_text s \<longleftrightarrow> list_all (\<lambda>c. \<not> is_space c) s \<and> CHR ''='' \<notin> set s"

text \<open>The metric a counter is exported as.\<close>

definition counter_metric :: "string \<Rightarrow> string" where
  "counter_metric n = counter_name (replace_all CHR ''.'' ''_'' n)"

lemma clean_chars:
  assumes "clean_text s"
  shows "newline \<notin> set s" and "CHR 0x0D \<notin> set s" and "list_all (\<lambda>c. \<not> is_space c) s" and "CHR ''='' \<notin> set s"
proof -
  have "is_space newline" "is_space CHR 0x0D" by (simp_all add: is_space_def newline_def)
  then show "newline \<notin> set s" and "CHR 0x0D \<notin> set s" and "list_all (\<lambda>c. \<not> is_space c) s" and "CHR ''='' \<notin> set s"
    using assms by (auto simp: clean_text_def list_all_iff)
qed

lemma counter_text_line:
  assumes "clean_text n" and "clean_text t"
  shows "newline \<notin> set (counter_text (n, t))" and "drop_cr (counter_text (n, t)) = counter_text (n, t)"
proof -
  have "last (counter_text (n, t)) \<noteq> CHR 0x0D"
    using clean_chars(2) [OF assms(2)] last_in_set [of t]
    by (cases "t = []") (auto simp: counter_text_def simp del: last_in_set)
  then show "drop_cr (counter_text (n, t)) = counter_text (n, t)" by (rule drop_cr_id)
  show "newline \<notin> set (counter_text (n, t))"
    using clean_chars(1) [OF assms(1)] clean_chars(1) [OF assms(2)]
    by (simp add: counter_text_def) (simp add: newline_def)
qed

lemma counter_line_clean:
  assumes "clean_text n" and "clean_text t" and "ParseFloat env t = Some v" and "valid_metric env (counter_metric n)"
  shows "counter_line env (counter_text (n, t)) st = (Inr (), st\<lparr>counters := (counters st)(counter_metric n \<mapsto> v)\<rparr>)"
proof -
  have "counter_text (n, t) = (n @ '' '') @ CHR ''='' # (CHR '' '' # t)" by (simp add: counter_text_def)
  moreover have "split_on CHR ''='' ((n @ '' '') @ CHR ''='' # (CHR '' '' # t)) = [n @ '' '', CHR '' '' # t]"
    using clean_chars(4) [OF assms(1)] clean_chars(4) [OF assms(2)]
    by (subst split_on_append) (simp_all add: split_on_no_sep)
  moreover have "trim_space (replace_all CHR ''.'' ''_'' (n @ '' '')) = replace_all CHR ''.'' ''_'' n"
    using trim_no_space(1) [OF replace_all_no_space [OF clean_chars(3) [OF assms(1)]]]
    by (simp add: replace_all_append) (simp add: replace_all_def)
  moreover have "trim_space (CHR '' '' # t) = t"
    by (rule trim_no_space(2) [OF clean_chars(3) [OF assms(2)]])
  ultimately show ?thesis
    using assms(3,4) by (simp add: counter_line_def set_value_def counter_metric_def)
qed

definition counter_values :: "'f squid_env \<Rightarrow> (string \<times> string) list \<Rightarrow> string \<rightharpoonup> 'f" where
  "counter_values env cs = map_of (rev (map (\<lambda>(n, t). (counter_metric n, the (ParseFloat env t))) cs))"

definition page_ok :: "'f squid_env \<Rightarrow> (string \<times> string) list \<Rightarrow> bool" where
  "page_ok env cs \<longleftrightarrow>
     list_all (\<lambda>(n, t). clean_text n \<and> clean_text t \<and> length (counter_text (n, t)) < MaxScanTokenSize
       \<and> ParseFloat env t \<noteq> None \<and> valid_metric env (counter_metric n)) cs"

lemma counter_loop_clean:
  "page_ok env cs \<Longrightarrow> line_loop (counter_line env) (map counter_text cs) st =
     (Inr (), st\<lparr>counters := counters st ++ counter_values env cs\<rparr>)"
proof (induction cs arbitrary: st)
  case Nil
  then show ?case by (simp add: counter_values_def)
next
  case (Cons c cs)
  obtain n t where c: "c = (n, t)" by force
  obtain v where v: "clean_text n" "clean_text t" "ParseFloat env t = Some v" "valid_metric env (counter_metric n)"
    using Cons.prems c by (auto simp: page_ok_def)
  have "page_ok env cs" using Cons.prems by (simp add: page_ok_def)
  then show ?case
    using Cons.IH c v(3)
    by (simp add: counter_line_clean [OF v] and_next_def counter_values_def map_add_assoc)
qed

section \<open>Property\<close>

text \<open>
  C34. The counters survive the way through the page: converting the page that Squid prints for a
  list of counters, in lines of less than 64 KiB, sets, for each counter, the metric of its name (with dots replaced) to the
  value of its text, the last one if a name is repeated, and changes no other metric.
\<close>

theorem counters_roundtrip:
  assumes "newline \<notin> set header" and "length header < MaxScanTokenSize" and "page_ok env cs"
  shows "ConvertSquidCounter env (counters_page header cs) st =
    (Inr (), st\<lparr>counters := counters st ++ counter_values env cs\<rparr>)"
proof -
  have lines: "newline \<notin> set (counter_text c) \<and> length (counter_text c) < MaxScanTokenSize
      \<and> drop_cr (counter_text c) = counter_text c" if "c \<in> set cs" for c
  proof -
    obtain n t where c: "c = (n, t)" by force
    then show ?thesis using assms(3) that counter_text_line [of n t] by (auto simp: page_ok_def list_all_iff)
  qed
  then have "scan_lines (counters_page header cs) = map drop_cr (header # map counter_text cs)"
    using assms(1,2) unfolding counters_page_def by (intro scan_lines_unlines) auto
  also have "\<dots> = drop_cr header # map counter_text cs" using lines by simp
  finally show ?thesis
    using counter_loop_clean [OF assms(3)] by (simp add: ConvertSquidCounter_def)
qed

text \<open>A library that reads digits and takes every name.\<close>

definition digits_env :: "nat squid_env" where
  "digits_env = \<lparr>ParseFloat = parse_uint 53, zero_float = 0, div100 = (\<lambda>x. x div 100),
     scan_minutes = (\<lambda>_. None), valid_metric = (\<lambda>_. True)\<rparr>"

theorem counters_roundtrip_witness:
  "ConvertSquidCounter digits_env (counters_page ''sample_time = 0'' [(''client_http.requests'', ''42'')])
      \<lparr>counters = Map.empty, sq_log = []\<rparr>
   = (Inr (), \<lparr>counters = [counter_metric ''client_http.requests'' \<mapsto> 42], sq_log = []\<rparr>)"
proof -
  have p: "parse_uint 53 ''42'' = Some 42"
    by (simp add: parse_uint_def is_digit_def read_nat_def digit_val_def)
  have ok: "page_ok digits_env [(''client_http.requests'', ''42'')]"
    by (simp add: page_ok_def clean_text_def is_space_def digits_env_def p counter_text_def MaxScanTokenSize_def)
  show ?thesis
    using counters_roundtrip [OF _ _ ok, of "''sample_time = 0''" "\<lparr>counters = Map.empty, sq_log = []\<rparr>"]
    by (simp add: counter_values_def newline_def MaxScanTokenSize_def) (simp add: digits_env_def p)
qed

section \<open>The program\<close>

record squid_config =
  SquidHost :: string
  SquidPort :: int
  MetricsPort :: int

text \<open>The values of the flags that are not given on the command line.\<close>

definition default_config :: squid_config where
  "default_config = \<lparr>SquidHost = ''localhost'', SquidPort = 3128, MetricsPort = 9100\<rparr>"

text \<open>The handler of \<open>/metrics\<close>: the counters are refreshed, then all of them are written; a panic ends the request
  without a page, and \<open>net/http\<close> goes on with the next one.\<close>

definition metrics_handler ::
  "'f squid_env \<Rightarrow> (string \<Rightarrow> (string, string) result) \<Rightarrow> squid_config \<Rightarrow> 'f squid_state
     \<Rightarrow> (string \<rightharpoonup> 'f) option \<times> 'f squid_state" where
  "metrics_handler env http_get cfg st =
     (case requestHandler env (NewSquidClient http_get (SquidHost cfg) (SquidPort cfg)) st of
        (panicked, st') \<Rightarrow> (if panicked then None else Some (counters st'), st'))"

text \<open>When Squid cannot be reached at all, the page shows the values of the last successful request: nothing tells the reader
  that they are old.\<close>

lemma metrics_handler_stale:
  assumes "\<And>url. http_get url = Inl e"
  shows "fst (metrics_handler env http_get cfg st) = Some (counters st)
    \<and> counters (snd (metrics_handler env http_get cfg st)) = counters st"
  using assms by (simp add: metrics_handler_def requestHandler_def NewSquidClient_def log_error_def)

end
