(* ===== verification/Ceph_Exporter.thy ===== *)
theory Ceph_Exporter
  imports Json_Text Complex_Main
begin

text \<open>
  The exporter of \<open>ceph-extra-exporter\<close>: the rules of \<open>main.go\<close>, the executer that runs the command
  of a rule and the jq filters of its metrics (\<open>executer.go\<close>), and the collector that hands the
  values to Prometheus (\<open>collector.go\<close>).

  Running a command is an argument. Numbers are exact. \<open>MustNewConstMetric\<close> panics when the number of
  label values is not that of the label keys, which is the value \<^term>\<open>None\<close>.
\<close>

section \<open>Rules\<close>

datatype value_type = CounterValue | GaugeValue

record metric =
  metricType :: value_type
  metric_help :: string
  jqFilter :: string
  labelKeys :: "string list"

datatype ruleTarget = ruleTargetCommon | ruleTargetRGW | ruleTargetRBD | ruleTargetOther string

record rule =
  rule_name :: string
  command :: "string list"
  target :: ruleTarget
  metrics :: "string \<rightharpoonup> metric"

text \<open>\<open>rgw_filter f\<close> is the filter that reads field \<open>f\<close> of the main usage of every bucket.\<close>

definition rgw_filter :: "string \<Rightarrow> string" where
  "rgw_filter f =
     (let main = ''.usage.'' @ [CHR 0x22] @ ''rgw.main'' @ [CHR 0x22]
      in ''[.[] | select('' @ main @ '' != null) | {value: '' @ main @ ''.'' @ f @ '', labels: [.bucket]}]'')"

definition rules :: "rule list" where
  "rules =
     [\<lparr>rule_name = ''osd_pool_autoscale_status'',
       command = [''ceph'', ''osd'', ''pool'', ''autoscale-status'', ''-f'', ''json''],
       target = ruleTargetCommon,
       metrics = [''pool_count'' \<mapsto>
         \<lparr>metricType = GaugeValue, metric_help = ''pool count of `ceph osd pool autoscale-status` command'',
          jqFilter = ''[{value: . | length, labels: []}]'', labelKeys = []\<rparr>]\<rparr>,
      \<lparr>rule_name = ''rgw_bucket_stats'',
       command = [''radosgw-admin'', ''bucket'', ''stats''],
       target = ruleTargetRGW,
       metrics = [
         ''s3_object_count'' \<mapsto>
           \<lparr>metricType = GaugeValue, metric_help = ''s3 object count of `radosgw-admin bucket stats` command'',
            jqFilter = rgw_filter ''num_objects'', labelKeys = [''bucket'']\<rparr>,
         ''s3_size_bytes'' \<mapsto>
           \<lparr>metricType = GaugeValue, metric_help = ''sum of s3 objects bytes `radosgw-admin bucket stats` command'',
            jqFilter = rgw_filter ''size'', labelKeys = [''bucket'']\<rparr>,
         ''s3_size_rounded_bytes'' \<mapsto>
           \<lparr>metricType = GaugeValue,
            metric_help = ''sum of s3 objects bytes rounded to 4KBytes `radosgw-admin bucket stats` command'',
            jqFilter = rgw_filter ''size_actual'', labelKeys = [''bucket'']\<rparr>]\<rparr>,
      \<lparr>rule_name = ''osd_df'',
       command = [''ceph'', ''osd'', ''df'', ''-f'', ''json''],
       target = ruleTargetCommon,
       metrics = [''crush_weight'' \<mapsto>
         \<lparr>metricType = GaugeValue, metric_help = ''WEIGHT of `ceph osd df` command'',
          jqFilter = ''[.nodes[] | {value: .crush_weight, labels: [.name]}]'',
          labelKeys = [''ceph_daemon'']\<rparr>]\<rparr>,
      \<lparr>rule_name = ''rbd_task_list'',
       command = [''ceph'', ''rbd'', ''task'', ''list'', ''-f'', ''json''],
       target = ruleTargetRBD,
       metrics = [''count'' \<mapsto>
         \<lparr>metricType = GaugeValue, metric_help = ''RBD task count of `ceph rbd task list` command'',
          jqFilter = ''group_by(.refs.action) | map({value: length, labels: [.[0].refs.action]})'',
          labelKeys = [''action'']\<rparr>]\<rparr>]"

record exportOptions =
  rgwMetrics :: bool
  rbdMetrics :: bool

fun enabled :: "exportOptions \<Rightarrow> ruleTarget \<Rightarrow> bool" where
  "enabled opts ruleTargetCommon = True"
| "enabled opts ruleTargetRGW = rgwMetrics opts"
| "enabled opts ruleTargetRBD = rbdMetrics opts"
| "enabled opts (ruleTargetOther _) = False"

section \<open>Values\<close>

record metricValue =
  labelValues :: "string list"
  mv_value :: rat

text \<open>The value of a number in JSON; one that rounds to an infinite \<open>float64\<close> is a type error.\<close>

definition literal_rat :: "string \<Rightarrow> rat option" where
  "literal_rat l =
     (let neg = (l \<noteq> [] \<and> hd l = CHR ''-''); s = (if neg then tl l else l);
          i = takeWhile is_digit s; s1 = dropWhile is_digit s;
          point = (s1 \<noteq> [] \<and> hd s1 = CHR ''.'');
          f = (if point then takeWhile is_digit (tl s1) else []);
          s2 = (if point then dropWhile is_digit (tl s1) else s1);
          m = of_nat (read_nat (i @ f)) * (if neg then - 1 else 1)
      in case (if s2 = [] then Some 0 else atoi (tl s2)) of
           None \<Rightarrow> None
         | Some e \<Rightarrow> Some (m * (if int (length f) \<le> e then 10 ^ nat (e - int (length f))
                               else 1 / 10 ^ nat (int (length f) - e))))"

definition parse_float :: "string \<Rightarrow> rat option" where
  "parse_float l =
     (case literal_rat l of None \<Rightarrow> None | Some x \<Rightarrow> if \<bar>x\<bar> < 2 ^ 1024 - 2 ^ 970 then Some x else None)"

text \<open>A pointer to a number: nil for a null.\<close>

definition dec_float_ptr :: "rat option decoder" where
  "dec_float_ptr t old = (case t of TNull \<Rightarrow> Some None | TNum l \<Rightarrow> map_option Some (parse_float l) | _ \<Rightarrow> None)"

text \<open>The anonymous struct of \<open>UnmarshalJSON\<close>: the labels, where nil differs from empty, and the value.\<close>

definition value_fields :: "(string \<times> (string list option \<times> rat option) decoder) list" where
  "value_fields =
     [(''labels'', struct_field fst (\<lambda>a r. (a, snd r)) (dec_nilable dec_string [])),
      (''value'', struct_field snd (\<lambda>a r. (fst r, a)) dec_float_ptr)]"

definition UnmarshalJSON :: "jtree \<Rightarrow> (string, metricValue) result" where
  "UnmarshalJSON b =
     (case dec_struct value_fields b (None, None) of
        None \<Rightarrow> Inl ''cannot unmarshal into Go value''
      | Some (None, _) \<Rightarrow> Inl ''no labels found''
      | Some (Some ls, None) \<Rightarrow> Inl ''no value found''
      | Some (Some ls, Some v) \<Rightarrow> Inr \<lparr>labelValues = ls, mv_value = v\<rparr>)"

fun unmarshal_elements :: "jtree list \<Rightarrow> (string, metricValue list) result" where
  "unmarshal_elements [] = Inr []"
| "unmarshal_elements (v # vs) =
     (case UnmarshalJSON v of
        Inl e \<Rightarrow> Inl e
      | Inr mv \<Rightarrow> (case unmarshal_elements vs of Inl e \<Rightarrow> Inl e | Inr mvs \<Rightarrow> Inr (mv # mvs)))"

text \<open>\<open>json.Unmarshal(result, &mv)\<close> for a slice of metric values; a null leaves it empty.\<close>

definition unmarshal_values :: "string \<Rightarrow> (string, metricValue list) result" where
  "unmarshal_values result =
     (case parse_json result of
        None \<Rightarrow> Inl ''invalid JSON''
      | Some TNull \<Rightarrow> Inr []
      | Some (TArr vs) \<Rightarrow> unmarshal_elements vs
      | Some _ \<Rightarrow> Inl ''cannot unmarshal into Go value of type []main.metricValue'')"

section \<open>The executer\<close>

record cephExecuter =
  ex_rule :: rule
  metricValues :: "string \<rightharpoonup> metricValue list"
  failedCounter :: "string \<rightharpoonup> nat"

definition newExecuter :: "rule \<Rightarrow> cephExecuter" where
  "newExecuter r = \<lparr>ex_rule = r, metricValues = Map.empty,
     failedCounter = [''command'' \<mapsto> 0, ''jq'' \<mapsto> 0, ''parse'' \<mapsto> 0]\<rparr>"

text \<open>\<open>m[k] += 1\<close> on a Go map: a missing key counts from zero.\<close>

definition bump :: "string \<Rightarrow> (string \<rightharpoonup> nat) \<Rightarrow> (string \<rightharpoonup> nat)" where
  "bump k m = m(k \<mapsto> (case m k of None \<Rightarrow> 0 | Some n \<Rightarrow> n) + 1)"

record run_env =
  executeCommand :: "string list \<Rightarrow> string option \<Rightarrow> (string, string) result"

text \<open>The loop over the metrics of the rule, in the order of the range over the map.\<close>

fun metrics_loop ::
  "run_env \<Rightarrow> (string \<rightharpoonup> metric) \<Rightarrow> string \<Rightarrow> string list \<Rightarrow> (string \<rightharpoonup> metricValue list) \<Rightarrow> (string \<rightharpoonup> nat)
     \<Rightarrow> (string \<rightharpoonup> metricValue list) \<times> (string \<rightharpoonup> nat)" where
  "metrics_loop env ms jsonBytes [] values failed = (values, failed)"
| "metrics_loop env ms jsonBytes (n # ns) values failed =
     (case ms n of
        None \<Rightarrow> metrics_loop env ms jsonBytes ns values failed
      | Some m \<Rightarrow>
          (case executeCommand env [''jq'', ''-r'', jqFilter m] (Some jsonBytes) of
             Inl _ \<Rightarrow> metrics_loop env ms jsonBytes ns values (bump ''jq'' failed)
           | Inr result \<Rightarrow>
               (case unmarshal_values result of
                  Inl _ \<Rightarrow> metrics_loop env ms jsonBytes ns values (bump ''parse'' failed)
                | Inr mv \<Rightarrow> metrics_loop env ms jsonBytes ns (values(n \<mapsto> mv)) failed)))"

definition update :: "run_env \<Rightarrow> string list \<Rightarrow> cephExecuter \<Rightarrow> cephExecuter" where
  "update env order ce =
     (case executeCommand env (command (ex_rule ce)) None of
        Inl _ \<Rightarrow> ce\<lparr>failedCounter := bump ''command'' (failedCounter ce), metricValues := Map.empty\<rparr>
      | Inr jsonBytes \<Rightarrow>
          (case metrics_loop env (metrics (ex_rule ce)) jsonBytes order Map.empty (failedCounter ce) of
             (values, failed) \<Rightarrow> ce\<lparr>failedCounter := failed, metricValues := values\<rparr>))"

section \<open>The collector\<close>

text \<open>\<open>prometheus.BuildFQName\<close> of three parts that may be empty, apart from the name.\<close>

definition fq_name :: "string \<Rightarrow> string \<Rightarrow> string \<Rightarrow> string" where
  "fq_name ns subsystem nm =
     (if nm = '''' then '''' else join ''_'' (filter (\<lambda>s. s \<noteq> '''') [ns, subsystem, nm]))"

record desc =
  fqName :: string
  desc_help :: string
  variableLabels :: "string list"
  constLabels :: "(string \<times> string) list"

record cephCollector =
  describe :: "string \<rightharpoonup> desc"
  describeFailed :: desc

definition newCollector :: "rule \<Rightarrow> string \<Rightarrow> cephCollector" where
  "newCollector r ns =
     \<lparr>describe = (\<lambda>n. map_option (\<lambda>m. \<lparr>fqName = fq_name ns (rule_name r) n, desc_help = metric_help m,
                       variableLabels = labelKeys m, constLabels = []\<rparr>) (metrics r n)),
      describeFailed = \<lparr>fqName = fq_name ns '''' ''failed_total'', desc_help = ''count of metrics export failure'',
        variableLabels = [''reason''], constLabels = [(''subsystem'', rule_name r)]\<rparr>\<rparr>"

definition Describe :: "cephCollector \<Rightarrow> string list \<Rightarrow> desc list" where
  "Describe cc order = List.map_filter (describe cc) order @ [describeFailed cc]"

record sample =
  sample_name :: string
  sample_labels :: "(string \<times> string) list"
  sample_type :: value_type
  sample_value :: rat

definition MustNewConstMetric :: "desc \<Rightarrow> value_type \<Rightarrow> rat \<Rightarrow> string list \<Rightarrow> sample option" where
  "MustNewConstMetric d t v ls =
     (if length ls = length (variableLabels d)
      then Some \<lparr>sample_name = fqName d, sample_labels = zip (variableLabels d) ls @ constLabels d,
                 sample_type = t, sample_value = v\<rparr>
      else None)"

fun collect_values :: "desc \<Rightarrow> metric \<Rightarrow> metricValue list \<Rightarrow> sample list option" where
  "collect_values d m [] = Some []"
| "collect_values d m (mv # mvs) =
     (case MustNewConstMetric d (metricType m) (mv_value mv) (labelValues mv) of
        None \<Rightarrow> None
      | Some s \<Rightarrow> map_option (Cons s) (collect_values d m mvs))"

text \<open>The loops over the two maps; a name without a description would be a nil dereference.\<close>

fun collect_metrics ::
  "cephCollector \<Rightarrow> cephExecuter \<Rightarrow> string list \<Rightarrow> sample list option" where
  "collect_metrics cc ce [] = Some []"
| "collect_metrics cc ce (n # ns) =
     (case (metricValues ce n, describe cc n, metrics (ex_rule ce) n) of
        (None, _, _) \<Rightarrow> collect_metrics cc ce ns
      | (Some mvs, Some d, Some m) \<Rightarrow>
          (case collect_values d m mvs of
             None \<Rightarrow> None
           | Some ss \<Rightarrow> map_option ((@) ss) (collect_metrics cc ce ns))
      | _ \<Rightarrow> None)"

fun collect_failures :: "cephCollector \<Rightarrow> (string \<rightharpoonup> nat) \<Rightarrow> string list \<Rightarrow> sample list option" where
  "collect_failures cc failed [] = Some []"
| "collect_failures cc failed (k # ks) =
     (case failed k of
        None \<Rightarrow> collect_failures cc failed ks
      | Some n \<Rightarrow>
          (case MustNewConstMetric (describeFailed cc) CounterValue (of_nat n) [k] of
             None \<Rightarrow> None
           | Some s \<Rightarrow> map_option (Cons s) (collect_failures cc failed ks)))"

definition Collect :: "cephCollector \<Rightarrow> cephExecuter \<Rightarrow> string list \<Rightarrow> string list \<Rightarrow> sample list option" where
  "Collect cc ce names reasons =
     (case collect_metrics cc ce names of
        None \<Rightarrow> None
      | Some ss \<Rightarrow> map_option ((@) ss) (collect_failures cc (failedCounter ce) reasons))"

text \<open>The rules that \<open>startServer\<close> runs, each with a new executer and a collector of its own.\<close>

definition started :: "rule list \<Rightarrow> exportOptions \<Rightarrow> (cephExecuter \<times> cephCollector) list" where
  "started rs opts =
     map (\<lambda>r. (newExecuter r, newCollector r ''ceph_extra'')) (filter (\<lambda>r. enabled opts (target r)) rs)"

section \<open>What an update should achieve\<close>

definition reasons3 :: "string set" where
  "reasons3 = {''command'', ''jq'', ''parse''}"

text \<open>The outcome of one metric on the output of the command: its values or the reason of a failure.\<close>

definition metric_outcome :: "run_env \<Rightarrow> string \<Rightarrow> metric \<Rightarrow> (string, metricValue list) result" where
  "metric_outcome env jsonBytes m =
     (case executeCommand env [''jq'', ''-r'', jqFilter m] (Some jsonBytes) of
        Inl _ \<Rightarrow> Inl ''jq''
      | Inr result \<Rightarrow>
          (case unmarshal_values result of Inl _ \<Rightarrow> Inl ''parse'' | Inr mv \<Rightarrow> Inr mv))"

definition fresh_values :: "rule \<Rightarrow> run_env \<Rightarrow> string \<rightharpoonup> metricValue list" where
  "fresh_values r env n =
     (case executeCommand env (command r) None of
        Inl _ \<Rightarrow> None
      | Inr jsonBytes \<Rightarrow>
          (case metrics r n of
             None \<Rightarrow> None
           | Some m \<Rightarrow> (case metric_outcome env jsonBytes m of Inl _ \<Rightarrow> None | Inr mv \<Rightarrow> Some mv)))"

definition failures :: "rule \<Rightarrow> string \<Rightarrow> run_env \<Rightarrow> nat" where
  "failures r reason env =
     (case executeCommand env (command r) None of
        Inl _ \<Rightarrow> if reason = ''command'' then 1 else 0
      | Inr jsonBytes \<Rightarrow>
          card {n. \<exists>m. metrics r n = Some m \<and> metric_outcome env jsonBytes m = Inl reason})"

text \<open>The states of an executer, with the environments of its updates, the last one first.\<close>

inductive ceph_reach :: "rule \<Rightarrow> run_env list \<Rightarrow> cephExecuter \<Rightarrow> bool" for r where
  ceph_start: "ceph_reach r [] (newExecuter r)"
| ceph_update: "ceph_reach r envs ce \<Longrightarrow> range_order (metrics r) order
    \<Longrightarrow> ceph_reach r (env # envs) (update env order ce)"

definition last_values :: "rule \<Rightarrow> run_env list \<Rightarrow> string \<rightharpoonup> metricValue list" where
  "last_values r envs = (case envs of [] \<Rightarrow> Map.empty | env # _ \<Rightarrow> fresh_values r env)"

definition total_failures :: "rule \<Rightarrow> run_env list \<Rightarrow> string \<Rightarrow> nat" where
  "total_failures r envs reason = sum_list (map (failures r reason) envs)"

section \<open>Facts\<close>

lemma bump_Some: "m k = Some c \<Longrightarrow> bump k m = m(k \<mapsto> c + 1)"
  by (simp add: bump_def)

lemma outcome_reason: "metric_outcome env b m = Inl e \<Longrightarrow> e = ''jq'' \<or> e = ''parse''"
  by (auto simp: metric_outcome_def split: sum.splits)

text \<open>One turn of the loop, by the outcome of the metric.\<close>

lemma metrics_loop_step:
  assumes "ms n = Some m"
  shows "metrics_loop env ms b (n # ns) vals failed =
    (case metric_outcome env b m of
       Inl e \<Rightarrow> metrics_loop env ms b ns vals (bump e failed)
     | Inr mv \<Rightarrow> metrics_loop env ms b ns (vals(n \<mapsto> mv)) failed)"
  using assms by (simp add: metric_outcome_def split: sum.split)

lemma metrics_loop_values:
  assumes "distinct ns" and "set ns \<subseteq> dom ms"
  shows "fst (metrics_loop env ms b ns vals failed) n =
    (if n \<in> set ns then (case metric_outcome env b (the (ms n)) of Inl _ \<Rightarrow> vals n | Inr mv \<Rightarrow> Some mv)
     else vals n)"
  using assms
proof (induction ns arbitrary: vals failed)
  case (Cons k ks)
  then obtain m where m: "ms k = Some m" by auto
  show ?case
    unfolding metrics_loop_step [of ms k, OF m]
    using Cons m by (auto split: sum.split)
qed simp

lemma metrics_loop_failed:
  assumes "set ns \<subseteq> dom ms" and "reasons3 \<subseteq> dom failed"
  shows "snd (metrics_loop env ms b ns vals failed) e =
    map_option (\<lambda>c. c + length (filter (\<lambda>n. metric_outcome env b (the (ms n)) = Inl e) ns)) (failed e)"
  using assms
proof (induction ns arbitrary: vals failed)
  case Nil
  then show ?case by (simp add: option.map_ident)
next
  case (Cons k ks)
  then obtain m where m: "ms k = Some m" by auto
  show ?case
  proof (cases "metric_outcome env b m")
    case (Inr mv)
    then show ?thesis
      unfolding metrics_loop_step [of ms k, OF m]
      using Cons.IH [of failed] Cons.prems m by simp
  next
    case (Inl e')
    then have "e' \<in> dom failed" using Cons.prems(2) outcome_reason [OF Inl] by (auto simp: reasons3_def)
    then obtain c where c: "failed e' = Some c" by auto
    then have bump: "bump e' failed e = (if e = e' then Some (c + 1) else failed e)" by (simp add: bump_def)
    have "reasons3 \<subseteq> dom (bump e' failed)" using Cons.prems(2) by (auto simp: bump_def)
    then have ih: "snd (metrics_loop env ms b ks vals (bump e' failed)) e =
      map_option (\<lambda>c. c + length (filter (\<lambda>n. metric_outcome env b (the (ms n)) = Inl e) ks)) (bump e' failed e)"
      using Cons.prems(1) by (intro Cons.IH) simp_all
    show ?thesis
      unfolding metrics_loop_step [of ms k, OF m] Inl sum.case ih bump by (simp add: m Inl c)
  qed
qed

lemma update_values:
  assumes "range_order (metrics r) order" and "ex_rule ce = r"
  shows "metricValues (update env order ce) = fresh_values r env"
proof (cases "executeCommand env (command r) None")
  case (Inl e)
  then show ?thesis using assms(2) by (simp add: update_def fresh_values_def fun_eq_iff)
next
  case (Inr b)
  have "distinct order" "set order = dom (metrics r)" using assms(1) by (simp_all add: range_order_def)
  note v = metrics_loop_values [OF this(1), of "metrics r" env b Map.empty "failedCounter ce"]
  show ?thesis
  proof
    fix n
    show "metricValues (update env order ce) n = fresh_values r env n"
      using v [of n] \<open>set order = dom (metrics r)\<close> Inr assms(2)
      by (cases "metrics r n") (auto simp: update_def fresh_values_def split: prod.splits sum.splits)
  qed
qed

lemma failures_filter:
  assumes "range_order (metrics r) order" and "executeCommand env (command r) None = Inr b"
  shows "length (filter (\<lambda>n. metric_outcome env b (the (metrics r n)) = Inl e) order) = failures r e env"
proof -
  have o: "distinct order" "set order = dom (metrics r)" using assms(1) by (simp_all add: range_order_def)
  have "length (filter P order) = card {n \<in> set order. P n}" for P
    using distinct_card [of "filter P order"] o(1) by (simp add: Int_def)
  moreover have "{n \<in> dom (metrics r). metric_outcome env b (the (metrics r n)) = Inl e} =
      {n. \<exists>m. metrics r n = Some m \<and> metric_outcome env b m = Inl e}" by force
  ultimately show ?thesis using o(2) by (simp add: failures_def assms(2))
qed

lemma update_failed:
  assumes "range_order (metrics r) order" and "ex_rule ce = r" and "dom (failedCounter ce) = reasons3"
  shows "failedCounter (update env order ce) e = map_option (\<lambda>c. failures r e env + c) (failedCounter ce e)"
proof (cases "executeCommand env (command r) None")
  case (Inl x)
  have "''command'' \<in> dom (failedCounter ce)" using assms(3) by (simp add: reasons3_def)
  then obtain c where "failedCounter ce ''command'' = Some c" by auto
  then show ?thesis using Inl assms(2)
    by (cases "failedCounter ce e") (auto simp: update_def failures_def bump_Some)
next
  case (Inr b)
  have sub: "set order \<subseteq> dom (metrics r)" using assms(1) by (simp add: range_order_def)
  note f = metrics_loop_failed [OF sub, of "failedCounter ce" env b Map.empty e, unfolded failures_filter [OF assms(1) Inr]]
  show ?thesis using f Inr assms(2,3)
    by (cases "failedCounter ce e") (auto simp: update_def split: prod.splits)
qed

lemma ceph_reach_state:
  assumes "ceph_reach r envs ce"
  shows "ex_rule ce = r \<and> metricValues ce = last_values r envs \<and>
    failedCounter ce = (\<lambda>e. if e \<in> reasons3 then Some (total_failures r envs e) else None)"
  using assms
proof (induction rule: ceph_reach.induct)
  case ceph_start
  show ?case
    by (auto simp: newExecuter_def last_values_def total_failures_def reasons3_def fun_eq_iff)
next
  case (ceph_update envs ce order env)
  then have dom: "dom (failedCounter ce) = reasons3" by (auto simp: dom_def)
  have "ex_rule (update env order ce) = r"
    using ceph_update.IH by (simp add: update_def split: sum.split prod.split)
  moreover have "failedCounter (update env order ce) e =
      (if e \<in> reasons3 then Some (total_failures r (env # envs) e) else None)" for e
    using update_failed [OF ceph_update.hyps(2) _ dom, of env e] ceph_update.IH
    by (simp add: total_failures_def)
  ultimately show ?case
    using update_values [OF ceph_update.hyps(2)] ceph_update.IH by (simp add: last_values_def fun_eq_iff)
qed

text \<open>The samples of a value and of a failure counter.\<close>

definition value_sample :: "rule \<Rightarrow> string \<Rightarrow> string \<Rightarrow> metricValue \<Rightarrow> sample" where
  "value_sample r ns n mv =
     \<lparr>sample_name = fq_name ns (rule_name r) n,
      sample_labels = zip (labelKeys (the (metrics r n))) (labelValues mv),
      sample_type = metricType (the (metrics r n)), sample_value = mv_value mv\<rparr>"

definition failure_sample :: "rule \<Rightarrow> string \<Rightarrow> string \<Rightarrow> nat \<Rightarrow> sample" where
  "failure_sample r ns reason c =
     \<lparr>sample_name = fq_name ns '''' ''failed_total'',
      sample_labels = [(''reason'', reason), (''subsystem'', rule_name r)],
      sample_type = CounterValue, sample_value = of_nat c\<rparr>"

definition labels_fit :: "rule \<Rightarrow> (string \<rightharpoonup> metricValue list) \<Rightarrow> bool" where
  "labels_fit r vals \<longleftrightarrow>
     (\<forall>n mvs m. vals n = Some mvs \<longrightarrow> metrics r n = Some m \<longrightarrow>
        list_all (\<lambda>mv. length (labelValues mv) = length (labelKeys m)) mvs)"

lemma collect_values_all:
  assumes "describe (newCollector r ns) n = Some d" and "metrics r n = Some m"
    and "list_all (\<lambda>mv. length (labelValues mv) = length (labelKeys m)) mvs"
  shows "collect_values d m mvs = Some (map (value_sample r ns n) mvs)"
  using assms(3)
proof (induction mvs)
  case (Cons mv mvs)
  have "d = \<lparr>fqName = fq_name ns (rule_name r) n, desc_help = metric_help m,
      variableLabels = labelKeys m, constLabels = []\<rparr>"
    using assms(1,2) by (simp add: newCollector_def)
  with Cons assms(2) show ?case by (simp add: MustNewConstMetric_def value_sample_def)
qed simp

lemma collect_metrics_all:
  assumes "ex_rule ce = r" and "dom (metricValues ce) \<subseteq> dom (metrics r)" and "labels_fit r (metricValues ce)"
    and "set names \<subseteq> dom (metricValues ce)"
  shows "collect_metrics (newCollector r ns) ce names =
    Some (concat (map (\<lambda>n. map (value_sample r ns n) (the (metricValues ce n))) names))"
  using assms(4)
proof (induction names)
  case (Cons n names)
  then have n: "n \<in> dom (metricValues ce)" by simp
  obtain mvs where "metricValues ce n = Some mvs" using domD [OF n] by blast
  moreover obtain m where "metrics r n = Some m" using domD [OF subsetD [OF assms(2) n]] by blast
  ultimately have v: "metricValues ce n = Some mvs" "metrics r n = Some m" .
  then obtain d where d: "describe (newCollector r ns) n = Some d" by (simp add: newCollector_def)
  have "list_all (\<lambda>mv. length (labelValues mv) = length (labelKeys m)) mvs"
    using assms(3) v by (simp add: labels_fit_def)
  from collect_values_all [OF d v(2) this] show ?case
    using Cons v d assms(1) by simp
qed simp

lemma collect_failures_all:
  "set reasons \<subseteq> dom failed \<Longrightarrow>
   collect_failures (newCollector r ns) failed reasons =
     Some (map (\<lambda>e. failure_sample r ns e (the (failed e))) reasons)"
  by (induction reasons) (auto simp: MustNewConstMetric_def newCollector_def failure_sample_def)

lemma fresh_values_dom: "dom (last_values r envs) \<subseteq> dom (metrics r)"
  by (auto simp: last_values_def fresh_values_def split: list.splits sum.splits option.splits)

section \<open>Property\<close>

text \<open>
  C35. After any sequence of updates, whatever commands and filters failed in them and in whatever
  order the maps were ranged over, a scrape yields, for each metric of the rule that the latest
  update could compute, exactly its latest values (none if the command failed, so that nothing
  stale is exported), and for each of the three reasons the number of failures of all updates. It
  panics only if a filter yields a value with a wrong number of labels.
\<close>

theorem export_is_latest:
  assumes "ceph_reach r envs ce"
    and "range_order (metricValues ce) names" and "range_order (failedCounter ce) reasons"
    and "labels_fit r (last_values r envs)"
  shows "set names = dom (last_values r envs) \<and> set reasons = {''command'', ''jq'', ''parse''} \<and>
    Collect (newCollector r ns) ce names reasons =
      Some (concat (map (\<lambda>n. map (value_sample r ns n) (the (last_values r envs n))) names)
        @ map (\<lambda>e. failure_sample r ns e (total_failures r envs e)) reasons)"
proof -
  note st = ceph_reach_state [OF assms(1)]
  have dom: "dom (failedCounter ce) = reasons3" using st by (auto simp: dom_def)
  have names: "set names = dom (last_values r envs)" and reasons: "set reasons = reasons3"
    using assms(2,3) st dom by (simp_all add: range_order_def)
  have "collect_metrics (newCollector r ns) ce names =
      Some (concat (map (\<lambda>n. map (value_sample r ns n) (the (last_values r envs n))) names))"
    using collect_metrics_all [of ce r names ns] st assms(4) fresh_values_dom names by simp
  moreover have "collect_failures (newCollector r ns) (failedCounter ce) reasons =
      Some (map (\<lambda>e. failure_sample r ns e (total_failures r envs e)) reasons)"
  proof -
    have "map (\<lambda>e. failure_sample r ns e (the (failedCounter ce e))) reasons =
        map (\<lambda>e. failure_sample r ns e (total_failures r envs e)) reasons"
      using st reasons by (intro map_cong refl) simp
    then show ?thesis using collect_failures_all [of reasons "failedCounter ce"] reasons dom by simp
  qed
  ultimately show ?thesis using names reasons by (simp add: Collect_def reasons3_def)
qed

text \<open>The rule of the OSD weights: an update that works, then one in which the filter fails.\<close>

definition osd_rule :: rule where
  "osd_rule = \<lparr>rule_name = ''osd_df'', command = [''ceph'', ''osd'', ''df'', ''-f'', ''json''],
     target = ruleTargetCommon,
     metrics = [''crush_weight'' \<mapsto>
         \<lparr>metricType = GaugeValue, metric_help = ''WEIGHT of `ceph osd df` command'',
          jqFilter = ''[.nodes[] | {value: .crush_weight, labels: [.name]}]'',
          labelKeys = [''ceph_daemon'']\<rparr>]\<rparr>"

definition demo_tree :: jtree where
  "demo_tree = TArr [TObj [(''value'', TInt 2), (''labels'', TArr [TStr ''osd.0''])]]"

definition demo_run :: "bool \<Rightarrow> run_env" where
  "demo_run ok = \<lparr>executeCommand =
     (\<lambda>cmd input. if input = None \<or> ok then Inr (print_json demo_tree) else Inl ''exit status 5'')\<rparr>"

lemma demo_unmarshalled: "unmarshal_values (print_json demo_tree) = Inr [\<lparr>labelValues = [''osd.0''], mv_value = 2\<rparr>]"
proof -
  have "printable 100 demo_tree" by (simp add: demo_tree_def ascii_def int64_range_def)
  then have "parse_json (print_json demo_tree) = Some demo_tree" by (rule parse_print_shallow)
  moreover have "itoa 2 = ''2''" by code_simp
  then have "literal_rat (itoa 2) = Some 2" by (simp add: literal_rat_def read_nat_def digit_val_def is_digit_def)
  then have "parse_float (itoa 2) = Some 2" by (simp add: parse_float_def)
  then have "dec_float_ptr (TInt 2) old = Some (Some 2)" for old by (simp add: dec_float_ptr_def TInt_def)
  ultimately show ?thesis
    by (simp add: unmarshal_values_def demo_tree_def UnmarshalJSON_def value_fields_def dec_struct_def find_field_def
        struct_field_def dec_nilable_def dec_slice_def dec_string_def)
qed

lemma demo_values:
  "fresh_values osd_rule (demo_run ok) =
     (if ok then [''crush_weight'' \<mapsto> [\<lparr>labelValues = [''osd.0''], mv_value = 2\<rparr>]] else Map.empty)"
  "metric_outcome (demo_run ok) (print_json demo_tree) m
     = (if ok then Inr [\<lparr>labelValues = [''osd.0''], mv_value = 2\<rparr>] else Inl ''jq'')"
proof -
  show o: "metric_outcome (demo_run ok) (print_json demo_tree) m =
      (if ok then Inr [\<lparr>labelValues = [''osd.0''], mv_value = 2\<rparr>] else Inl ''jq'')" for m
    by (simp add: metric_outcome_def demo_run_def demo_unmarshalled del: print_json.simps)
  show "fresh_values osd_rule (demo_run ok) =
     (if ok then [''crush_weight'' \<mapsto> [\<lparr>labelValues = [''osd.0''], mv_value = 2\<rparr>]] else Map.empty)"
    using o by (auto simp: fresh_values_def fun_eq_iff osd_rule_def demo_run_def)
qed

theorem export_is_latest_witness:
  "\<exists>ce. ceph_reach osd_rule [demo_run False, demo_run True] ce
     \<and> Collect (newCollector osd_rule ''ceph_extra'') ce [] [''command'', ''jq'', ''parse''] =
         Some (map (\<lambda>e. failure_sample osd_rule ''ceph_extra'' e (total_failures osd_rule [demo_run False, demo_run True] e))
           [''command'', ''jq'', ''parse''])"
proof -
  have ord: "range_order (metrics osd_rule) [''crush_weight'']"
    by (simp add: range_order_def osd_rule_def)
  obtain ce where ce: "ceph_reach osd_rule [demo_run False, demo_run True] ce"
    using ceph_update [OF ceph_update [OF ceph_start ord] ord] by blast
  note st = ceph_reach_state [OF ce]
  have last: "last_values osd_rule [demo_run False, demo_run True] = Map.empty"
    by (simp add: last_values_def demo_values)
  have "range_order (metricValues ce) []" using st last by (simp add: range_order_def)
  moreover have "range_order (failedCounter ce) [''command'', ''jq'', ''parse'']"
    using st by (auto simp: range_order_def reasons3_def dom_def)
  moreover have "labels_fit osd_rule (last_values osd_rule [demo_run False, demo_run True])"
    by (simp add: labels_fit_def last)
  ultimately show ?thesis using export_is_latest [OF ce] ce by fastforce
qed

section \<open>Running commands and the update loop\<close>

text \<open>What the operating system answers to the steps of \<open>executeCommand\<close>, each failure with its error; reading the
  output returns what was read before a failure.\<close>

record process =
  stdout_pipe :: "string option"
  stdin_pipe :: "string option"
  proc_start :: "string option"
  output_read :: "string \<times> string option"
  proc_wait :: "string option"

text \<open>The bytes that are returned and the error, if any.\<close>

definition run_command :: "process \<Rightarrow> string option \<Rightarrow> string \<times> string option" where
  "run_command p input =
     (case stdout_pipe p of
        Some e \<Rightarrow> ('''', Some e)
      | None \<Rightarrow>
          (case (if input = None then None else stdin_pipe p) of
             Some e \<Rightarrow> ('''', Some e)
           | None \<Rightarrow>
               (case proc_start p of
                  Some e \<Rightarrow> ('''', Some e)
                | None \<Rightarrow>
                    (case output_read p of
                       (out, Some e) \<Rightarrow> (out, Some e)
                     | (out, None) \<Rightarrow> (out, proc_wait p)))))"

text \<open>The environment of an update in which the commands are processes of the operating system.\<close>

definition process_env :: "(string list \<Rightarrow> process) \<Rightarrow> run_env" where
  "process_env os_run =
     \<lparr>executeCommand = (\<lambda>cmd input. case run_command (os_run cmd) input of (out, None) \<Rightarrow> Inr out | (_, Some e) \<Rightarrow> Inl e)\<rparr>"

text \<open>\<open>start\<close>: an update at once and one for every tick, until the context is done.\<close>

datatype executer_event = ExecTick run_env "string list" | ExecDone

fun executer_loop :: "executer_event list \<Rightarrow> cephExecuter \<Rightarrow> bool \<times> cephExecuter" where
  "executer_loop [] ce = (False, ce)"
| "executer_loop (ExecDone # es) ce = (True, ce)"
| "executer_loop (ExecTick env order # es) ce = executer_loop es (update env order ce)"

definition executer_start :: "run_env \<Rightarrow> string list \<Rightarrow> executer_event list \<Rightarrow> cephExecuter \<Rightarrow> bool \<times> cephExecuter" where
  "executer_start env order es ce = executer_loop es (update env order ce)"

lemma executer_loop_reach:
  "ceph_reach r envs ce \<Longrightarrow> (\<And>env order. ExecTick env order \<in> set es \<Longrightarrow> range_order (metrics r) order) \<Longrightarrow>
     \<exists>envs'. ceph_reach r envs' (snd (executer_loop es ce))"
proof (induction es arbitrary: envs ce)
  case Nil
  then show ?case by auto
next
  case (Cons e es)
  show ?case
  proof (cases e)
    case (ExecTick env order)
    then have "ceph_reach r (env # envs) (update env order ce)" using Cons.prems by (intro ceph_update) auto
    moreover have "range_order (metrics r) o1" if "ExecTick e1 o1 \<in> set es" for e1 o1
      using Cons.prems(2) [of e1 o1] that by simp
    ultimately show ?thesis using Cons.IH [of "env # envs" "update env order ce"] ExecTick by simp
  next
    case ExecDone
    then show ?thesis using Cons.prems(1) by auto
  qed
qed

text \<open>Every state of a running executer is one of those the exported values are characterised for.\<close>

lemma executer_start_reach:
  assumes "range_order (metrics r) order"
    and "\<And>env order. ExecTick env order \<in> set es \<Longrightarrow> range_order (metrics r) order"
  shows "\<exists>envs. ceph_reach r envs (snd (executer_start env order es (newExecuter r)))"
  unfolding executer_start_def
  by (rule executer_loop_reach [OF ceph_update [OF ceph_start assms(1)] assms(2)])

section \<open>The server\<close>

text \<open>The registry refuses a collector when one of its descriptors equals a registered one, that is, has the same name and
  the same values of its constant labels, or when a registered descriptor of the same name has other label names or
  another help text; \<open>MustRegister\<close> then panics.\<close>

definition same_desc :: "desc \<Rightarrow> desc \<Rightarrow> bool" where
  "same_desc d e \<longleftrightarrow> fqName d = fqName e \<and> map snd (constLabels d) = map snd (constLabels e)"

definition consistent_descs :: "desc \<Rightarrow> desc \<Rightarrow> bool" where
  "consistent_descs d e \<longleftrightarrow>
     \<not> same_desc d e
     \<and> (fqName d = fqName e \<longrightarrow> desc_help d = desc_help e \<and> variableLabels d = variableLabels e
          \<and> map fst (constLabels d) = map fst (constLabels e))"

definition rule_metric_names :: "rule \<Rightarrow> string list" where
  "rule_metric_names r = filter (\<lambda>n. metrics r n \<noteq> None)
     [''pool_count'', ''s3_object_count'', ''s3_size_bytes'', ''s3_size_rounded_bytes'', ''crush_weight'', ''count'']"

fun register_collectors :: "desc list list \<Rightarrow> desc list \<Rightarrow> desc list option" where
  "register_collectors [] reg = Some reg"
| "register_collectors (ds # cs) reg =
     (if list_all (\<lambda>d. list_all (consistent_descs d) reg) ds then register_collectors cs (reg @ ds) else None)"

text \<open>The descriptors of the collectors of \<open>startServer\<close>, and of the build information that \<open>init\<close> registers.\<close>

definition build_info :: "string \<Rightarrow> desc" where
  "build_info version = \<lparr>fqName = fq_name ''ceph_extra'' '''' ''build_info'',
     desc_help = ''Build info of the ceph-extra-exporter service.'', variableLabels = [],
     constLabels = [(''version'', trim_space version)]\<rparr>"

definition rule_descs :: "rule \<Rightarrow> desc list" where
  "rule_descs r = Describe (newCollector r ''ceph_extra'') (rule_metric_names r)"

text \<open>\<open>order\<close> is the order in which the goroutines of the enabled rules register their collectors.\<close>

definition startServer ::
  "string \<Rightarrow> (rule list \<Rightarrow> rule list) \<Rightarrow> rule list \<Rightarrow> exportOptions \<Rightarrow> string option \<Rightarrow> (string, desc list) result Prelude.process" where
  "startServer version order rs opts listen_err =
     (case register_collectors (map rule_descs (order (filter (\<lambda>r. enabled opts (target r)) rs))) [build_info version] of
        None \<Rightarrow> Panicked ''MustRegister''
      | Some reg \<Rightarrow> Running (case listen_err of Some e \<Rightarrow> Inl e | None \<Rightarrow> Inr reg))"

definition ceph_main ::
  "string \<Rightarrow> (rule list \<Rightarrow> rule list) \<Rightarrow> exportOptions \<Rightarrow> string option \<Rightarrow> (string, desc list) result Prelude.process" where
  "ceph_main version order opts listen_err =
     (case startServer version order rules opts listen_err of
        Running (Inl e) \<Rightarrow> Exited 1
      | p \<Rightarrow> p)"

lemma consistent_sym: "consistent_descs d e \<longleftrightarrow> consistent_descs e d"
  by (auto simp: consistent_descs_def same_desc_def)

text \<open>Collectors that agree pairwise can be registered in any order: the goroutines of \<open>startServer\<close> may run as they
  like.\<close>

lemma register_any_order:
  assumes "\<And>ds es d e. ds \<in> set cs \<Longrightarrow> es \<in> set cs \<Longrightarrow> ds \<noteq> es \<Longrightarrow> d \<in> set ds \<Longrightarrow> e \<in> set es \<Longrightarrow> consistent_descs d e"
    and "\<And>ds d e. ds \<in> set cs \<Longrightarrow> d \<in> set ds \<Longrightarrow> e \<in> set reg \<Longrightarrow> consistent_descs d e" and "distinct cs"
  shows "register_collectors cs reg = Some (reg @ concat cs)"
  using assms
proof (induction cs arbitrary: reg)
  case (Cons ds cs)
  have "list_all (\<lambda>d. list_all (consistent_descs d) reg) ds" using Cons.prems(2) by (auto simp: list_all_iff)
  moreover have "register_collectors cs (reg @ ds) = Some ((reg @ ds) @ concat cs)"
  proof (rule Cons.IH)
    show "consistent_descs d e" if "es \<in> set cs" "d \<in> set es" "e \<in> set (reg @ ds)" for es d e
      using that Cons.prems(1) [of es ds d e] Cons.prems(2) [of es d e] Cons.prems(3) by auto
  qed (use Cons.prems in auto)
  ultimately show ?case by simp
qed simp

definition pairwise_consistent :: "desc list list \<Rightarrow> bool" where
  "pairwise_consistent cs \<longleftrightarrow> list_all (\<lambda>ds. list_all (\<lambda>es. ds = es \<or> list_all (\<lambda>d. list_all (consistent_descs d) es) ds) cs) cs"

lemma rules_consistent: "pairwise_consistent (map rule_descs rules)" and rules_distinct: "distinct (map rule_descs rules)"
  by code_simp+

lemma rules_not_build_info: "list_all (list_all (\<lambda>d. fqName d \<noteq> fq_name ''ceph_extra'' '''' ''build_info'')) (map rule_descs rules)"
  by code_simp

text \<open>The rules of the program never make the registration panic, whatever the options and the order in which the goroutines
  register their collectors.\<close>

lemma startServer_registers:
  assumes "\<And>rs. mset (order rs) = mset rs"
  shows "\<exists>reg. ceph_main version order opts None = Running (Inr reg)"
proof -
  let ?rs = "order (filter (\<lambda>r. enabled opts (target r)) rules)"
  have sub: "set ?rs \<subseteq> set rules" using mset_eq_setD [OF assms, of "filter (\<lambda>r. enabled opts (target r)) rules"] by auto
  have "mset (map rule_descs ?rs) = mset (map rule_descs (filter (\<lambda>r. enabled opts (target r)) rules))"
    using assms by (simp only: mset_map)
  moreover have "distinct (map rule_descs (filter (\<lambda>r. enabled opts (target r)) rules))"
    using rules_distinct by (rule distinct_map_filter)
  ultimately have dist: "distinct (map rule_descs ?rs)" using mset_eq_imp_distinct_iff by metis
  have "register_collectors (map rule_descs ?rs) [build_info version] = Some ([build_info version] @ concat (map rule_descs ?rs))"
  proof (rule register_any_order)
    show "consistent_descs d e"
      if "ds \<in> set (map rule_descs ?rs)" "es \<in> set (map rule_descs ?rs)" "ds \<noteq> es" "d \<in> set ds" "e \<in> set es" for ds es d e
    proof -
      have "ds \<in> set (map rule_descs rules)" "es \<in> set (map rule_descs rules)" using that(1,2) sub by auto
      then show ?thesis using that(3-5) rules_consistent unfolding pairwise_consistent_def list_all_iff by blast
    qed
    show "consistent_descs d e"
      if "ds \<in> set (map rule_descs ?rs)" "d \<in> set ds" "e \<in> set [build_info version]" for ds d e
    proof -
      have "ds \<in> set (map rule_descs rules)" using that(1) sub by auto
      then have "fqName d \<noteq> fq_name ''ceph_extra'' '''' ''build_info''"
        using that(2) rules_not_build_info unfolding list_all_iff by blast
      then show ?thesis using that(3) by (simp add: consistent_descs_def same_desc_def build_info_def)
    qed
  qed (rule dist)
  then show ?thesis by (simp add: ceph_main_def startServer_def)
qed

end
