(* ===== verification/Ct_Monitor.thy ===== *)
theory Ct_Monitor
  imports Go_Json Go_Net
begin

text \<open>
  The plugin \<open>ct-monitor/plugin/incluster-filter\<close>: it removes from a list of certificate issuances
  those whose certificate a watched cluster issuer has issued for this cluster. The filter reuses
  the storage of its argument, so the loop is modelled on an array with a read and a write
  position.

  The client and the decoders of certificates (\<open>base64\<close>, \<open>pem\<close>, \<open>x509\<close>) and SHA-256 are
  arguments. The messages for the log are left out.
\<close>

section \<open>Fingerprints of the cluster\<close>

definition targetKind :: string where
  "targetKind = ''ClusterIssuer''"

definition targetIssuers :: "string list" where
  "targetIssuers = [''clouddns'', ''clouddns-letsencrypt'']"

record cert_codec =
  base64_decode :: "string \<Rightarrow> (string, string) result"
  pem_decode :: "string \<Rightarrow> string option"
  ParseCertificate :: "string \<Rightarrow> (string, string) result"
  sha256_sum :: "string \<Rightarrow> string"

text \<open>\<open>hex.EncodeToString\<close>.\<close>

definition hex_encode :: "string \<Rightarrow> string" where
  "hex_encode bs = concat (map (\<lambda>c. [hex_char (of_char c div 16), hex_char (of_char c mod 16)]) bs)"

text \<open>The body of the loop over the certificate requests: every \<open>continue\<close> is \<^term>\<open>None\<close>.\<close>

definition item_fingerprint :: "cert_codec \<Rightarrow> string set \<Rightarrow> jobject \<Rightarrow> string option" where
  "item_fingerprint cc targetIssuerSet item =
     (case as_object (map_of item ''spec'') of
        None \<Rightarrow> None
      | Some spec \<Rightarrow>
     (case as_object (map_of spec ''issuerRef'') of
        None \<Rightarrow> None
      | Some issuerRef \<Rightarrow>
          (let kind = text_or_empty (map_of issuerRef ''kind'');
               name = text_or_empty (map_of issuerRef ''name'')
           in if kind \<noteq> targetKind then None
              else if name \<notin> targetIssuerSet then None
              else
     (case as_object (map_of item ''status'') of
        None \<Rightarrow> None
      | Some status \<Rightarrow>
     (case as_text (map_of status ''certificate'') of
        None \<Rightarrow> None
      | Some certStr \<Rightarrow>
          if certStr = '''' then None
          else
     (case base64_decode cc certStr of
        Inl _ \<Rightarrow> None
      | Inr certPEM \<Rightarrow>
     (case pem_decode cc certPEM of
        None \<Rightarrow> None
      | Some block \<Rightarrow>
     (case ParseCertificate cc block of
        Inl _ \<Rightarrow> None
      | Inr raw \<Rightarrow> Some (hex_encode (sha256_sum cc raw))))))))))"

fun fingerprint_loop :: "cert_codec \<Rightarrow> string set \<Rightarrow> jobject list \<Rightarrow> string set \<Rightarrow> string set" where
  "fingerprint_loop cc issuers [] fingerprints = fingerprints"
| "fingerprint_loop cc issuers (item # items) fingerprints =
     (case item_fingerprint cc issuers item of
        None \<Rightarrow> fingerprint_loop cc issuers items fingerprints
      | Some f \<Rightarrow> fingerprint_loop cc issuers items (insert f fingerprints))"

definition clusterFingerprints ::
  "cert_codec \<Rightarrow> (string, jobject list) result \<Rightarrow> (string, string set) result" where
  "clusterFingerprints cc listed =
     (case listed of
        Inl e \<Rightarrow> Inl (''failed to list CertificateRequests: '' @ e)
      | Inr items \<Rightarrow> Inr (fingerprint_loop cc (set targetIssuers) items {}))"

section \<open>The filter\<close>

record Issuance =
  CertSHA256 :: string
  Domains :: "string list"

text \<open>
  \<open>filtered := issuances[:0]\<close> shares the array of \<open>issuances\<close>; \<open>append\<close> stores into the next slot of
  that array, since it never exceeds the capacity. Position \<open>i\<close> is read, slot \<open>n\<close> is written next.
\<close>

function filter_loop :: "string set \<Rightarrow> nat \<Rightarrow> nat \<Rightarrow> Issuance list \<Rightarrow> nat \<times> Issuance list" where
  "filter_loop fingerprints i n arr =
     (if length arr \<le> i then (n, arr)
      else let is = arr ! i
           in if CertSHA256 is \<in> fingerprints then filter_loop fingerprints (Suc i) n arr
              else filter_loop fingerprints (Suc i) (Suc n) (arr[n := is]))"
  by pat_completeness auto
termination
  by (relation "measure (\<lambda>(f, i, n, arr). length arr - i)") auto

declare filter_loop.simps [simp del]

text \<open>The result: the slice that is returned, the error if any, and the array of the caller.\<close>

definition Filter ::
  "cert_codec \<Rightarrow> (string, jobject list) result \<Rightarrow> Issuance list
     \<Rightarrow> Issuance list \<times> string option \<times> Issuance list" where
  "Filter cc listed issuances =
     (case clusterFingerprints cc listed of
        Inl e \<Rightarrow> (issuances, Some e, issuances)
      | Inr fingerprints \<Rightarrow>
          (case filter_loop fingerprints 0 0 issuances of (n, arr) \<Rightarrow> (take n arr, None, arr)))"

section \<open>Facts and properties\<close>

lemma fingerprint_loop_set:
  "fingerprint_loop cc issuers items acc = acc \<union> {f. \<exists>item \<in> set items. item_fingerprint cc issuers item = Some f}"
  by (induction items arbitrary: acc) (auto split: option.split)

text \<open>Up to the read position, the slots before the write position hold the kept elements; from the
  write position on the array is as it was, because writing never overtakes reading.\<close>

lemma filter_loop_inv:
  assumes "take n arr = filter (\<lambda>x. CertSHA256 x \<notin> fps) (take i xs)" and "drop n arr = drop n xs"
    and "n \<le> i" and "i \<le> length xs" and "length arr = length xs"
  shows "case filter_loop fps i n arr of (n', arr') \<Rightarrow>
    take n' arr' = filter (\<lambda>x. CertSHA256 x \<notin> fps) xs \<and> n' \<le> length xs \<and> length arr' = length xs \<and>
    drop n' arr' = drop n' xs"
  using assms
proof (induction fps i n arr rule: filter_loop.induct)
  case (1 fps i n arr)
  show ?case
  proof (cases "length arr \<le> i")
    case True
    then show ?thesis using "1.prems" by (simp add: filter_loop.simps)
  next
    case False
    then have i: "i < length xs" "i < length arr" using "1.prems"(5) by simp_all
    have "drop n arr ! (i - n) = drop n xs ! (i - n)" using "1.prems"(2) by simp
    then have here: "arr ! i = xs ! i" using "1.prems"(3) i by simp
    show ?thesis
    proof (cases "CertSHA256 (arr ! i) \<in> fps")
      case True
      have "take n arr = filter (\<lambda>x. CertSHA256 x \<notin> fps) (take (Suc i) xs)"
        using "1.prems"(1) True here i by (simp add: take_Suc_conv_app_nth)
      from "1.IH"(1) [OF False refl True this "1.prems"(2)] "1.prems"(3-5) i
      show ?thesis using False True by (subst filter_loop.simps) (simp add: Let_def)
    next
      case kept: False
      have "take (Suc n) (arr[n := arr ! i]) = filter (\<lambda>x. CertSHA256 x \<notin> fps) (take (Suc i) xs)"
        using "1.prems"(1,3) kept here i by (simp add: take_Suc_conv_app_nth)
      moreover have "drop 1 (drop n arr) = drop 1 (drop n xs)" using "1.prems"(2) by simp
      then have "drop (Suc n) (arr[n := arr ! i]) = drop (Suc n) xs" by simp
      ultimately show ?thesis
        using "1.IH"(2) [OF False refl kept] "1.prems"(3-5) i False kept
        by (subst filter_loop.simps) (simp add: Let_def)
    qed
  qed
qed

text \<open>The certificate that a certificate request of a watched cluster issuer carries.\<close>

definition issued :: "cert_codec \<Rightarrow> jobject \<Rightarrow> string \<Rightarrow> bool" where
  "issued cc item raw \<longleftrightarrow>
     (\<exists>spec ref issuer status cert pem block.
        map_of item ''spec'' = Some (JObj spec) \<and> map_of spec ''issuerRef'' = Some (JObj ref) \<and>
        map_of ref ''kind'' = Some (JStr targetKind) \<and> map_of ref ''name'' = Some (JStr issuer) \<and>
        issuer \<in> set targetIssuers \<and>
        map_of item ''status'' = Some (JObj status) \<and> map_of status ''certificate'' = Some (JStr cert) \<and>
        cert \<noteq> '''' \<and> base64_decode cc cert = Inr pem \<and> pem_decode cc pem = Some block \<and>
        ParseCertificate cc block = Inr raw)"

lemma as_object_iff: "as_object v = Some m \<longleftrightarrow> v = Some (JObj m)"
  by (auto simp: as_object_def split: option.splits json.splits)

lemma as_text_iff: "as_text v = Some s \<longleftrightarrow> v = Some (JStr s)"
  by (auto simp: as_text_def split: option.splits json.splits)

lemma as_object_Some: "as_object (Some (JObj m)) = Some m" and as_text_Some: "as_text (Some (JStr s)) = Some s"
  by (simp_all add: as_object_def as_text_def)

lemma text_or_empty_iff: "s \<noteq> '''' \<Longrightarrow> text_or_empty v = s \<longleftrightarrow> v = Some (JStr s)"
  by (auto simp: text_or_empty_def as_text_def split: option.splits json.splits)

lemma item_fingerprint_issued:
  "item_fingerprint cc (set targetIssuers) item = Some f \<longleftrightarrow>
     (\<exists>raw. issued cc item raw \<and> f = hex_encode (sha256_sum cc raw))"
proof -
  have kind: "text_or_empty v = targetKind \<longleftrightarrow> v = Some (JStr targetKind)" for v
    by (rule text_or_empty_iff) (simp add: targetKind_def)
  have name: "text_or_empty v \<in> set targetIssuers \<longleftrightarrow> (\<exists>n \<in> set targetIssuers. v = Some (JStr n))" for v
  proof -
    have "n \<noteq> ''''" if "n \<in> set targetIssuers" for n using that by (auto simp: targetIssuers_def)
    then show ?thesis by (metis text_or_empty_iff)
  qed
  show ?thesis
    unfolding item_fingerprint_def issued_def Let_def
    by (auto simp: kind name as_object_iff as_text_iff as_object_Some as_text_Some
        split: option.splits sum.splits if_splits)
qed

text \<open>
  C36. The filter drops exactly the issuances whose fingerprint is that of a certificate which a
  watched cluster issuer has issued to a certificate request of the cluster; the others are
  returned in their order, although the result is built in the storage of the argument, whose
  remaining slots keep their contents. If the requests cannot be listed nothing is dropped.
\<close>

theorem Filter_exact:
  "case listed of
     Inl e \<Rightarrow> Filter cc listed issuances =
       (issuances, Some (''failed to list CertificateRequests: '' @ e), issuances)
   | Inr items \<Rightarrow>
       (let known = {f. \<exists>item raw. item \<in> set items \<and> issued cc item raw \<and> f = hex_encode (sha256_sum cc raw)};
            kept = filter (\<lambda>is. CertSHA256 is \<notin> known) issuances
        in \<exists>arr. Filter cc listed issuances = (kept, None, arr) \<and> length arr = length issuances
             \<and> drop (length kept) arr = drop (length kept) issuances)"
proof (cases listed)
  case (Inl e)
  then show ?thesis by (simp add: Filter_def clusterFingerprints_def)
next
  case (Inr items)
  define known where "known = {f. \<exists>item raw. item \<in> set items \<and> issued cc item raw \<and> f = hex_encode (sha256_sum cc raw)}"
  have fps: "clusterFingerprints cc listed = Inr known"
    using item_fingerprint_issued [of cc]
    by (auto simp: clusterFingerprints_def Inr fingerprint_loop_set known_def)
  obtain n arr where r: "filter_loop known 0 0 issuances = (n, arr)" by force
  have inv: "take n arr = filter (\<lambda>x. CertSHA256 x \<notin> known) issuances" "n \<le> length issuances"
    "length arr = length issuances" "drop n arr = drop n issuances"
    using filter_loop_inv [of 0 issuances known 0 issuances] by (simp_all add: r)
  have "length (take n arr) = n" using inv(2,3) by simp
  then have "length (filter (\<lambda>x. CertSHA256 x \<notin> known) issuances) = n" by (simp only: inv(1))
  then show ?thesis
    unfolding Inr sum.case known_def [symmetric] Let_def
    using fps r inv by (simp add: Filter_def Inr)
qed

section \<open>The plugin\<close>

text \<open>\<open>slog.Level.UnmarshalText\<close>: a name, in any case, and an optional signed offset.\<close>

definition level_names :: "(string \<times> int) list" where
  "level_names = [(''DEBUG'', -4), (''INFO'', 0), (''WARN'', 4), (''ERROR'', 8)]"

definition parse_level :: "string \<Rightarrow> int option" where
  "parse_level s =
     (let name = takeWhile (\<lambda>c. c \<noteq> CHR ''+'' \<and> c \<noteq> CHR ''-'') s;
          rest = dropWhile (\<lambda>c. c \<noteq> CHR ''+'' \<and> c \<noteq> CHR ''-'') s
      in case (if rest = [] then Some 0 else atoi rest) of
           None \<Rightarrow> None
         | Some off \<Rightarrow> map_option (\<lambda>l. wrap64 (l + off)) (map_of level_names (to_upper name)))"

definition newLogger :: "string \<Rightarrow> int" where
  "newLogger env_level = (case parse_level env_level of None \<Rightarrow> 0 | Some l \<Rightarrow> l)"

text \<open>\<open>newInclusterFilter\<close> and \<open>main\<close>, which panics when the filter cannot be created; a created filter has the level of its log.\<close>

definition newInclusterFilter :: "string option \<Rightarrow> string option \<Rightarrow> string \<Rightarrow> (string, int) result" where
  "newInclusterFilter config_err client_err env_level =
     (case config_err of
        Some e \<Rightarrow> Inl (''failed to get in-cluster config: '' @ e)
      | None \<Rightarrow>
          (case client_err of
             Some e \<Rightarrow> Inl (''failed to create dynamic client: '' @ e)
           | None \<Rightarrow> Inr (newLogger env_level)))"

definition plugin_main :: "string option \<Rightarrow> string option \<Rightarrow> string \<Rightarrow> int process" where
  "plugin_main config_err client_err env_level =
     (case newInclusterFilter config_err client_err env_level of Inl e \<Rightarrow> Panicked e | Inr f \<Rightarrow> Running f)"

text \<open>An unset or unusable level is the level INFO, and the names are read in any case.\<close>

lemma newLogger_examples:
  "newLogger '''' = 0" "newLogger ''verbose'' = 0" "newLogger ''debug'' = -4" "newLogger ''Warn+2'' = 6" "newLogger ''INFO-x'' = 0"
  by code_simp+

end
