(* ===== verification/Spiffe.thy ===== *)
theory Spiffe
  imports Prelude
begin

text \<open>
  The test services of \<open>spiffe-test\<close>: the two authenticators (\<open>internal/auth\<close>), the greeting service
  (\<open>internal/service\<close>), the HTTP and gRPC transports (\<open>internal/transport\<close>), the workload client
  (\<open>internal/spiffe\<close>) and the commands for the server and the client (\<open>cmd\<close>).

  SPIFFE IDs, certificates and tokens belong to the library go-spiffe: extracting an ID from a
  certificate, validating a token and the sources of the workload API are arguments.
\<close>

section \<open>Modes and transports\<close>

datatype Mode = ModeX509 | ModeJWT

definition ParseMode :: "string \<Rightarrow> Mode option" where
  "ParseMode s =
     (if to_lower s = ''x509'' then Some ModeX509 else if to_lower s = ''jwt'' then Some ModeJWT else None)"

datatype Kind = HTTP | GRPC

definition Parse :: "string \<Rightarrow> Kind option" where
  "Parse s = (if to_lower s = ''http'' then Some HTTP else if to_lower s = ''grpc'' then Some GRPC else None)"

section \<open>Requests\<close>

text \<open>
  What an HTTP handler sees of a request: the certificates of the peer when the connection is TLS,
  and the header \<open>Authorization\<close> (empty when missing). What a gRPC handler finds in its context: the
  peer, its TLS information, and the metadata.
\<close>

record 'c http_request =
  Method :: string
  TLS_PeerCertificates :: "'c list option"
  Authorization :: string

record 'c grpc_context =
  ctx_peer :: "'c list option option"
  ctx_authorization :: "string list option"

datatype auth_err = ErrNoClientCert | ErrInvalidToken string | AuthErr string

section \<open>The authenticator for client certificates\<close>

definition validateCertificate :: "('c \<Rightarrow> (string, 'id) result) \<Rightarrow> 'c \<Rightarrow> (auth_err, 'id) result" where
  "validateCertificate IDFromCert cert =
     (case IDFromCert cert of
        Inl e \<Rightarrow> Inl (AuthErr (''failed to extract SPIFFE ID from certificate: '' @ e))
      | Inr sid \<Rightarrow> Inr sid)"

definition x509_GetCallerID :: "('c \<Rightarrow> (string, 'id) result) \<Rightarrow> 'c http_request \<Rightarrow> (auth_err, 'id) result" where
  "x509_GetCallerID IDFromCert r =
     (case TLS_PeerCertificates r of
        None \<Rightarrow> Inl ErrNoClientCert
      | Some [] \<Rightarrow> Inl ErrNoClientCert
      | Some (cert # _) \<Rightarrow> validateCertificate IDFromCert cert)"

definition x509_GetCallerIDFromContext ::
  "('c \<Rightarrow> (string, 'id) result) \<Rightarrow> 'c grpc_context \<Rightarrow> (auth_err, 'id) result" where
  "x509_GetCallerIDFromContext IDFromCert ctx =
     (case ctx_peer ctx of
        None \<Rightarrow> Inl (AuthErr ''failed to get peer from context'')
      | Some None \<Rightarrow> Inl (AuthErr ''failed to get TLS info from peer'')
      | Some (Some []) \<Rightarrow> Inl ErrNoClientCert
      | Some (Some (cert # _)) \<Rightarrow> validateCertificate IDFromCert cert)"

section \<open>The authenticator for tokens\<close>

definition extractBearerToken :: "string \<Rightarrow> (auth_err, string) result" where
  "extractBearerToken authHeader =
     (if authHeader = '''' then Inl (ErrInvalidToken ''missing authorization header'')
      else (case str_cut CHR '' '' authHeader of
              None \<Rightarrow> Inl (ErrInvalidToken ''invalid authorization header format'')
            | Some (scheme, token) \<Rightarrow>
                if \<not> equal_fold scheme ''Bearer''
                then Inl (ErrInvalidToken ''invalid authorization header format'') else Inr token))"

definition validateToken ::
  "(string \<Rightarrow> string list \<Rightarrow> (string, 'id) result) \<Rightarrow> string \<Rightarrow> string \<Rightarrow> (auth_err, 'id) result" where
  "validateToken ParseAndValidate audience token =
     (case ParseAndValidate token [audience] of Inl e \<Rightarrow> Inl (ErrInvalidToken e) | Inr sid \<Rightarrow> Inr sid)"

definition jwt_GetCallerID ::
  "(string \<Rightarrow> string list \<Rightarrow> (string, 'id) result) \<Rightarrow> string \<Rightarrow> 'c http_request \<Rightarrow> (auth_err, 'id) result" where
  "jwt_GetCallerID ParseAndValidate audience r =
     (case extractBearerToken (Authorization r) of
        Inl e \<Rightarrow> Inl e
      | Inr token \<Rightarrow> validateToken ParseAndValidate audience token)"

definition jwt_GetCallerIDFromContext ::
  "(string \<Rightarrow> string list \<Rightarrow> (string, 'id) result) \<Rightarrow> string \<Rightarrow> 'c grpc_context \<Rightarrow> (auth_err, 'id) result" where
  "jwt_GetCallerIDFromContext ParseAndValidate audience ctx =
     (case ctx_authorization ctx of
        None \<Rightarrow> Inl (AuthErr ''failed to get metadata from context'')
      | Some [] \<Rightarrow> Inl (ErrInvalidToken ''missing authorization metadata'')
      | Some (v # _) \<Rightarrow>
          (case extractBearerToken v of
             Inl e \<Rightarrow> Inl e
           | Inr token \<Rightarrow> validateToken ParseAndValidate audience token))"

section \<open>The service\<close>

datatype service_err = ErrUnauthorized string | ServiceErr string

definition NewHelloService :: "'id list \<Rightarrow> 'id set" where
  "NewHelloService allowedIDs = set allowedIDs"

definition greeting :: "string \<Rightarrow> string" where
  "greeting t = ''Hello, '' @ t @ ''!''"

definition SayHello :: "('id \<Rightarrow> string) \<Rightarrow> 'id set \<Rightarrow> 'id \<Rightarrow> (service_err, string) result" where
  "SayHello id_text allowed callerID =
     (if callerID \<notin> allowed
      then Inl (ErrUnauthorized (''SPIFFE ID '' @ id_text callerID @ '' is not in the allowed list''))
      else Inr (greeting (id_text callerID)))"

section \<open>The HTTP handler\<close>

record HelloResponse =
  Message :: string
  Error_text :: string

definition writeError :: "nat \<Rightarrow> string \<Rightarrow> nat \<times> HelloResponse" where
  "writeError status message = (status, \<lparr>Message = '''', Error_text = message\<rparr>)"

text \<open>The handler is given the caller's identity as the authenticator finds it, and the service.\<close>

definition handleHello ::
  "('c http_request \<Rightarrow> (auth_err, 'id) result) \<Rightarrow> ('id \<Rightarrow> (service_err, string) result) \<Rightarrow> 'c http_request
     \<Rightarrow> nat \<times> HelloResponse" where
  "handleHello GetCallerID say r =
     (if Method r \<noteq> ''GET'' then writeError 405 ''method not allowed''
      else (case GetCallerID r of
              Inl ErrNoClientCert \<Rightarrow> writeError 401 ''authentication required''
            | Inl (ErrInvalidToken _) \<Rightarrow> writeError 401 ''authentication required''
            | Inl (AuthErr _) \<Rightarrow> writeError 403 ''access denied''
            | Inr callerID \<Rightarrow>
                (case say callerID of
                   Inl (ErrUnauthorized _) \<Rightarrow> writeError 403 ''access denied''
                 | Inl (ServiceErr _) \<Rightarrow> writeError 500 ''internal error''
                 | Inr message \<Rightarrow> (200, \<lparr>Message = message, Error_text = ''''\<rparr>))))"

section \<open>The gRPC handler\<close>

datatype grpc_status = Unauthenticated | PermissionDenied | Internal

definition grpc_SayHello ::
  "('c grpc_context \<Rightarrow> (auth_err, 'id) result) \<Rightarrow> ('id \<Rightarrow> (service_err, string) result) \<Rightarrow> 'c grpc_context
     \<Rightarrow> (grpc_status \<times> string, string) result" where
  "grpc_SayHello GetCallerIDFromContext say ctx =
     (case GetCallerIDFromContext ctx of
        Inl _ \<Rightarrow> Inl (Unauthenticated, ''authentication required'')
      | Inr callerID \<Rightarrow>
          (case say callerID of
             Inl (ErrUnauthorized _) \<Rightarrow> Inl (PermissionDenied, ''access denied'')
           | Inl (ServiceErr _) \<Rightarrow> Inl (Internal, ''internal error'')
           | Inr message \<Rightarrow> Inr message))"

section \<open>The workload client\<close>

record ('x, 'j) WorkloadClient =
  x509Source :: "'x option"
  jwtSource :: "'j option"

text \<open>\<open>Close\<close> closes the sources there are and joins their errors.\<close>

definition wc_Close :: "('x \<Rightarrow> string option) \<Rightarrow> ('j \<Rightarrow> string option) \<Rightarrow> ('x, 'j) WorkloadClient \<Rightarrow> string list" where
  "wc_Close close_x509 close_jwt w =
     (case x509Source w of None \<Rightarrow> [] | Some x \<Rightarrow>
        (case close_x509 x of None \<Rightarrow> [] | Some e \<Rightarrow> [''failed to close X509Source: '' @ e])) @
     (case jwtSource w of None \<Rightarrow> [] | Some j \<Rightarrow>
        (case close_jwt j of None \<Rightarrow> [] | Some e \<Rightarrow> [''failed to close JWTSource: '' @ e]))"

text \<open>\<open>NewWorkloadClient\<close> with the options the commands pass: the token source in mode \<open>jwt\<close> only.\<close>

definition initWorkloadClient ::
  "(string, 'x) result \<Rightarrow> (string, 'j) result \<Rightarrow> Mode \<Rightarrow> (string, ('x, 'j) WorkloadClient) result" where
  "initWorkloadClient new_x509 new_jwt mode =
     (case new_x509 of
        Inl e \<Rightarrow> Inl (''failed to create workload client: failed to create X509Source: '' @ e)
      | Inr x \<Rightarrow>
          if mode = ModeJWT then
            (case new_jwt of
               Inl e \<Rightarrow> Inl (''failed to create workload client: failed to create JWTSource: '' @ e)
             | Inr j \<Rightarrow> Inr \<lparr>x509Source = Some x, jwtSource = Some j\<rparr>)
          else Inr \<lparr>x509Source = Some x, jwtSource = None\<rparr>)"

definition FetchJWTSVID ::
  "('j \<Rightarrow> string \<Rightarrow> (string, string) result) \<Rightarrow> ('x, 'j) WorkloadClient \<Rightarrow> string \<Rightarrow> (string, string) result" where
  "FetchJWTSVID fetch w audience =
     (case jwtSource w of
        None \<Rightarrow> Inl ''JWT source not initialized''
      | Some j \<Rightarrow> (case fetch j audience of Inl e \<Rightarrow> Inl (''failed to fetch JWT SVID: '' @ e) | Inr t \<Rightarrow> Inr t))"

section \<open>The server command\<close>

record server_option =
  so_transport :: string
  so_auth :: string
  so_allowed :: "string list"
  so_audience :: string
  so_noTLS :: bool

record 'id server_config =
  sc_mode :: Mode
  sc_kind :: Kind
  sc_allowed :: "'id list"

fun parse_ids :: "(string \<Rightarrow> (string, 'id) result) \<Rightarrow> string list \<Rightarrow> (string, 'id list) result" where
  "parse_ids FromString [] = Inr []"
| "parse_ids FromString (s # ss) =
     (case FromString s of
        Inl e \<Rightarrow> Inl (''invalid allowed SPIFFE ID '' @ s @ '': '' @ e)
      | Inr i \<Rightarrow> (case parse_ids FromString ss of Inl e \<Rightarrow> Inl e | Inr is \<Rightarrow> Inr (i # is)))"

definition must_be :: "string \<Rightarrow> string \<Rightarrow> string" where
  "must_be a b = '' (must be '' @ [CHR 0x27] @ a @ [CHR 0x27] @ '' or '' @ [CHR 0x27] @ b @ [CHR 0x27] @ '')''"

definition server_parse ::
  "(string \<Rightarrow> (string, 'id) result) \<Rightarrow> server_option \<Rightarrow> (string, 'id server_config) result" where
  "server_parse FromString o1 =
     (case ParseMode (so_auth o1) of
        None \<Rightarrow> Inl (''unknown auth mode: '' @ so_auth o1 @ must_be ''x509'' ''jwt'')
      | Some mode \<Rightarrow>
     (case Parse (so_transport o1) of
        None \<Rightarrow> Inl (''unknown transport: '' @ so_transport o1 @ must_be ''http'' ''grpc'')
      | Some k \<Rightarrow>
          if so_noTLS o1 \<and> mode = ModeX509 then Inl ''--no-tls cannot be used with --auth x509 (x509 mTLS requires TLS)''
          else (case parse_ids FromString (so_allowed o1) of
                  Inl e \<Rightarrow> Inl e
                | Inr ids \<Rightarrow> Inr \<lparr>sc_mode = mode, sc_kind = k, sc_allowed = ids\<rparr>)))"

text \<open>The TLS settings by name of the library's constructor: a server that asks for client
  certificates, one that does not, and their clients, which expect a server with the given ID.\<close>

datatype 'id tls_config = MTLSServerConfig | TLSServerConfig | MTLSClientConfig 'id | TLSClientConfig 'id

definition server_tls :: "Mode \<Rightarrow> bool \<Rightarrow> 'id tls_config option" where
  "server_tls mode noTLS =
     (if noTLS then None else Some (case mode of ModeX509 \<Rightarrow> MTLSServerConfig | ModeJWT \<Rightarrow> TLSServerConfig))"

definition clientTLSConfig :: "Mode \<Rightarrow> 'id \<Rightarrow> 'id tls_config" where
  "clientTLSConfig mode srvID = (if mode = ModeX509 then MTLSClientConfig srvID else TLSClientConfig srvID)"

record ('c, 'id) spiffe_lib =
  IDFromCert :: "'c \<Rightarrow> (string, 'id) result"
  ParseAndValidate :: "string \<Rightarrow> string list \<Rightarrow> (string, 'id) result"
  id_String :: "'id \<Rightarrow> string"

text \<open>What \<open>startServer\<close> serves on each transport.\<close>

definition serve_http ::
  "('c, 'id) spiffe_lib \<Rightarrow> 'id server_config \<Rightarrow> string \<Rightarrow> 'c http_request \<Rightarrow> nat \<times> HelloResponse" where
  "serve_http lib sc audience r =
     handleHello
       (case sc_mode sc of
          ModeX509 \<Rightarrow> x509_GetCallerID (IDFromCert lib)
        | ModeJWT \<Rightarrow> jwt_GetCallerID (ParseAndValidate lib) audience)
       (SayHello (id_String lib) (NewHelloService (sc_allowed sc))) r"

definition serve_grpc ::
  "('c, 'id) spiffe_lib \<Rightarrow> 'id server_config \<Rightarrow> string \<Rightarrow> 'c grpc_context \<Rightarrow> (grpc_status \<times> string, string) result" where
  "serve_grpc lib sc audience ctx =
     grpc_SayHello
       (case sc_mode sc of
          ModeX509 \<Rightarrow> x509_GetCallerIDFromContext (IDFromCert lib)
        | ModeJWT \<Rightarrow> jwt_GetCallerIDFromContext (ParseAndValidate lib) audience)
       (SayHello (id_String lib) (NewHelloService (sc_allowed sc))) ctx"

section \<open>The client command\<close>

text \<open>A client holds the token it was given last; without one it sends no header.\<close>

definition bearer :: "string \<Rightarrow> string list" where
  "bearer token = (if token \<noteq> '''' then [''Bearer '' @ token] else [])"

text \<open>\<open>SayHello\<close> of the HTTP client on the outcome of the exchange: the status and the decoded body.\<close>

definition http_client_result ::
  "(string, nat \<times> (string, HelloResponse) result) result \<Rightarrow> (string, string) result" where
  "http_client_result exchange =
     (case exchange of
        Inl e \<Rightarrow> Inl (''request failed: '' @ e)
      | Inr (status, Inl e) \<Rightarrow> Inl (''failed to parse response (status '' @ show_nat status @ ''): '' @ e)
      | Inr (status, Inr body) \<Rightarrow>
          if status \<noteq> 200 then Inl (''server returned status '' @ show_nat status @ '': '' @ Error_text body)
          else Inr (Message body))"

definition shouldStop :: "int \<Rightarrow> int \<Rightarrow> int \<Rightarrow> bool" where
  "shouldStop loopCount loopInterval cnt \<longleftrightarrow> (0 < loopCount \<and> loopCount \<le> cnt) \<or> loopInterval = 0"

text \<open>
  One turn of the request loop as the outside world decides it: the token that is fetched, whether
  the context is done when the fetch failed or while waiting, and the answer to the request.
\<close>

record turn =
  fetched :: "(string, string) result"
  ctx_done :: bool
  wait_done :: bool
  answer :: "(string, string) result"

text \<open>A request that was made: the token it carried and the answer to it.\<close>

type_synonym made = "string \<times> (string, string) result"

text \<open>
  \<open>request_loop\<close> runs on a list of turns; the result is \<^term>\<open>None\<close> when the loop is still running
  after them. The count is the number of turns begun before.
\<close>

fun request_loop ::
  "Mode \<Rightarrow> int \<Rightarrow> int \<Rightarrow> int \<Rightarrow> string \<Rightarrow> turn list \<Rightarrow> made list \<Rightarrow> unit option \<times> made list" where
  "request_loop mode loopCount loopInterval cnt token [] made = (None, made)"
| "request_loop mode loopCount loopInterval cnt token (t # ts) made =
     (let cnt' = cnt + 1
      in case (if mode = ModeJWT then fetched t else Inr token) of
           Inl _ \<Rightarrow>
             if ctx_done t \<or> wait_done t then (Some (), made)
             else request_loop mode loopCount loopInterval cnt' token ts made
         | Inr token' \<Rightarrow>
             let made' = made @ [(token', answer t)]
             in if shouldStop loopCount loopInterval cnt' then (Some (), made')
                else if wait_done t then (Some (), made')
                else request_loop mode loopCount loopInterval cnt' token' ts made')"

definition runRequestLoop :: "Mode \<Rightarrow> int \<Rightarrow> int \<Rightarrow> turn list \<Rightarrow> unit option \<times> made list" where
  "runRequestLoop mode loopCount loopInterval ts = request_loop mode loopCount loopInterval 0 '''' ts []"

section \<open>The contract of an authenticator\<close>

text \<open>
  A connection as the two transports present it: the certificates of the peer, if it is TLS, and
  the values sent as authorization.
\<close>

record 'c connection =
  peer_certs :: "'c list option"
  sent_auth :: "string list"

definition http_of :: "string \<Rightarrow> 'c connection \<Rightarrow> 'c http_request" where
  "http_of meth c = \<lparr>Method = meth, TLS_PeerCertificates = peer_certs c,
     Authorization = (case sent_auth c of [] \<Rightarrow> '''' | v # _ \<Rightarrow> v)\<rparr>"

definition grpc_of :: "'c connection \<Rightarrow> 'c grpc_context" where
  "grpc_of c = \<lparr>ctx_peer = Some (peer_certs c), ctx_authorization = Some (sent_auth c)\<rparr>"

text \<open>An authenticator finds on both transports the identity that the credential of the connection
  proves, and no other.\<close>

locale authenticator =
  fixes of_http :: "'c http_request \<Rightarrow> (auth_err, 'id) result"
    and of_grpc :: "'c grpc_context \<Rightarrow> (auth_err, 'id) result"
    and credential :: "'c connection \<Rightarrow> 'id option"
  assumes http_credential: "of_http (http_of meth c) = Inr i \<longleftrightarrow> credential c = Some i"
    and grpc_credential: "of_grpc (grpc_of c) = Inr i \<longleftrightarrow> credential c = Some i"
begin

lemma http_greets:
  "case handleHello of_http (SayHello show_id allowed) (http_of ''GET'' c) of (status, body) \<Rightarrow>
     if \<exists>i \<in> allowed. credential c = Some i
     then status = 200 \<and> Message body = greeting (show_id (the (credential c)))
     else status \<in> {401, 403} \<and> Message body = ''''"
proof (cases "of_http (http_of ''GET'' c)")
  case (Inl e)
  then have "credential c = None" using http_credential [of "''GET''" c] by (cases "credential c") auto
  moreover have "Method (http_of ''GET'' c) = ''GET''" by (simp add: http_of_def)
  ultimately show ?thesis using Inl by (cases e) (simp_all add: handleHello_def writeError_def)
next
  case (Inr i)
  then have "credential c = Some i" using http_credential by blast
  moreover have "Method (http_of ''GET'' c) = ''GET''" by (simp add: http_of_def)
  ultimately show ?thesis using Inr by (simp add: handleHello_def writeError_def SayHello_def)
qed

lemma grpc_greets:
  "if \<exists>i \<in> allowed. credential c = Some i
   then grpc_SayHello of_grpc (SayHello show_id allowed) (grpc_of c) = Inr (greeting (show_id (the (credential c))))
   else \<exists>st why. grpc_SayHello of_grpc (SayHello show_id allowed) (grpc_of c) = Inl (st, why)
          \<and> (st = Unauthenticated \<or> st = PermissionDenied)"
proof (cases "of_grpc (grpc_of c)")
  case (Inl e)
  then have "credential c = None" using grpc_credential [of c] by (cases "credential c") auto
  with Inl show ?thesis by (simp add: grpc_SayHello_def)
next
  case (Inr i)
  then have "credential c = Some i" using grpc_credential by blast
  with Inr show ?thesis by (simp add: grpc_SayHello_def SayHello_def)
qed

end

definition x509_credential :: "('c \<Rightarrow> (string, 'id) result) \<Rightarrow> 'c connection \<Rightarrow> 'id option" where
  "x509_credential idc c =
     (case peer_certs c of
        Some (cert # _) \<Rightarrow> (case idc cert of Inr i \<Rightarrow> Some i | Inl _ \<Rightarrow> None)
      | _ \<Rightarrow> None)"

definition jwt_credential ::
  "(string \<Rightarrow> string list \<Rightarrow> (string, 'id) result) \<Rightarrow> string \<Rightarrow> 'c connection \<Rightarrow> 'id option" where
  "jwt_credential pv audience c =
     (case sent_auth c of
        [] \<Rightarrow> None
      | v # _ \<Rightarrow>
          (case str_cut CHR '' '' v of
             Some (scheme, token) \<Rightarrow>
               if to_lower scheme = ''bearer''
               then (case pv token [audience] of Inr i \<Rightarrow> Some i | Inl _ \<Rightarrow> None) else None
           | None \<Rightarrow> None))"

interpretation x509: authenticator "x509_GetCallerID idc" "x509_GetCallerIDFromContext idc" "x509_credential idc"
  by unfold_locales
    (auto simp: x509_GetCallerID_def x509_GetCallerIDFromContext_def x509_credential_def http_of_def grpc_of_def
       validateCertificate_def split: option.splits list.splits sum.splits)

lemma char_b: "char_of (98 :: nat) = CHR ''b''"
  by code_simp

lemma bearer_fold: "equal_fold s ''Bearer'' \<longleftrightarrow> to_lower s = ''bearer''"
  by (simp add: equal_fold_def to_lower_def lower_char_def is_upper_def char_b)

interpretation jwt: authenticator "jwt_GetCallerID pv aud" "jwt_GetCallerIDFromContext pv aud" "jwt_credential pv aud"
  by unfold_locales
    (auto simp: jwt_GetCallerID_def jwt_GetCallerIDFromContext_def jwt_credential_def http_of_def grpc_of_def
       validateToken_def extractBearerToken_def bearer_fold split: option.splits list.splits sum.splits if_splits)

section \<open>Properties\<close>

text \<open>The identity that a connection proves to a server, by the mode of the server.\<close>

definition proven_id :: "('c, 'id) spiffe_lib \<Rightarrow> Mode \<Rightarrow> string \<Rightarrow> 'c connection \<Rightarrow> 'id option" where
  "proven_id lib mode audience c =
     (case mode of
        ModeX509 \<Rightarrow> x509_credential (IDFromCert lib) c
      | ModeJWT \<Rightarrow> jwt_credential (ParseAndValidate lib) audience c)"

definition authorized :: "('c, 'id) spiffe_lib \<Rightarrow> 'id server_config \<Rightarrow> string \<Rightarrow> 'c connection \<Rightarrow> bool" where
  "authorized lib sc aud c \<longleftrightarrow> (\<exists>i \<in> set (sc_allowed sc). proven_id lib (sc_mode sc) aud c = Some i)"

definition hello :: "('c, 'id) spiffe_lib \<Rightarrow> 'id server_config \<Rightarrow> string \<Rightarrow> 'c connection \<Rightarrow> string" where
  "hello lib sc aud c = greeting (id_String lib (the (proven_id lib (sc_mode sc) aud c)))"

text \<open>The header that a client sends for its token is the credential that the server checks.\<close>

lemma bearer_credential:
  "token \<noteq> '''' \<Longrightarrow> jwt_credential pv audience \<lparr>peer_certs = cs, sent_auth = bearer token\<rparr> =
     (case pv token [audience] of Inr i \<Rightarrow> Some i | Inl _ \<Rightarrow> None)"
  by (simp add: jwt_credential_def bearer_def to_lower_def lower_char_def is_upper_def char_b)

text \<open>
  C38. On both transports and in both modes the server greets a caller, by its SPIFFE ID, exactly
  when the connection proves an ID of the allowed list: the ID of the first certificate of the
  peer, or the ID of a bearer token that is valid for the audience. Every other caller gets an
  authentication or authorization failure and no message.
\<close>

theorem greeted_iff_authorized:
  "(case serve_http lib sc aud (http_of ''GET'' c) of (status, body) \<Rightarrow>
          if authorized lib sc aud c then status = 200 \<and> Message body = hello lib sc aud c
          else status \<in> {401, 403} \<and> Message body = '''')
     \<and> (if authorized lib sc aud c then serve_grpc lib sc aud (grpc_of c) = Inr (hello lib sc aud c)
          else \<exists>st why. serve_grpc lib sc aud (grpc_of c) = Inl (st, why)
                 \<and> (st = Unauthenticated \<or> st = PermissionDenied))"
proof (cases "sc_mode sc")
  case ModeX509
  show ?thesis
    unfolding serve_http_def serve_grpc_def NewHelloService_def authorized_def hello_def proven_id_def ModeX509 Mode.case
    by (intro conjI x509.http_greets x509.grpc_greets)
next
  case ModeJWT
  show ?thesis
    unfolding serve_http_def serve_grpc_def NewHelloService_def authorized_def hello_def proven_id_def ModeJWT Mode.case
    by (intro conjI jwt.http_greets jwt.grpc_greets)
qed

text \<open>A turn in which a request is made, and the token it carries.\<close>

definition sends :: "Mode \<Rightarrow> turn \<Rightarrow> bool" where
  "sends mode t \<longleftrightarrow> mode = ModeX509 \<or> (\<exists>tok. fetched t = Inr tok)"

definition turn_request :: "Mode \<Rightarrow> turn \<Rightarrow> made" where
  "turn_request mode t = (case (mode, fetched t) of (ModeJWT, Inr tok) \<Rightarrow> tok | _ \<Rightarrow> '''', answer t)"

lemma request_loop_turn:
  assumes "mode = ModeX509 \<longrightarrow> token = ''''"
  shows "request_loop mode n d cnt token (t # ts) made =
    (if \<not> sends mode t then
       if ctx_done t \<or> wait_done t then (Some (), made) else request_loop mode n d (cnt + 1) token ts made
     else if shouldStop n d (cnt + 1) \<or> wait_done t then (Some (), made @ [turn_request mode t])
     else request_loop mode n d (cnt + 1) (fst (turn_request mode t)) ts (made @ [turn_request mode t]))"
  using assms
  by (cases mode; cases "fetched t") (simp_all add: sends_def turn_request_def Let_def)

text \<open>Whether the loop returns in a turn, the \<open>i\<close>-th: after a request when the limit is reached, the interval is zero or the
  context is done while waiting; after a failed fetch only when the context is done.\<close>

definition ends_turn :: "Mode \<Rightarrow> int \<Rightarrow> int \<Rightarrow> int \<Rightarrow> turn \<Rightarrow> bool" where
  "ends_turn mode n d i t \<longleftrightarrow> (if sends mode t then shouldStop n d i \<or> wait_done t else ctx_done t \<or> wait_done t)"

text \<open>The turns up to the first that ends the loop, and whether there is one.\<close>

fun turns_run :: "Mode \<Rightarrow> int \<Rightarrow> int \<Rightarrow> int \<Rightarrow> turn list \<Rightarrow> turn list \<times> bool" where
  "turns_run mode n d i [] = ([], False)"
| "turns_run mode n d i (t # ts) =
     (if ends_turn mode n d i t then ([t], True) else apfst (Cons t) (turns_run mode n d (i + 1) ts))"

lemma request_loop_exact:
  assumes "mode = ModeX509 \<longrightarrow> token = ''''"
  shows "request_loop mode n d cnt token ts made =
    (case turns_run mode n d (cnt + 1) ts of
       (run, ended) \<Rightarrow> (if ended then Some () else None, made @ map (turn_request mode) (filter (sends mode) run)))"
  using assms
proof (induction ts arbitrary: cnt token made)
  case (Cons t ts)
  have tok: "mode = ModeX509 \<longrightarrow> fst (turn_request mode t) = ''''" by (simp add: turn_request_def)
  show ?case
    using request_loop_turn [OF Cons.prems, of n d cnt t ts made] Cons.IH [OF Cons.prems, of "cnt + 1" made]
      Cons.IH [OF tok, of "cnt + 1" "made @ [turn_request mode t]"]
    by (auto simp: ends_turn_def add.commute [of 1] split: prod.splits)
qed simp

text \<open>Where the run ends: at the first turn that ends the loop.\<close>

lemma turns_run_None: "(\<And>k. k < length ts \<Longrightarrow> \<not> ends_turn mode n d (i + int k) (ts ! k)) \<Longrightarrow> turns_run mode n d i ts = (ts, False)"
proof (induction ts arbitrary: i)
  case (Cons t ts)
  have "\<not> ends_turn mode n d (i + 1 + int k) (ts ! k)" if "k < length ts" for k
    using Cons.prems [of "Suc k"] that by (simp add: algebra_simps)
  moreover have "\<not> ends_turn mode n d i t" using Cons.prems [of 0] by simp
  ultimately show ?case using Cons.IH by simp
qed simp

lemma turns_run_Some:
  "m < length ts \<Longrightarrow> ends_turn mode n d (i + int m) (ts ! m) \<Longrightarrow> (\<And>k. k < m \<Longrightarrow> \<not> ends_turn mode n d (i + int k) (ts ! k)) \<Longrightarrow>
   turns_run mode n d i ts = (take (Suc m) ts, True)"
proof (induction ts arbitrary: i m)
  case (Cons t ts)
  show ?case
  proof (cases m)
    case 0
    then show ?thesis using Cons.prems(2) by simp
  next
    case (Suc l)
    have "\<not> ends_turn mode n d (i + 1 + int k) (ts ! k)" if "k < l" for k
      using Cons.prems(3) [of "Suc k"] that Suc by (simp add: algebra_simps)
    moreover have "ends_turn mode n d (i + 1 + int l) (ts ! l)" using Cons.prems(2) Suc by (simp add: algebra_simps)
    moreover have "\<not> ends_turn mode n d i t" using Cons.prems(3) [of 0] Suc by simp
    ultimately show ?thesis using Cons.IH [of l "i + 1"] Cons.prems(1) Suc by simp
  qed
qed simp

text \<open>A turn that makes a request at the limit is the last, so the limit bounds the requests.\<close>

lemma turns_run_bound:
  assumes "0 < n"
  shows "length (filter (sends mode) (fst (turns_run mode n d i ts))) \<le> nat (max 1 (n - i + 1))"
proof (induction ts arbitrary: i)
  case (Cons t ts)
  show ?case
  proof (cases "ends_turn mode n d i t")
    case False
    then have "sends mode t \<Longrightarrow> i < n" using assms by (auto simp: ends_turn_def shouldStop_def)
    then show ?thesis using Cons.IH [of "i + 1"] False by (auto simp: max_def split: if_splits)
  qed auto
qed simp

text \<open>
  C39. What the client's loop does over any sequence of turns. It ends in the first turn that makes a request at or after
  the limit of \<open>n\<close> turns, that makes a request while the interval is zero, or in which the context is done; if there is
  no such turn it goes on. Up to there it makes one request in each turn in which it has a credential, in order: in mode
  \<open>x509\<close> in every turn, in mode \<open>jwt\<close> in the turns in which a token was fetched, and the request carries the token of
  its own turn. Turns in which the fetch fails are counted and make no request, so with a limit there are at most \<open>n\<close>
  requests, and exactly \<open>n\<close> if no fetch fails and nothing is cancelled before.
\<close>

theorem client_loop_requests:
  "(case turns_run mode n d 1 ts of
      (run, ended) \<Rightarrow> runRequestLoop mode n d ts =
        (if ended then Some () else None, map (turn_request mode) (filter (sends mode) run)))
   \<and> turns_run mode n d 1 ts =
      (if \<exists>m < length ts. ends_turn mode n d (int m + 1) (ts ! m)
       then (take (Suc (LEAST m. ends_turn mode n d (int m + 1) (ts ! m))) ts, True) else (ts, False))
   \<and> (if 0 < n then length (snd (runRequestLoop mode n d ts)) \<le> nat n else True)
   \<and> (if 0 < n \<and> d \<noteq> 0 \<and> nat n \<le> length ts \<and> list_all (\<lambda>t. sends mode t \<and> \<not> wait_done t) (take (nat n) ts)
      then runRequestLoop mode n d ts = (Some (), map (turn_request mode) (take (nat n) ts)) else True)"
proof -
  have run: "runRequestLoop mode n d ts =
      (if snd (turns_run mode n d 1 ts) then Some () else None,
       map (turn_request mode) (filter (sends mode) (fst (turns_run mode n d 1 ts))))"
    using request_loop_exact [of mode "''''" n d 0 ts "[]"] by (simp add: runRequestLoop_def case_prod_unfold)
  have first: "turns_run mode n d 1 ts =
      (if \<exists>m < length ts. ends_turn mode n d (int m + 1) (ts ! m)
       then (take (Suc (LEAST m. ends_turn mode n d (int m + 1) (ts ! m))) ts, True) else (ts, False))"
  proof (cases "\<exists>m < length ts. ends_turn mode n d (int m + 1) (ts ! m)")
    case True
    let ?m = "LEAST m. ends_turn mode n d (int m + 1) (ts ! m)"
    obtain m where m: "m < length ts" "ends_turn mode n d (int m + 1) (ts ! m)" using True by blast
    have e: "ends_turn mode n d (int ?m + 1) (ts ! ?m)" by (rule LeastI [of _ m]) (rule m(2))
    have "?m \<le> m" by (rule Least_le) (rule m(2))
    moreover have "\<not> ends_turn mode n d (int k + 1) (ts ! k)" if "k < ?m" for k
      using not_less_Least [OF that] .
    ultimately have "turns_run mode n d 1 ts = (take (Suc ?m) ts, True)"
      using e m(1) by (intro turns_run_Some) (simp_all add: add.commute [of 1])
    then show ?thesis using True by simp
  next
    case False
    then show ?thesis using turns_run_None [of ts mode n d 1] by (auto simp: add.commute [of 1])
  qed
  have bound: "0 < n \<Longrightarrow> length (snd (runRequestLoop mode n d ts)) \<le> nat n"
    using turns_run_bound [of n mode d 1 ts] by (simp add: run)
  have "turns_run mode n d 1 ts = (take (nat n) ts, True)"
    if h: "0 < n" "d \<noteq> 0" "nat n \<le> length ts" "list_all (\<lambda>t. sends mode t \<and> \<not> wait_done t) (take (nat n) ts)"
  proof -
    have s: "sends mode (ts ! k) \<and> \<not> wait_done (ts ! k)" if "k < nat n" for k
      using h(3,4) that by (auto simp: list_all_length)
    have "turns_run mode n d 1 ts = (take (Suc (nat n - 1)) ts, True)"
      using h(1-3) s by (intro turns_run_Some) (auto simp: ends_turn_def shouldStop_def nat_diff_distrib)
    then show ?thesis using h(1) by simp
  qed
  then have "runRequestLoop mode n d ts = (Some (), map (turn_request mode) (take (nat n) ts))"
    if h: "0 < n" "d \<noteq> 0" "nat n \<le> length ts" "list_all (\<lambda>t. sends mode t \<and> \<not> wait_done t) (take (nat n) ts)"
    using h by (simp add: run list_all_iff filter_id_conv)
  with run first bound show ?thesis by (simp add: case_prod_unfold)
qed

text \<open>The limit does not bound the turns: while no token can be fetched the loop goes on, also with a
  limit, and also with the interval zero that asks for a single request.\<close>

lemma loop_ignores_limit:
  "list_all (\<lambda>t. \<not> sends ModeJWT t \<and> \<not> ctx_done t \<and> \<not> wait_done t) ts \<Longrightarrow>
   runRequestLoop ModeJWT n d ts = (None, [])"
proof -
  have "list_all (\<lambda>t. \<not> sends ModeJWT t \<and> \<not> ctx_done t \<and> \<not> wait_done t) ts \<Longrightarrow>
    request_loop ModeJWT n d cnt token ts made = (None, made)" for cnt token made
    by (induction ts arbitrary: cnt) (simp_all add: request_loop_turn del: request_loop.simps(2))
  then show "list_all (\<lambda>t. \<not> sends ModeJWT t \<and> \<not> ctx_done t \<and> \<not> wait_done t) ts \<Longrightarrow> ?thesis"
    by (simp add: runRequestLoop_def)
qed

definition demo_turn :: "(string, string) result \<Rightarrow> turn" where
  "demo_turn r = \<lparr>fetched = r, ctx_done = False, wait_done = False, answer = Inr ''Hello''\<rparr>"

text \<open>A limit of two requests and one failed fetch: one request is made.\<close>

theorem client_loop_requests_witness:
  "runRequestLoop ModeJWT 2 5 [demo_turn (Inl ''down''), demo_turn (Inr ''b''), demo_turn (Inr ''c'')] =
     (Some (), [(''b'', Inr ''Hello'')])"
  using client_loop_requests [of ModeJWT 2 5 "[demo_turn (Inl ''down''), demo_turn (Inr ''b''), demo_turn (Inr ''c'')]"]
  by (simp add: demo_turn_def sends_def turn_request_def ends_turn_def shouldStop_def)

section \<open>The routes of the HTTP server\<close>

datatype http_answer = JSON nat HelloResponse | Text nat string

definition handleHealth :: "'c http_request \<Rightarrow> http_answer" where
  "handleHealth r = Text 200 ''ok''"

definition writeJSON :: "nat \<times> HelloResponse \<Rightarrow> http_answer" where
  "writeJSON sb = JSON (fst sb) (snd sb)"

text \<open>The multiplexer with the two routes of \<open>RegisterRoutes\<close>, on a cleaned path.\<close>

definition RegisterRoutes ::
  "('c, 'id) spiffe_lib \<Rightarrow> 'id server_config \<Rightarrow> string \<Rightarrow> string \<Rightarrow> 'c http_request \<Rightarrow> http_answer" where
  "RegisterRoutes lib sc audience path r =
     (if path = ''/hello'' then writeJSON (serve_http lib sc audience r)
      else if path = ''/health'' then handleHealth r
      else Text 404 ''404 page not found'')"

definition greeting_in :: "http_answer \<Rightarrow> string option" where
  "greeting_in a = (case a of JSON status body \<Rightarrow> if status = 200 then Some (Message body) else None | Text _ _ \<Rightarrow> None)"

text \<open>On the whole server a greeting leaves only through \<open>GET /hello\<close>, for an authorized caller.\<close>

lemma routes_greet:
  "greeting_in (RegisterRoutes lib sc aud path (http_of meth c)) =
     (if path = ''/hello'' \<and> meth = ''GET'' \<and> authorized lib sc aud c then Some (hello lib sc aud c) else None)"
proof -
  have get: "case serve_http lib sc aud (http_of ''GET'' c) of (status, body) \<Rightarrow>
          if authorized lib sc aud c then status = 200 \<and> Message body = hello lib sc aud c
          else status \<in> {401, 403} \<and> Message body = ''''"
    unfolding serve_http_def NewHelloService_def authorized_def hello_def proven_id_def
    by (cases "sc_mode sc") (simp_all only: Mode.case x509.http_greets jwt.http_greets)
  show ?thesis
  proof (cases "meth = ''GET''")
    case True
    then show ?thesis
      using get by (auto simp: RegisterRoutes_def writeJSON_def handleHealth_def greeting_in_def split: prod.splits if_splits)
  next
    case False
    then show ?thesis
      by (simp add: RegisterRoutes_def writeJSON_def handleHealth_def greeting_in_def serve_http_def handleHello_def
          writeError_def http_of_def)
  qed
qed

end
