(* ===== verification/Spiffe_System.thy ===== *)
theory Spiffe_System
  imports Spiffe
begin

text \<open>
  The two commands of \<open>spiffe-test\<close> as whole programs, and both ends of a connection together: the workload
  client with its options and the resources it opens and closes, the clients of both transports, the
  request loop on the client object, the life cycle of both servers, \<open>runServer\<close> and \<open>runClient\<close>.

  The TLS handshake is an argument: given the settings of the two ends, it fails or tells the
  server the certificates of its peer. So are the sources of the workload API and the codec of the response body.
\<close>

section \<open>The workload client\<close>

text \<open>What is open: the sources of the workload API and the connection of a client.\<close>

datatype resource = X509Res | JWTRes | ConnRes

type_synonym ('x, 'j) wc_option =
  "('x, 'j) WorkloadClient \<Rightarrow> resource set \<Rightarrow> (string, ('x, 'j) WorkloadClient) result \<times> resource set"

definition WithJWTSource :: "(string, 'j) result \<Rightarrow> ('x, 'j) wc_option" where
  "WithJWTSource new_jwt w os =
     (case new_jwt of
        Inl e \<Rightarrow> (Inl (''failed to create JWTSource: '' @ e), os)
      | Inr j \<Rightarrow> (Inr (w\<lparr>jwtSource := Some j\<rparr>), insert JWTRes os))"

text \<open>The resources that are open after \<open>Close\<close>, whose errors are \<open>wc_Close\<close>.\<close>

definition close_sources :: "('x, 'j) WorkloadClient \<Rightarrow> resource set \<Rightarrow> resource set" where
  "close_sources w os =
     os - (if x509Source w = None then {} else {X509Res}) - (if jwtSource w = None then {} else {JWTRes})"

fun apply_options :: "('x, 'j) wc_option list \<Rightarrow> ('x, 'j) wc_option" where
  "apply_options [] w os = (Inr w, os)"
| "apply_options (opt # opts) w os =
     (case opt w os of
        (Inl e, os') \<Rightarrow> (Inl e, close_sources w os')
      | (Inr w', os') \<Rightarrow> apply_options opts w' os')"

definition NewWorkloadClient ::
  "(string, 'x) result \<Rightarrow> ('x, 'j) wc_option list \<Rightarrow> resource set
     \<Rightarrow> (string, ('x, 'j) WorkloadClient) result \<times> resource set" where
  "NewWorkloadClient new_x509 opts os =
     (case new_x509 of
        Inl e \<Rightarrow> (Inl (''failed to create X509Source: '' @ e), os)
      | Inr x \<Rightarrow> apply_options opts \<lparr>x509Source = Some x, jwtSource = None\<rparr> (insert X509Res os))"

text \<open>\<open>initWorkloadClient\<close> of both commands.\<close>

definition init_client ::
  "(string, 'x) result \<Rightarrow> (string, 'j) result \<Rightarrow> Mode \<Rightarrow> resource set
     \<Rightarrow> (string, ('x, 'j) WorkloadClient) result \<times> resource set" where
  "init_client new_x509 new_jwt mode os =
     (let opts = (if mode = ModeJWT then [WithJWTSource new_jwt] else [])
      in case NewWorkloadClient new_x509 opts os of
           (Inl e, os') \<Rightarrow> (Inl (''failed to create workload client: '' @ e), os')
         | (Inr w, os') \<Rightarrow> (Inr w, os'))"

section \<open>The options of the client\<close>

record client_option =
  co_transport :: string
  co_auth :: string
  co_server :: string
  co_serverID :: string
  co_audience :: string
  co_interval :: int
  co_count :: int

record 'id client_config =
  cc_mode :: Mode
  cc_kind :: Kind
  cc_serverID :: 'id

definition client_parse ::
  "(string \<Rightarrow> (string, 'id) result) \<Rightarrow> client_option \<Rightarrow> (string, 'id client_config) result" where
  "client_parse FromString o1 =
     (case ParseMode (co_auth o1) of
        None \<Rightarrow> Inl (''unknown auth mode: '' @ co_auth o1 @ must_be ''x509'' ''jwt'')
      | Some mode \<Rightarrow>
     (case Parse (co_transport o1) of
        None \<Rightarrow> Inl (''unknown transport: '' @ co_transport o1 @ must_be ''http'' ''grpc'')
      | Some k \<Rightarrow>
     (case FromString (co_serverID o1) of
        Inl e \<Rightarrow> Inl (''invalid server SPIFFE ID: '' @ e)
      | Inr i \<Rightarrow> Inr \<lparr>cc_mode = mode, cc_kind = k, cc_serverID = i\<rparr>)))"

section \<open>The clients\<close>

record 'id hello_client =
  hc_kind :: Kind
  hc_addr :: string
  hc_tls :: "'id tls_config"
  hc_token :: string

definition http_NewClient :: "string \<Rightarrow> 'id tls_config \<Rightarrow> 'id hello_client" where
  "http_NewClient baseURL tls = \<lparr>hc_kind = HTTP, hc_addr = baseURL, hc_tls = tls, hc_token = ''''\<rparr>"

definition grpc_NewClient :: "(string \<Rightarrow> string option) \<Rightarrow> string \<Rightarrow> 'id tls_config \<Rightarrow> (string, 'id hello_client) result" where
  "grpc_NewClient grpc_new addr tls =
     (case grpc_new addr of
        Some e \<Rightarrow> Inl (''failed to create gRPC client: '' @ e)
      | None \<Rightarrow> Inr \<lparr>hc_kind = GRPC, hc_addr = addr, hc_tls = tls, hc_token = ''''\<rparr>)"

text \<open>Creating a gRPC client may fail; it opens a connection object, as the HTTP client does.\<close>

definition createClient ::
  "(string \<Rightarrow> string option) \<Rightarrow> 'id client_config \<Rightarrow> string \<Rightarrow> resource set
     \<Rightarrow> (string, 'id hello_client) result \<times> resource set" where
  "createClient grpc_new cc addr os =
     (let tls = clientTLSConfig (cc_mode cc) (cc_serverID cc)
      in case cc_kind cc of
           HTTP \<Rightarrow> (Inr (http_NewClient addr tls), insert ConnRes os)
         | GRPC \<Rightarrow> (case grpc_NewClient grpc_new addr tls of
                     Inl e \<Rightarrow> (Inl (''failed to create gRPC client: '' @ e), os)
                   | Inr c \<Rightarrow> (Inr c, insert ConnRes os)))"

lemmas createClient_defs = createClient_def http_NewClient_def grpc_NewClient_def

definition SetJWTToken :: "string \<Rightarrow> 'id hello_client \<Rightarrow> 'id hello_client" where
  "SetJWTToken token c = c\<lparr>hc_token := token\<rparr>"

text \<open>
  The network as a client sees it: whether a request for a URL can be built, the HTTP exchange and the
  gRPC call. The client sends the values \<open>bearer\<close> of its token.
\<close>

record 'id network =
  new_request :: "string \<Rightarrow> string option"
  http_do :: "string \<Rightarrow> 'id tls_config \<Rightarrow> string list \<Rightarrow> (string, nat \<times> (string, HelloResponse) result) result"
  grpc_call :: "string \<Rightarrow> 'id tls_config \<Rightarrow> string list \<Rightarrow> (string, string) result"

definition http_SayHello :: "('id, 'm) network_scheme \<Rightarrow> 'id hello_client \<Rightarrow> (string, string) result" where
  "http_SayHello net c =
     (case new_request net (hc_addr c @ ''/hello'') of
        Some e \<Rightarrow> Inl (''failed to create request: '' @ e)
      | None \<Rightarrow> http_client_result (http_do net (hc_addr c @ ''/hello'') (hc_tls c) (bearer (hc_token c))))"

definition grpc_client_SayHello :: "('id, 'm) network_scheme \<Rightarrow> 'id hello_client \<Rightarrow> (string, string) result" where
  "grpc_client_SayHello net c =
     (case grpc_call net (hc_addr c) (hc_tls c) (bearer (hc_token c)) of
        Inl e \<Rightarrow> Inl (''SayHello RPC failed: '' @ e)
      | Inr m \<Rightarrow> Inr m)"

definition client_SayHello :: "('id, 'm) network_scheme \<Rightarrow> 'id hello_client \<Rightarrow> (string, string) result" where
  "client_SayHello net c =
     (case hc_kind c of HTTP \<Rightarrow> http_SayHello net c | GRPC \<Rightarrow> grpc_client_SayHello net c)"

section \<open>The request loop on a client\<close>

text \<open>\<open>prepareJWTIfNeeded\<close>; \<open>fetch\<close> is the token source of the workload API.\<close>

definition prepareJWTIfNeeded ::
  "('j \<Rightarrow> string \<Rightarrow> (string, string) result) \<Rightarrow> Mode \<Rightarrow> string \<Rightarrow> ('x, 'j) WorkloadClient \<Rightarrow> 'id hello_client
     \<Rightarrow> (string, 'id hello_client) result" where
  "prepareJWTIfNeeded fetch mode audience w c =
     (if mode \<noteq> ModeJWT then Inr c
      else (case FetchJWTSVID fetch w audience of Inl e \<Rightarrow> Inl e | Inr t \<Rightarrow> Inr (SetJWTToken t c)))"

text \<open>What the outside does in one turn.\<close>

record ('j, 'id) world_turn =
  wt_fetch :: "'j \<Rightarrow> string \<Rightarrow> (string, string) result"
  wt_net :: "'id network"
  wt_ctx_done :: bool
  wt_wait_done :: bool

text \<open>The result is \<^term>\<open>None\<close> while the loop runs; the second component are the answers of the requests.\<close>

fun client_loop ::
  "Mode \<Rightarrow> string \<Rightarrow> int \<Rightarrow> int \<Rightarrow> ('x, 'j) WorkloadClient \<Rightarrow> int \<Rightarrow> 'id hello_client \<Rightarrow> ('j, 'id) world_turn list
     \<Rightarrow> unit option \<times> (string, string) result list" where
  "client_loop mode aud loopCount loopInterval w cnt c [] = (None, [])"
| "client_loop mode aud loopCount loopInterval w cnt c (t # ts) =
     (let cnt' = cnt + 1
      in case prepareJWTIfNeeded (wt_fetch t) mode aud w c of
           Inl _ \<Rightarrow>
             if wt_ctx_done t then (Some (), [])
             else if wt_wait_done t then (Some (), [])
             else client_loop mode aud loopCount loopInterval w cnt' c ts
         | Inr c' \<Rightarrow>
             let ans = client_SayHello (wt_net t) c'
             in if shouldStop loopCount loopInterval cnt' then (Some (), [ans])
                else if wt_wait_done t then (Some (), [ans])
                else (case client_loop mode aud loopCount loopInterval w cnt' c' ts of
                        (res, as) \<Rightarrow> (res, ans # as)))"

section \<open>The life cycle of the servers\<close>

text \<open>
  What the goroutines of \<open>Start\<close> report, in the order in which they do: the context is done, or
  \<open>Serve\<close> has returned, with the error for a server that was closed or with another one.
\<close>

datatype serve_return = ServerClosed | ServeErr string

datatype server_event = CtxDone | Served serve_return

fun server_wait :: "(string, unit) result \<Rightarrow> server_event list \<Rightarrow> (string, unit) result option" where
  "server_wait shutdown [] = None"
| "server_wait shutdown (CtxDone # es) = Some shutdown"
| "server_wait shutdown (Served ServerClosed # es) = server_wait shutdown es"
| "server_wait shutdown (Served (ServeErr e) # es) = Some (Inl (''server error: '' @ e))"

definition http_Start :: "(string, unit) result \<Rightarrow> server_event list \<Rightarrow> (string, unit) result option" where
  "http_Start shutdown es = server_wait shutdown es"

text \<open>\<open>Shutdown\<close> of the gRPC server stops it by force when the graceful stop takes too long, and returns nil.\<close>

datatype stop_event = Graceful | Forced

definition grpc_Shutdown :: "bool \<Rightarrow> (string, unit) result \<times> stop_event" where
  "grpc_Shutdown timed_out = (Inr (), if timed_out then Forced else Graceful)"

definition grpc_Start ::
  "(string, unit) result \<Rightarrow> bool \<Rightarrow> server_event list \<Rightarrow> (string, unit) result option" where
  "grpc_Start listen timed_out es =
     (case listen of
        Inl e \<Rightarrow> Some (Inl (''failed to listen: '' @ e))
      | Inr _ \<Rightarrow> server_wait (fst (grpc_Shutdown timed_out)) es)"

section \<open>The commands\<close>

record server_world =
  sw_shutdown :: "(string, unit) result"
  sw_listen :: "(string, unit) result"
  sw_timed_out :: bool
  sw_events :: "server_event list"

definition startServer :: "'id server_config \<Rightarrow> server_world \<Rightarrow> (string, unit) result option" where
  "startServer sc sw =
     (case sc_kind sc of
        HTTP \<Rightarrow> http_Start (sw_shutdown sw) (sw_events sw)
      | GRPC \<Rightarrow> grpc_Start (sw_listen sw) (sw_timed_out sw) (sw_events sw))"

text \<open>The result with what is open afterwards; \<^term>\<open>None\<close> while the server runs.\<close>

definition runServer ::
  "(string \<Rightarrow> (string, 'id) result) \<Rightarrow> server_option \<Rightarrow> (string, 'x) result \<Rightarrow> (string, 'j) result \<Rightarrow> server_world
     \<Rightarrow> resource set \<Rightarrow> ((string, unit) result \<times> resource set) option" where
  "runServer FromString o1 new_x509 new_jwt sw os =
     (case server_parse FromString o1 of
        Inl e \<Rightarrow> Some (Inl e, os)
      | Inr sc \<Rightarrow>
          (case init_client new_x509 new_jwt (sc_mode sc) os of
             (Inl e, os1) \<Rightarrow> Some (Inl e, os1)
           | (Inr w, os1) \<Rightarrow>
               map_option (\<lambda>r. (r, close_sources w os1)) (startServer sc sw)))"

record ('x, 'j, 'id) client_world =
  cw_x509 :: "(string, 'x) result"
  cw_jwt :: "(string, 'j) result"
  cw_grpc_new :: "string \<Rightarrow> string option"
  cw_turns :: "('j, 'id) world_turn list"

definition runClient ::
  "(string \<Rightarrow> (string, 'id) result) \<Rightarrow> client_option \<Rightarrow> ('x, 'j, 'id) client_world \<Rightarrow> resource set
     \<Rightarrow> ((string, unit) result \<times> resource set) option \<times> (string, string) result list" where
  "runClient FromString o1 cw os =
     (case client_parse FromString o1 of
        Inl e \<Rightarrow> (Some (Inl e, os), [])
      | Inr cc \<Rightarrow>
          (case init_client (cw_x509 cw) (cw_jwt cw) (cc_mode cc) os of
             (Inl e, os1) \<Rightarrow> (Some (Inl e, os1), [])
           | (Inr w, os1) \<Rightarrow>
               (case createClient (cw_grpc_new cw) cc (co_server o1) os1 of
                  (Inl e, os2) \<Rightarrow> (Some (Inl e, close_sources w os2), [])
                | (Inr c, os2) \<Rightarrow>
                    (case client_loop (cc_mode cc) (co_audience o1) (co_count o1) (co_interval o1) w 0 c (cw_turns cw) of
                       (res, as) \<Rightarrow>
                         (map_option (\<lambda>_. (Inr (), close_sources w (os2 - {ConnRes}))) res, as)))))"

section \<open>Both ends together\<close>

context authenticator
begin

lemma http_answer:
  "http_client_result (Inr (case handleHello of_http (SayHello show_id allowed) (http_of ''GET'' c) of
       (status, body) \<Rightarrow> (status, Inr body))) = Inr m
   \<longleftrightarrow> (\<exists>i \<in> allowed. credential c = Some i \<and> m = greeting (show_id i))"
  using http_greets [where show_id = show_id and allowed = allowed and c = c] by (auto simp: http_client_result_def split: prod.splits if_splits)

lemma grpc_answer:
  "grpc_SayHello of_grpc (SayHello show_id allowed) (grpc_of c) = Inr m
   \<longleftrightarrow> (\<exists>i \<in> allowed. credential c = Some i \<and> m = greeting (show_id i))"
  using grpc_greets [where show_id = show_id and allowed = allowed and c = c] by (auto split: if_splits)

end










section \<open>The loop and its resources\<close>

text \<open>The loop on the client object is the loop of \<open>Spiffe\<close>, with the answers that the client gives.\<close>

definition turn_of ::
  "Mode \<Rightarrow> string \<Rightarrow> ('x, 'j) WorkloadClient \<Rightarrow> 'id hello_client \<Rightarrow> ('j, 'id) world_turn \<Rightarrow> turn" where
  "turn_of mode aud w c t =
     \<lparr>fetched = FetchJWTSVID (wt_fetch t) w aud, ctx_done = wt_ctx_done t, wait_done = wt_wait_done t,
      answer = (case prepareJWTIfNeeded (wt_fetch t) mode aud w c of
                  Inl e \<Rightarrow> Inl e | Inr c' \<Rightarrow> client_SayHello (wt_net t) c')\<rparr>"

lemma turn_of_token:
  "mode = ModeJWT \<Longrightarrow> turn_of mode aud w (SetJWTToken tok c) t = turn_of mode aud w c t"
  by (simp add: turn_of_def prepareJWTIfNeeded_def SetJWTToken_def split: sum.split)

lemma request_loop_acc:
  "request_loop mode lc li cnt tok ts made = apsnd (append made) (request_loop mode lc li cnt tok ts [])"
proof (induction ts arbitrary: cnt tok made)
  case Nil
  show ?case by simp
next
  case (Cons t ts)
  have acc: "request_loop mode lc li (cnt + 1) tok' ts (made @ x) =
      apsnd (append made) (request_loop mode lc li (cnt + 1) tok' ts x)" for tok' x
    by (subst (1 2) Cons.IH) (cases "request_loop mode lc li (cnt + 1) tok' ts []", simp)
  show ?case
  proof (cases "if mode = ModeJWT then fetched t else Inr tok")
    case (Inl e)
    with acc [of tok "[]"] show ?thesis by (simp add: Let_def)
  next
    case (Inr tok')
    with acc [of tok' "[(tok', answer t)]"] show ?thesis by (simp add: Let_def)
  qed
qed

lemma client_loop_refines:
  "client_loop mode aud lc li w cnt c ts =
     apsnd (map snd) (request_loop mode lc li cnt (hc_token c) (map (turn_of mode aud w c) ts) [])"
proof (induction ts arbitrary: cnt c)
  case Nil
  show ?case by simp
next
  case (Cons t ts)
  have same: "turn_of mode aud w c' = turn_of mode aud w c" if "prepareJWTIfNeeded f mode aud w c = Inr c'" for c' f
    using that by (auto simp: prepareJWTIfNeeded_def turn_of_token fun_eq_iff split: if_splits sum.splits)
  show ?case
  proof (cases "prepareJWTIfNeeded (wt_fetch t) mode aud w c")
    case (Inl e)
    then have "mode = ModeJWT" "FetchJWTSVID (wt_fetch t) w aud = Inl e"
      by (auto simp: prepareJWTIfNeeded_def split: if_splits sum.splits)
    then show ?thesis using Inl Cons.IH by (simp add: Let_def turn_of_def)
  next
    case (Inr c')
    then have tok: "(if mode = ModeJWT then FetchJWTSVID (wt_fetch t) w aud else Inr (hc_token c)) = Inr (hc_token c')"
      by (auto simp: prepareJWTIfNeeded_def SetJWTToken_def split: if_splits sum.splits)
    have ans: "answer (turn_of mode aud w c t) = client_SayHello (wt_net t) c'" by (simp add: turn_of_def Inr)
    have ih: "client_loop mode aud lc li w (cnt + 1) c' ts =
        apsnd (map snd) (request_loop mode lc li (cnt + 1) (hc_token c') (map (turn_of mode aud w c) ts) [])"
      using Cons.IH [of "cnt + 1" c'] same [OF Inr] by simp
    have tok': "(if mode = ModeJWT then fetched (turn_of mode aud w c t) else Inr (hc_token c)) = Inr (hc_token c')"
      using tok by (simp add: turn_of_def split: if_splits)
    obtain res ms where rest: "request_loop mode lc li (cnt + 1) (hc_token c') (map (turn_of mode aud w c) ts) [] = (res, ms)"
      by fastforce
    show ?thesis
      using request_loop_acc [of mode lc li "cnt + 1" "hc_token c'" "map (turn_of mode aud w c) ts"
          "[(hc_token c', answer (turn_of mode aud w c t))]"]
      by (simp add: Let_def tok' ans ih Inr rest) (simp add: turn_of_def)
  qed
qed

lemma init_client_open:
  "(\<exists>e. init_client x j mode {} = (Inl e, {})) \<or>
   (\<exists>w. init_client x j mode {} = (Inr w, if jwtSource w = None then {X509Res} else {JWTRes, X509Res}) \<and> x509Source w \<noteq> None)"
  by (cases x; cases j; cases "mode = ModeJWT")
    (simp_all add: init_client_def NewWorkloadClient_def WithJWTSource_def close_sources_def)

lemma close_all: "x509Source w \<noteq> None \<Longrightarrow> close_sources w (if jwtSource w = None then {X509Res} else {JWTRes, X509Res}) = {}"
  by (auto simp: close_sources_def)

text \<open>
  Nothing stays open: whenever one of the commands returns, whether it failed on its options, on a source of
  the workload API, on the client or the server, or was stopped, every source and connection it had opened
  has been closed.
\<close>

theorem resources_closed:
  "map_option snd (runServer FromString so new_x509 new_jwt sw {}) \<in> {None, Some {}}
   \<and> map_option snd (fst (runClient FromString co cw {})) \<in> {None, Some {}}"
proof -
  have s: "map_option snd (runServer FromString so new_x509 new_jwt sw {}) \<in> {None, Some {}}"
  proof (cases "server_parse FromString so")
    case (Inr sc)
    then show ?thesis using init_client_open [of new_x509 new_jwt "sc_mode sc"]
      by (auto simp: runServer_def comp_def option.map_comp close_all split: option.split)
  qed (simp add: runServer_def)
  have "map_option snd (fst (runClient FromString co cw {})) \<in> {None, Some {}}"
  proof (cases "client_parse FromString co")
    case (Inr cc)
    from init_client_open [of "cw_x509 cw" "cw_jwt cw" "cc_mode cc"] show ?thesis
    proof (elim disjE exE conjE)
      fix e assume "init_client (cw_x509 cw) (cw_jwt cw) (cc_mode cc) {} = (Inl e, {})"
      with Inr show ?thesis by (simp add: runClient_def)
    next
      fix w assume w: "init_client (cw_x509 cw) (cw_jwt cw) (cc_mode cc) {} =
          (Inr w, if jwtSource w = None then {X509Res} else {JWTRes, X509Res})" "x509Source w \<noteq> None"
      let ?os = "if jwtSource w = None then {X509Res} else {JWTRes, X509Res}"
      obtain rc os2 where c: "createClient (cw_grpc_new cw) cc (co_server co) ?os = (rc, os2)" by fastforce
      have "(\<exists>e. rc = Inl e \<and> os2 = ?os) \<or> (\<exists>c. rc = Inr c \<and> os2 - {ConnRes} = ?os)"
        using c by (auto simp: createClient_defs Let_def split: Kind.splits option.splits if_splits)
      with Inr w c show ?thesis
        by (auto simp: runClient_def close_all option.map_comp comp_def split: prod.splits)
    qed
  qed (simp add: runClient_def)
  with s show ?thesis by blast
qed

end
