(* ===== verification/Spec2Isabelle.thy ===== *)
theory Spec2Isabelle
  imports Local_PV_Main S3gw_Main Fleet Cep_Checker Envoy_Probe Keepalive_Server Exporter_Main
    Commands Bucket_Provisioner Squid_Exporter Ceph_Exporter Ct_Monitor Spiffe_System
begin

text \<open>
  \<^bold>\<open>A verification development for the programs of neco-containers.\<close>

  The repository builds the container images of a data centre platform on Kubernetes. Most directories
  package software of others; the programs written here, all in Go, are small servers, controllers and
  exporters. They meet in a few places: sabakan's list of machines becomes Kubernetes objects
  (machines-endpoints), of which the BMC reverse proxy reads one and the BMC log collector another; local disks become persistent volumes (local-pv-provisioner); buckets are provided
  (bucket-provisioner-light) and reached through a gateway (s3gw); webhooks guard the API server
  (neco-admission); exporters and probes watch the rest (neco-exporter, squid-exporter, ceph-extra-exporter,
  cep-checker, the probe of envoy, tcp-keepalive); ct-monitor's plugin filters certificate
  issuances; spiffe-test is a client and server pair that authenticate by SPIFFE identities.

  \<^bold>\<open>How the code is modelled.\<close> A Go function that returns an error is a function into \<open>result\<close>, the
  error on the left; a method that changes its receiver returns the new state beside its result; a panic is
  \<^term>\<open>None\<close> where one can occur. Structs are records, enumerations datatypes, maps partial functions. Where Go
  ranges over a map, the order is an argument and the theorems hold for every order. Arithmetic on
  \<open>int64\<close> is over \<^typ>\<open>int\<close> with \<open>wrap64\<close> written out where a result can leave the range, bytes and
  addresses are words. What the code calls outside the repository (the API server, S3, Redfish, Squid's pages,
  go-spiffe, certificate codecs, system calls) is an argument of the definitions, usually a record of functions;
  what a theorem needs of it is a named hypothesis (\<open>s3_ok\<close>, \<open>unstructured_ok\<close>, \<open>quantity_ok\<close>, \<open>client_ok\<close> and the
  like), and a witness shows that a concrete instance meets it. Faults of system calls and services are
  arguments as well, so an error theorem quantifies over every combination of failures. A program as a whole is a function
  into \<open>process\<close> (it has exited with a status, it has panicked, or it runs), applied to the sequence of events that drives
  its loops.

  \<^bold>\<open>Theories.\<close>
  \<^item> Prelude: \<open>result\<close>, \<open>wrap64\<close>, the functions of packages strings, strconv, slices and maps that the code
    calls, \<open>process\<close>, \<open>time.NewTicker\<close>, and the collections \<open>go_defs\<close> and \<open>go_splits\<close>. Go_Net: addresses, networks and
    host-port pairs of package net. Go_Json: JSON values as encoding/json presents them in an \<open>interface{}\<close>.
  \<^item> Json_Text: the texts of encoding/json, with printer, scanner and the decoding of structs by the names of their fields;
    what is printed is read back. The locale \<open>json_codec\<close> is the contract of a type stored as JSON, interpreted for the
    pointers and machines of the log collector and for the machines in sabakan's answers.
  \<^item> Fill_Deleter (\<open>local-pv-provisioner/controllers/deleter.go\<close>, \<open>fs.go\<close>): \<open>FillDeleter.Delete\<close> on a block device
    with faults. The interface \<open>Deleter\<close> is a locale. Success zeroes exactly the BlueStore label blocks and every
    failure leaves all other bytes alone.
  \<^item> Local_PV (\<open>device_detector.go\<close>, \<open>local_device.go\<close>, \<open>persistent_volume.go\<close>): the pass of the detector and the
    reconciler, both over the \<open>Deleter\<close>. A device that has a volume is never written by the detector, a new volume
    is always clean, the reconciler touches only Released volumes of its node, names are valid.
    Local_PV_System: both controllers cut at their calls and interleaved with the cluster and the workloads as a step
    relation. The reconciler reads through a cache that may return any earlier version, and volumes may vanish at any time.
    The detector writes only to devices without a volume, the reconciler only to the device of a volume that it has read as
    Released; what is offered is clean in every run without a \<open>lapse\<close> (the detector takes a volume for present that is missing),
    and from a lapse a device is offered that was not cleaned.
    Local_PV_Main (\<open>cmd/run.go\<close>): settings, the filter of events, the watcher of Released volumes and the queue of
    requests; Released volumes are reclaimed.
  \<^item> S3gw (\<open>s3gw\<close>): access control and handlers. The access decision equals its specification; refused
    clients never reach the bucket. A list of networks is read exactly as it is written. S3gw_Main: settings, the multiplexer
    of net/http on escaped paths, instrumentation and main; the bucket after any history of requests.
  \<^item> Collector_Data (\<open>bmc-log-collector\<close>): the structs with their JSON names. Log_Collector: pointer files, a scrape, the
    loop over machines. The pointer file is replaced atomically; cleaning up concerns exactly the machines that left. The
    interface \<open>bmcLogWriter\<close> is the locale \<open>bmc_log_writer\<close>. Collector_Main: the scraping loop and main; over any history of
    failures, log resets, changes of the list and orders of the workers the lines of each machine are exactly its events, each
    written once, counted anew when the machine comes back after it left the list. The locale
    \<open>writer_simulation\<close> relates two writers and carries the result from a writer that notes machines to the real one.
  \<^item> Machines_Endpoints (\<open>machines-endpoints\<close>): the query to sabakan and its answer, ports, addresses, ConfigMaps, Services
    and EndpointSlices, the main function with its dry run. An update leaves exactly the slices of the target.
  \<^item> Bmc_Proxy (\<open>bmc-reverse-proxy\<close>): host resolution, director, caches, tunnels and main; a connection is served with the
    certificate and the map that were loaded last.
  \<^item> Fleet: the three programs around one list of machines; with \<open>published_fleet\<close> this theory shows that their conventions
    agree, from sabakan's answer to the machines that are scraped and the BMC that gets a request.
  \<^item> Cep_Checker (\<open>cep-checker/main.go\<close>): the comparison of Pods and CiliumEndpoints and the gauges over a
    reachability relation; the loop of the command and the page of its metrics.
  \<^item> Envoy_Probe (\<open>envoy/pkg/probe\<close>): monitors and verdicts after any history, also when probes
    interleave between reading and storing; the routes and the run of the server.
  \<^item> Tcp_Keepalive (\<open>tcp-keepalive/internal\<close>): client with its retry loops and the server's connection
    handler, driven by scripts of network events; an exchange races with its timeout. Keepalive_Server: the settings with
    the defaults of their flags, the whole server as a step relation (accepting, and per connection a handler and a
    reading goroutine) with its shared counters, the server of the metrics and both commands.
  \<^item> Exporter and Collectors (\<open>neco-exporter/pkg\<close>): names, registry and rounds; all collectors as interpretations of the
    locale \<open>collector_impl\<close> for the interface \<open>exporter.Collector\<close>; the registry always shows the latest results
    and a round panics only on an endpoint without the parts the BPF collector reads. Exporter_Main: the options, the set-up of the
    collectors, the loop, which starts only with a positive interval, and the way the process stops.
  \<^item> Admission (\<open>admission/hooks\<close>): the webhooks on pods, deployments, dashboards, namespaces and deletions;
    the locale \<open>validating_hook\<close> collects what all validators share and is interpreted for every one of them.
    Admission_Proxy: the HTTPProxy webhooks and the table of handlers of \<open>cmd/run.go\<close>. Commands: the command line and the
    configuration file of neco-admission, and the program testhttpd.
  \<^item> Bucket_Provisioner (\<open>bucket-provisioner-light\<close>): settings, provisioning and deletion of buckets page by page, against a
    service whose calls may fail before or after they took effect (\<open>s3_ok\<close>); on a service that is up (\<open>s3_up\<close>) a deletion completes.
  \<^item> Squid_Exporter (\<open>squid-exporter\<close>) and Ceph_Exporter (\<open>ceph-extra-exporter\<close>): the converters and the
    executers with their collectors.
  \<^item> Ct_Monitor (\<open>ct-monitor/plugin/incluster-filter\<close>): the fingerprints and the in-place filter on a shared array.
  \<^item> Spiffe (\<open>spiffe-test\<close>): the authenticators as interpretations of the locale \<open>authenticator\<close>, service, handlers,
    options and the request loop. Spiffe_System: both commands as whole programs, the resources they open and close,
    the life cycle of the servers, and client and server connected end to end.
  \<^item> Spec2Isabelle: properties that span components.

  \<^bold>\<open>Loops, bounds and fuel.\<close> Loops over data are structural recursion; loops with an index are functions with a
  measure. The parser of IPv6 groups runs on fuel 9, one more than the eight groups an address can have, and a lemma
  shows that more fuel changes nothing. The pages of a bucket run on fuel; any fuel above the number
  of objects is shown to be enough, since every page but the last removes an object. Loops that end only
  by outside events (the clients of tcp-keepalive and spiffe-test) run on the list of those events, and that they stop
  is a theorem about the length of the list. The scanner of JSON runs on fuel of twice the length of the text and one more;
  a lemma shows that more changes nothing. Time is not modelled (but for the panic of \<open>time.NewTicker\<close> and
  intervals that wrap around): each theorem about a loop is stated for any sequence of ticks and other events, by induction
  over a reachability relation or a list of events.

  \<^bold>\<open>Not modelled.\<close> The declarations of most command line flags, loggers, the settings of HTTP clients and servers (timeouts,
  pools) and constructors that only store their arguments: they pass values to libraries. The parsing of
  RFC 3339 times, of YAML and of Kubernetes objects: arguments. Repeated keys of array type within one JSON object,
  whose decoding depends on memory that an earlier value left behind. Concurrency below the steps of the step relations and, elsewhere, beyond the order
  of whole operations: the code guards its shared maps by locks, the orders of workers are quantified
  over. Generated gRPC code, the fake BMC of the tests, and the directories that hold only
  Dockerfiles and patches for software of others.
\<close>

section \<open>Properties that span components\<close>

text \<open>
  C16. machines-endpoints, bmc-log-collector and bmc-reverse-proxy fit together, from sabakan's answer to the BMC. After a
  successful run of machines-endpoints that publishes both ConfigMaps: the collector, with its ConfigMap mounted, reads
  exactly the machines of sabakan's answer that have an address and a BMC, each once; and the proxy, once it has loaded a
  certificate and its ConfigMap and listens on the outer port of a tunnel, sends a request for a host name of such a machine (its rack name, its dashed
  address, its serial in either case, or the full name of a boot server) by HTTPS to the address of that machine's BMC at the
  inner port of the tunnel, provided no other machine publishes the same name for a different BMC.
\<close>

theorem published_fleet:
  assumes "subMain world fl st = (Inr (), st')" and "\<not> flgDryRun fl" and "flgBMCReverseProxyConfigMap fl"
    and "flgBMCLogCollectorConfigMap fl" and "sabakan_lists world fl ms" and "mset (sort_func world ms) = mset ms"
    and "kube_config world = Inr api" and "kube_namespace api = Inr ns" and "configmaps_api api ns cm"
    and "machinesListDir c = dir @ ''/machineslist.json''" and "quiet_fs (tk_env t)"
    and "tk_config t = mounted dir (the (cm (cluster st') ''bmc-log-collector''))"
    and "m \<in> set ms" and "has_bmc m" and "k \<in> bmc_keys m"
    and "\<not> (\<exists>m' \<in> set ms. has_bmc m' \<and> k \<in> bmc_keys m' \<and> BMC_IPv4 m' \<noteq> BMC_IPv4 m)"
    and "host_for (bmcReverseProxyConfigMapData (sort_func world ms)) k h" and "Bmc_Proxy.Host req = h @ CHR ''.'' # rest"
    and "(external, inner) \<in> set tunnels" and "net_listen ('':'' @ show_nat external) = None"
  shows "(\<exists>fleet. tk_machines c t = Inr fleet \<and> mset fleet = mset (map scraped_machine (filter has_bmc ms)))
    \<and> fst (proxy_run [LoadCertificate (Inr crt), LoadMap (Inr ns) (get_configmap (cm (cluster st'))),
             OpenTunnel inner external net_listen, Connection external req] []
             \<lparr>certificateCache = None, resolveMapCache = None\<rparr>)
      = [Some (req\<lparr>URL_Host := join_host_port (BMC_IPv4 m) (show_nat inner), URL_Scheme := ''https''\<rparr>, [])]"
proof -
  let ?sms = "sort_func world ms"
  note pub = subMain_publishes [OF assms(1-5,7-9)]
  have same: "set ?sms = set ms" using mset_eq_setD [OF assms(6)] .
  have ok: "list_all machine_printable ?sms" using assms(5) same by (simp add: sabakan_lists_def list_all_iff)
  obtain d where d: "cm (cluster st') ''bmc-log-collector'' = Some d" using pub by (auto simp: publishes_def)
  then have "tk_config t = mounted dir d" using assms(12) by simp
  from collector_reads [OF pub d ok assms(10,11) this]
  have "tk_machines c t = Inr (map scraped_machine (filter has_bmc ?sms))" .
  moreover have "mset (map scraped_machine (filter has_bmc ?sms)) = mset (map scraped_machine (filter has_bmc ms))"
    using assms(6) by (simp add: mset_filter)
  ultimately have fleet: "\<exists>fleet. tk_machines c t = Inr fleet \<and> mset fleet = mset (map scraped_machine (filter has_bmc ms))" by blast
  have "m \<in> set ?sms" "\<not> (\<exists>m' \<in> set ?sms. has_bmc m' \<and> k \<in> bmc_keys m' \<and> BMC_IPv4 m' \<noteq> BMC_IPv4 m)"
    using assms(13,16) same by simp_all
  from fleet proxy_forwards [where net_listen = net_listen, OF pub this(1) assms(14,15) this(2) assms(17-20)] show ?thesis by (rule conjI)
qed

text \<open>A cluster of ConfigMaps only, one boot server, and a run that publishes it.\<close>

definition demo_boot :: "Machines_Endpoints.Machine" where
  "demo_boot = \<lparr>IPv4 = [''10.0.0.3''], Serial = ''ABC'', Rack = 3, IndexInRack = 3, Role = ''boot'',
     BMC_IPv4 = ''10.1.0.3'', State = ''HEALTHY''\<rparr>"

definition demo_spare :: "Machines_Endpoints.Machine" where
  "demo_spare = \<lparr>IPv4 = [], Serial = ''XYZ'', Rack = 3, IndexInRack = 4, Role = ''cs'', BMC_IPv4 = [], State = ''HEALTHY''\<rparr>"

definition demo_store :: "(string \<rightharpoonup> (string \<rightharpoonup> string)) k8s_api" where
  "demo_store = \<lparr>kube_namespace = Inr ''ns'', apply_service = (\<lambda>_ _ w. (Inr (), w)), apply_slice = (\<lambda>_ _ w. (Inr (), w)),
     list_slices = (\<lambda>_ _ _. Inr []), delete_slice = (\<lambda>_ _ w. (Inr (), w)),
     apply_configmap = (\<lambda>_ name d w. (Inr (), w(name \<mapsto> d)))\<rparr>"

definition demo_world :: "(string \<rightharpoonup> (string \<rightharpoonup> string)) me_world" where
  "demo_world = \<lparr>query = (\<lambda>_ _. Inr (200, \<lparr>stream_bytes = sabakan_answer [demo_spare, demo_boot], stream_error = None\<rparr>)),
     sort_func = rev, retired = ''RETIRED'', dns_label = (\<lambda>_. []), kube_config = Inr demo_store, marshal_res = (\<lambda>_. Inr [])\<rparr>"

definition demo_flags :: flags where
  "demo_flags = \<lparr>flgSabakanAddress = ''localhost:10080'', flgAllServersPorts = [], flgBootServersPorts = [],
     flgMaxEndpointsPerSlice = 100, flgBMCReverseProxyConfigMap = True, flgBMCLogCollectorConfigMap = True, flgDryRun = False\<rparr>"

definition demo_request :: "Bmc_Proxy.request" where
  "demo_request = \<lparr>Host = ''stage0-boot-3.bmc.example.com'', URL_Host = [], URL_Scheme = []\<rparr>"

definition demo_published :: "string \<rightharpoonup> (string \<rightharpoonup> string)" where
  "demo_published = [''bmc-reverse-proxy'' \<mapsto> bmcReverseProxyConfigMapData [demo_boot, demo_spare],
     ''bmc-log-collector'' \<mapsto> [''machineslist.json''
        \<mapsto> print_json (enc_slice serial_ip_json (log_collector_machines [demo_boot, demo_spare]))]]"

lemma demo_printable: "list_all machine_printable [demo_spare, demo_boot]"
  by (simp add: machine_printable_def demo_boot_def demo_spare_def ascii_def int64_range_def)

lemma demo_run: "subMain demo_world demo_flags \<lparr>cluster = Map.empty, stdout = []\<rparr> = (Inr (), \<lparr>cluster = demo_published, stdout = []\<rparr>)"
proof -
  have "getMachines (query demo_world) rev ''localhost:10080'' = Inr (rev [demo_spare, demo_boot])"
    by (rule getMachines_answer [OF demo_printable]) (simp add: demo_world_def)
  moreover have "SplitHostPort ''localhost:10080'' = Some (''localhost'', ''10080'')" by code_simp
  ultimately show ?thesis
    by (simp add: subMain_def demo_flags_def parseNamedPorts_def validateMaxEndpointsPerSlice_def newKubernetesClient_def demo_world_def
        apply_all_def and_then_def applyConfigMap_def print_or_apply_def bmcLogCollectorConfigMapData_def json_Marshal_def
        demo_store_def demo_published_def bmcReverseProxyConfigMapName_def bmcLogCollectorConfigMapName_def)
qed

definition demo_mount :: "string \<Rightarrow> tick" where
  "demo_mount dir = \<lparr>tk_env = quiet_fs_env, tk_client = (\<lambda>_. demo_client (Inl ''down'')),
     tk_config = mounted dir (the (demo_published ''bmc-log-collector'')), tk_order = rev, tk_listdir = (\<lambda>_. [])\<rparr>"

theorem published_fleet_witness:
  "(\<exists>fleet. tk_machines (demo_collector\<lparr>machinesListDir := ''/config/machineslist.json''\<rparr>) (demo_mount ''/config'') = Inr fleet
      \<and> mset fleet = {#\<lparr>m_Serial = ''ABC'', m_BmcIP = ''10.1.0.3'', m_NodeIP = ''10.0.0.3''\<rparr>#})
   \<and> fst (proxy_run [LoadCertificate (Inr ()), LoadMap (Inr ''ns'') (get_configmap demo_published),
             OpenTunnel 443 8443 (\<lambda>_. None), Connection 8443 demo_request] []
             \<lparr>certificateCache = None, resolveMapCache = None\<rparr>)
      = [Some (demo_request\<lparr>URL_Host := join_host_port ''10.1.0.3'' (show_nat 443), URL_Scheme := ''https''\<rparr>, [])]"
proof -
  have n: "show_nat 3 = ''3''" by code_simp
  have k: "''boot-3'' \<in> bmc_keys demo_boot"
    by (simp add: bmc_keys_def bmc_hostname_def isBootServer_def demo_boot_def itoa_def n)
  have host: "host_for (bmcReverseProxyConfigMapData (sort_func demo_world [demo_spare, demo_boot])) ''boot-3'' ''stage0-boot-3''"
    unfolding host_for_def using n by (intro conjI disjI2 disjI1 exI [of _ "''stage0''"] exI [of _ 3]) simp_all
  have bmc: "has_bmc demo_boot" "\<not> has_bmc demo_spare" by (simp_all add: has_bmc_def hasIPv4_def demo_boot_def demo_spare_def)
  have sab: "sabakan_lists demo_world demo_flags [demo_spare, demo_boot]"
    using demo_printable by (simp add: sabakan_lists_def demo_world_def)
  have api: "configmaps_api demo_store ''ns'' (\<lambda>w. w)" by (simp add: configmaps_api_def demo_store_def)
  let ?c = "demo_collector\<lparr>machinesListDir := ''/config/machineslist.json''\<rparr>" and ?t = "demo_mount ''/config''"
  have "(\<exists>fleet. tk_machines ?c ?t = Inr fleet \<and> mset fleet = mset (map scraped_machine (filter has_bmc [demo_spare, demo_boot])))
   \<and> fst (proxy_run [LoadCertificate (Inr ()), LoadMap (Inr ''ns'') (get_configmap (cluster \<lparr>cluster = demo_published, stdout = []\<rparr>)),
            OpenTunnel 443 8443 (\<lambda>_. None), Connection 8443 demo_request] [] \<lparr>certificateCache = None, resolveMapCache = None\<rparr>)
      = [Some (demo_request\<lparr>URL_Host := join_host_port (BMC_IPv4 demo_boot) (show_nat 443), URL_Scheme := ''https''\<rparr>, [])]"
    by (rule published_fleet [OF demo_run _ _ _ sab _ _ _ api _ _ _ _ bmc(1) k _ host, where dir = "''/config''" and rest = "''bmc.example.com''"])
      (use bmc in \<open>simp_all add: demo_flags_def demo_world_def demo_store_def demo_mount_def demo_request_def tunnels_def\<close>)
  then show ?thesis using bmc by (simp add: scraped_machine_def demo_boot_def)
qed

end
